(* ===== verification/RPC_Prelude.thy ===== *)
theory RPC_Prelude
  imports Main "HOL-Library.Word"
begin

text \<open>
  Shared vocabulary of the RetryRPC development: the types that name the
  Go program's scalar types, the collections of facts the component theories
  feed to the simplifier, and generic lemmas on 64-bit words, lists and maps
  that several components use.

  \<^item> \<open>requestID\<close> is Go's \<^verbatim>\<open>type requestID uint64\<close>: a \<open>64 word\<close>, so
    that \<^verbatim>\<open>h++\<close> wraps at \<open>2^64\<close> as it does in the Go code.
  \<^item> Wall-clock instants and durations (\<^verbatim>\<open>time.Time\<close>,
    \<^verbatim>\<open>time.Duration\<close>) are nanosecond counts, \<open>nat\<close> and \<open>int\<close>.
  \<^item> Go \<^verbatim>\<open>int\<close> counters are \<open>int\<close> (their 64-bit overflow needs
    \<open>2^63\<close> operations and is not modelled).
  \<^item> A Go byte slice (\<^verbatim>\<open>[]byte\<close>) is a list of HOL \<open>char\<close>s, which are
    exactly the 256 byte values (\<open>of_char\<close> and \<open>char_of\<close> convert to and
    from numbers); JSON text is then a byte slice as in Go.
\<close>

type_synonym requestID = "64 word"
type_synonym bytes = string
type_synonym time = nat
type_synonym duration = int

text \<open>
  Go's \<^verbatim>\<open>if err != nil { return err }\<close>: sequencing of fallible steps
  over a sum type whose left side is the error.
\<close>

definition sbind :: "'e + 'a \<Rightarrow> ('a \<Rightarrow> 'e + 'b) \<Rightarrow> 'e + 'b" where
  "sbind x f = (case x of Inl e \<Rightarrow> Inl e | Inr a \<Rightarrow> f a)"

named_theorems session_simps "unfolding facts of the per-client session operations"
named_theorems trim_simps "unfolding facts of the trim passes"
named_theorems swift_simps "unfolding facts of the Swift emulator operations"

subsection \<open>Error sequencing\<close>

lemma sbind_simps [simp]:
  "sbind (Inl e) f = Inl e"
  "sbind (Inr a) f = f a"
  by (simp_all add: sbind_def)

lemma sbind_eq_Inr_iff:
  "sbind x f = Inr b \<longleftrightarrow> (\<exists>a. x = Inr a \<and> f a = Inr b)"
  by (cases x) simp_all

subsection \<open>64-bit words\<close>

text \<open>
  The maximum request ID is \<open>- 1\<close>; incrementing anything else does not wrap.
\<close>

lemma word_le_minus_one [simp]: "(x :: 'a::len word) \<le> - 1"
  by (rule max_word_max)

lemma minus_one_le_word_iff [simp]: "(- 1 \<le> (x :: 'a::len word)) \<longleftrightarrow> x = - 1"
  by (auto intro: antisym)

lemma unat_plus_one_no_wrap:
  fixes x :: "'a::len word"
  assumes "x \<noteq> - 1"
  shows "unat (x + 1) = Suc (unat x)"
proof -
  have "1 + x \<noteq> 0"
    using assms by (metis add.commute max_word_wrap)
  then show ?thesis by (simp add: unatSuc add.commute)
qed

lemma word_less_plus_one_iff:
  fixes x y :: "'a::len word"
  assumes "x \<noteq> - 1"
  shows "y < x + 1 \<longleftrightarrow> y \<le> x"
  using unat_plus_one_no_wrap [OF assms]
  by (simp add: word_less_nat_alt word_le_nat_alt less_Suc_eq_le)

lemma word_plus_one_le_iff:
  fixes x y :: "'a::len word"
  assumes "x \<noteq> - 1"
  shows "x + 1 \<le> y \<longleftrightarrow> x < y"
  using unat_plus_one_no_wrap [OF assms]
  by (simp add: word_less_nat_alt word_le_nat_alt Suc_le_eq)

lemma word_one_le_iff: "(1 \<le> (x :: 'a::len word)) \<longleftrightarrow> x \<noteq> 0"
  using word_le_sub1 by auto

lemma word_less_not_max: "(x :: 'a::len word) < y \<Longrightarrow> x \<noteq> - 1"
  by auto

lemma word_plus_one_eq_0_iff: "(x + 1 = (0 :: 'a::len word)) \<longleftrightarrow> x = - 1"
  by (simp add: eq_neg_iff_add_eq_0)

subsection \<open>Orders\<close>

text \<open>The Go idiom \<^verbatim>\<open>if x > cur { cur = x }\<close> computes a maximum.\<close>

lemma if_less_max [simp]: "(if a < b then b else a) = max a (b :: 'a::linorder)"
  by (auto simp: max_def)

subsection \<open>Lists\<close>

lemma distinct_length_filter_eq:
  "distinct xs \<Longrightarrow> length (filter (\<lambda>y. y = x) xs) = (if x \<in> set xs then 1 else 0)"
  by (induction xs) auto

lemma length_removeAll_distinct:
  "distinct xs \<Longrightarrow> x \<in> set xs \<Longrightarrow> length (removeAll x xs) = length xs - 1"
  by (simp add: distinct_remove1_removeAll [symmetric] length_remove1)

subsection \<open>Maps\<close>

lemma dom_restrict_minus: "dom (m |` (- A)) = dom m - A"
  by auto

end
