(* ===== verification/Wire.thy ===== *)
theory Wire
  imports RPC_Prelude
begin

text \<open>
  The wire codec (spec section 4.1) and the message records of
  \<^verbatim>\<open>src/retryrpc\<close>. A frame is a 9-byte header (the payload length as a
  big-endian \<open>uint64\<close>, then the message type byte) followed by the payload.
  The frame reader \<^verbatim>\<open>getIO\<close>, \<^verbatim>\<open>ioHeader\<close> and \<^verbatim>\<open>setupHdrReply\<close>
  live in a file of the package that is not under \<^verbatim>\<open>src/\<close>; they are modelled
  from the spec (section 6). The JSON records \<^verbatim>\<open>jsonRequest\<close> and
  \<^verbatim>\<open>jsonReply\<close> are the ones \<^verbatim>\<open>server.go\<close> and \<^verbatim>\<open>client.go\<close> fill in;
  the marshalling of a reply follows \<^verbatim>\<open>encoding/json\<close> for that struct.
\<close>

subsection \<open>Big-endian integers\<close>

fun be_encode :: "nat \<Rightarrow> nat \<Rightarrow> bytes" where
  "be_encode 0 x = []"
| "be_encode (Suc n) x = be_encode n (x div 256) @ [char_of (x mod 256)]"

definition be_decode :: "bytes \<Rightarrow> nat" where
  "be_decode bs = foldl (\<lambda>acc c. acc * 256 + of_char c) 0 bs"

subsection \<open>Message types and the frame header\<close>

datatype msg_type = PassID | RPC

fun msg_type_code :: "msg_type \<Rightarrow> nat" where
  "msg_type_code PassID = 1"
| "msg_type_code RPC = 2"

definition msg_type_of_code :: "nat \<Rightarrow> msg_type option" where
  "msg_type_of_code n = (if n = 1 then Some PassID else if n = 2 then Some RPC else None)"

record io_header =
  hdr_len :: "64 word"
  hdr_type :: msg_type

datatype wire_error = ShortRead | MalformedFrame

definition header_size :: nat where
  "header_size = 9"

definition encode_header :: "io_header \<Rightarrow> bytes" where
  "encode_header h = be_encode 8 (unat (hdr_len h)) @ [char_of (msg_type_code (hdr_type h))]"

text \<open>
  Decoding a header: fewer than nine bytes is a short read; an unknown type
  byte or a length above the configured ceiling is a malformed frame.
\<close>

definition decode_header :: "nat \<Rightarrow> bytes \<Rightarrow> wire_error + io_header" where
  "decode_header ceiling bs =
     (if length bs < header_size then Inl ShortRead
      else (case msg_type_of_code (of_char (bs ! 8)) of
              None \<Rightarrow> Inl MalformedFrame
            | Some t \<Rightarrow>
                (let n = be_decode (take 8 bs) in
                 if ceiling < n then Inl MalformedFrame
                 else Inr \<lparr>hdr_len = of_nat n, hdr_type = t\<rparr>)))"

definition encode_frame :: "msg_type \<Rightarrow> bytes \<Rightarrow> bytes" where
  "encode_frame t p = encode_header \<lparr>hdr_len = of_nat (length p), hdr_type = t\<rparr> @ p"

text \<open>
  \<^verbatim>\<open>getIO\<close>: read a header, then exactly \<open>hdr_len\<close> payload bytes; the rest of
  the stream is left for the next read.
\<close>

definition read_frame :: "nat \<Rightarrow> bytes \<Rightarrow> wire_error + (msg_type \<times> bytes \<times> bytes)" where
  "read_frame ceiling s =
     (case decode_header ceiling (take header_size s) of
        Inl e \<Rightarrow> Inl e
      | Inr h \<Rightarrow>
          (let rest = drop header_size s; n = unat (hdr_len h) in
           if length rest < n then Inl ShortRead
           else Inr (hdr_type h, take n rest, drop n rest)))"

subsection \<open>Payload records\<close>

text \<open>
  \<^verbatim>\<open>jsonRequest\<close>: the method name, its single parameter (kept as the JSON text
  of \<^verbatim>\<open>Params[0]\<close>), the client's identifier, the request ID and the client's
  highest consecutive reply seen.
\<close>

record json_request =
  jreq_method :: string
  jreq_params :: string
  jreq_my_unique_id :: string
  jreq_request_id :: requestID
  jreq_highest_reply_seen :: requestID

text \<open>
  \<^verbatim>\<open>jsonReply\<close>: \<open>jrep_result = None\<close> is the nil interface (marshalled as
  \<^verbatim>\<open>null\<close>), otherwise the JSON text of the reply value.
\<close>

record json_reply =
  jrep_my_unique_id :: string
  jrep_request_id :: requestID
  jrep_result :: "string option"
  jrep_err_str :: string

record io_reply =
  ior_hdr :: io_header
  ior_jresult :: bytes

text \<open>\<^verbatim>\<open>setupHdrReply(ior, t)\<close>: the header carries the payload length and type.\<close>

definition setup_hdr_reply :: "io_reply \<Rightarrow> msg_type \<Rightarrow> io_reply" where
  "setup_hdr_reply ior t =
     ior\<lparr>ior_hdr := \<lparr>hdr_len = of_nat (length (ior_jresult ior)), hdr_type = t\<rparr>\<rparr>"

subsection \<open>Writing a reply\<close>

text \<open>
  \<^verbatim>\<open>returnResults\<close> (server.go lines 367--394) writes the header with
  \<^verbatim>\<open>binary.Write\<close> (one \<^verbatim>\<open>Write\<close> of the 9 encoded bytes) and then the
  payload, under the connection's write lock. A Go \<^verbatim>\<open>Write\<close> writes a
  prefix of its buffer and fails exactly when the prefix is shorter than the
  buffer; \<open>nh\<close> and \<open>np\<close> are the numbers of bytes the two writes
  manage to put on the stream \<open>out\<close>. A failed header write returns at once
  (line 381); a failed payload write is only logged.
\<close>

definition return_results :: "nat \<Rightarrow> nat \<Rightarrow> io_reply \<Rightarrow> bytes \<Rightarrow> bytes" where
  "return_results nh np ior out =
     (let h = encode_header (ior_hdr ior) in
      if nh < length h then out @ take nh h
      else out @ h @ take np (ior_jresult ior))"

subsection \<open>Marshalling a reply\<close>

text \<open>
  \<^verbatim>\<open>json.Marshal(jReply)\<close> writes the struct's fields in declaration order.
  Strings are quoted with \<open>"\<close> and \<open>\\\<close> escaped (the escaping of control
  characters and of \<open><\<close>, \<open>>\<close>, \<open>&\<close> is not modelled); numbers are decimal.
\<close>

fun json_escape :: "string \<Rightarrow> string" where
  "json_escape [] = []"
| "json_escape (c # cs) =
     (if c = CHR 0x22 \<or> c = CHR 0x5C then CHR 0x5C # c # json_escape cs
      else c # json_escape cs)"

definition json_str :: "string \<Rightarrow> string" where
  "json_str s = CHR 0x22 # json_escape s @ [CHR 0x22]"

fun decimal :: "nat \<Rightarrow> string" where
  "decimal n =
     (if n < 10 then [char_of (48 + n)] else decimal (n div 10) @ [char_of (48 + n mod 10)])"

definition json_field :: "string \<Rightarrow> string \<Rightarrow> string" where
  "json_field name v = json_str name @ '':'' @ v"

definition marshal_reply :: "json_reply \<Rightarrow> bytes" where
  "marshal_reply r =
     ''{'' @ json_field ''MyUniqueID'' (json_str (jrep_my_unique_id r)) @ '','' @
     json_field ''RequestID'' (decimal (unat (jrep_request_id r))) @ '','' @
     json_field ''Result'' (case jrep_result r of None \<Rightarrow> ''null'' | Some v \<Rightarrow> v) @ '','' @
     json_field ''ErrStr'' (json_str (jrep_err_str r)) @ ''}''"

subsection \<open>Codec lemmas\<close>


lemma length_be_encode [simp]: "length (be_encode n x) = n"
  by (induction n arbitrary: x) auto

lemma be_decode_snoc [simp]: "be_decode (bs @ [c]) = be_decode bs * 256 + of_char c"
  by (simp add: be_decode_def)

lemma be_decode_encode:
  "x < 256 ^ n \<Longrightarrow> be_decode (be_encode n x) = x"
proof (induction n arbitrary: x)
  case 0
  then show ?case by (simp add: be_decode_def)
next
  case (Suc n)
  then have "x div 256 < 256 ^ n" by (simp add: less_mult_imp_div_less mult.commute)
  with Suc.IH have "be_decode (be_encode n (x div 256)) = x div 256" by blast
  then show ?case by simp
qed

lemma msg_type_of_code_code [simp]: "msg_type_of_code (msg_type_code t) = Some t"
  by (cases t) (simp_all add: msg_type_of_code_def)

lemma length_encode_header [simp]: "length (encode_header h) = header_size"
  by (simp add: encode_header_def header_size_def)

lemma decode_encode_header:
  assumes "unat (hdr_len h) \<le> ceiling"
  shows "decode_header ceiling (encode_header h) = Inr h"
proof -
  have lt: "unat (hdr_len h) < 256 ^ 8"
    using unsigned_less [of "hdr_len h", where ?'a = nat] by simp
  have code: "of_char (char_of (msg_type_code (hdr_type h))) = msg_type_code (hdr_type h)"
    by (cases "hdr_type h") simp_all
  show ?thesis
    using assms be_decode_encode [OF lt] code
    by (simp add: decode_header_def encode_header_def header_size_def nth_append)
qed

lemma read_frame_encode:
  assumes "length p \<le> ceiling" and "length p < 2 ^ 64"
  shows "read_frame ceiling (encode_frame t p @ rest) = Inr (t, p, rest)"
proof -
  let ?h = "\<lparr>hdr_len = of_nat (length p) :: 64 word, hdr_type = t\<rparr>"
  have u: "unat (hdr_len ?h) = length p"
    using assms(2) by (simp add: unat_of_nat)
  have "decode_header ceiling (encode_header ?h) = Inr ?h"
    using assms(1) u by (intro decode_encode_header) simp
  then show ?thesis
    using u by (simp add: read_frame_def encode_frame_def)
qed


lemma read_frame_short_header:
  "length s < header_size \<Longrightarrow> read_frame ceiling s = Inl ShortRead"
  by (simp add: read_frame_def decode_header_def)

lemma read_frame_truncated:
  assumes "length p \<le> ceiling" and "length p < 2 ^ 64"
    and "k < length (encode_frame t p)"
  shows "read_frame ceiling (take k (encode_frame t p)) = Inl ShortRead"
proof (cases "k < header_size")
  case True
  then show ?thesis by (simp add: read_frame_short_header)
next
  case False
  let ?h = "\<lparr>hdr_len = of_nat (length p) :: 64 word, hdr_type = t\<rparr>"
  have u: "unat (hdr_len ?h) = length p"
    using assms(2) by (simp add: unat_of_nat)
  have d: "decode_header ceiling (encode_header ?h) = Inr ?h"
    using assms(1) u by (intro decode_encode_header) simp
  have tk: "take header_size (take k (encode_frame t p)) = encode_header ?h"
    using False by (simp add: encode_frame_def min_def)
  have "length (drop header_size (take k (encode_frame t p))) < length p"
    using assms(3) False by (simp add: encode_frame_def)
  then show ?thesis
    using d tk u by (simp add: read_frame_def)
qed


lemma setup_hdr_reply_idem [simp]:
  "setup_hdr_reply (setup_hdr_reply ior t) t = setup_hdr_reply ior t"
  by (simp add: setup_hdr_reply_def)

lemma return_results_complete:
  assumes "header_size \<le> nh" and "length (ior_jresult ior) \<le> np"
  shows "return_results nh np (setup_hdr_reply ior t) out = out @ encode_frame t (ior_jresult ior)"
  using assms by (simp add: return_results_def setup_hdr_reply_def encode_frame_def)

text \<open>
  C12 Round trip of the frame codec: when both writes of
  \<^verbatim>\<open>returnResults\<close> complete, the reader \<^verbatim>\<open>getIO\<close> at the start of the
  frame gets back the message type and the payload, and leaves any bytes
  written after the frame unread.
\<close>

theorem read_frame_return_results:
  assumes "length (ior_jresult ior) \<le> ceiling" and "length (ior_jresult ior) < 2 ^ 64"
    and "header_size \<le> nh" and "length (ior_jresult ior) \<le> np"
  shows "read_frame ceiling (return_results nh np (setup_hdr_reply ior t) [] @ rest) =
           Inr (t, ior_jresult ior, rest)"
  using return_results_complete [OF assms(3,4)] read_frame_encode [OF assms(1,2)] by simp

theorem read_frame_return_results_witness:
  "length ''ab'' \<le> (7::nat) \<and> length ''ab'' < (2::nat) ^ 64 \<and> header_size \<le> 9 \<and> length ''ab'' \<le> (2::nat) \<and>
   read_frame 7 (return_results 9 2 (setup_hdr_reply \<lparr>ior_hdr = \<lparr>hdr_len = 0, hdr_type = PassID\<rparr>, ior_jresult = ''ab''\<rparr> RPC) [] @ ''xyz'') =
     Inr (RPC, ''ab'', ''xyz'')"
  using read_frame_return_results [of "\<lparr>ior_hdr = \<lparr>hdr_len = 0, hdr_type = PassID\<rparr>, ior_jresult = ''ab''\<rparr>" 7 9 2 RPC "''xyz''"]
  by (simp add: header_size_def)

text \<open>
  C13 A reply cut short by a failed write is never taken for a frame: if
  either write of \<^verbatim>\<open>returnResults\<close> fails and the stream ends there (the
  connection is then closed), the reader reports a short read.
\<close>

theorem read_frame_return_results_failed:
  assumes "length (ior_jresult ior) \<le> ceiling" and "length (ior_jresult ior) < 2 ^ 64"
    and "nh < header_size \<or> np < length (ior_jresult ior)"
  shows "read_frame ceiling (return_results nh np (setup_hdr_reply ior t) []) = Inl ShortRead"
proof (cases "nh < header_size")
  case True
  then show ?thesis
    by (simp add: return_results_def read_frame_short_header)
next
  case False
  let ?p = "ior_jresult ior"
  have np: "np < length ?p" using False assms(3) by simp
  have "return_results nh np (setup_hdr_reply ior t) [] = take (header_size + np) (encode_frame t ?p)"
    using False by (simp add: return_results_def setup_hdr_reply_def encode_frame_def)
  moreover have "header_size + np < length (encode_frame t ?p)"
    using np by (simp add: encode_frame_def)
  ultimately show ?thesis
    using read_frame_truncated [OF assms(1,2)] by simp
qed

theorem read_frame_return_results_failed_witness:
  "length ''ab'' \<le> (7::nat) \<and> length ''ab'' < (2::nat) ^ 64 \<and> (9 < header_size \<or> (1::nat) < length ''ab'') \<and>
   read_frame 7 (return_results 9 1 (setup_hdr_reply \<lparr>ior_hdr = \<lparr>hdr_len = 0, hdr_type = PassID\<rparr>, ior_jresult = ''ab''\<rparr> RPC) []) = Inl ShortRead"
  using read_frame_return_results_failed [of "\<lparr>ior_hdr = \<lparr>hdr_len = 0, hdr_type = PassID\<rparr>, ior_jresult = ''ab''\<rparr>" 7 9 1 RPC]
  by (simp add: header_size_def)

end
