(* ===== verification/Session.thy ===== *)
theory Session
  imports Wire
begin

text \<open>
  The per-client session state (spec section 4.3) and the two critical
  sections of the dispatch worker \<^verbatim>\<open>processRequest\<close> in
  \<^verbatim>\<open>src/retryrpc/server.go\<close> (spec section 4.6) that run under the session lock
  \<^verbatim>\<open>ci.Lock()\<close>: the deduplication check (lines 107--134) and the recording of
  a completed request (lines 147--168). The handler call between them runs
  without the lock and is modelled in theory \<open>Service\<close>.

  \<^verbatim>\<open>clientInfo\<close> and its entry types are declared in a file of the package that
  is not under \<^verbatim>\<open>src/\<close>; their fields are the ones \<^verbatim>\<open>server.go\<close> uses.
  The completed-request LRU is a Go \<^verbatim>\<open>container/list\<close>: each element has an
  identity (the \<^verbatim>\<open>*list.Element\<close> that \<^verbatim>\<open>completedEntry.lruElem\<close> points
  to). The model gives each element a handle, drawn from a counter
  \<open>ci_lru_next\<close>, so that \<^verbatim>\<open>Remove(lruElem)\<close> removes exactly that element.
\<close>

type_synonym elem_handle = nat
type_synonym conn_ptr = nat

record completed_lru_entry =
  lru_request_id :: requestID
  lru_time_completed :: time

record completed_entry =
  ce_reply :: io_reply
  ce_lru_elem :: elem_handle

record client_info =
  ci_cctx :: conn_ptr
  ci_my_unique_id :: string
  ci_completed_request :: "requestID \<rightharpoonup> completed_entry"
  ci_completed_request_lru :: "(elem_handle \<times> completed_lru_entry) list"
  ci_lru_next :: elem_handle
  ci_highest_reply_seen :: requestID
  ci_previous_highest_reply_seen :: requestID
  ci_num_rpc_attempted :: int
  ci_num_rpc_retried :: int
  ci_num_rpc_inprocess :: int
  ci_num_rpc_completed :: int
  ci_longest_rpc :: duration
  ci_largest_reply_size :: int
  ci_cnt_add_completed :: int
  ci_cnt_rm_completed :: int

text \<open>
  A fresh session, as \<^verbatim>\<open>getClientIDAndWait\<close> creates it for a first
  connection (server.go lines 220--222): empty map and list, all counters and
  watermarks zero.
\<close>

definition new_client_info :: "conn_ptr \<Rightarrow> string \<Rightarrow> client_info" where
  "new_client_info c uid =
     \<lparr>ci_cctx = c, ci_my_unique_id = uid,
      ci_completed_request = Map.empty, ci_completed_request_lru = [], ci_lru_next = 0,
      ci_highest_reply_seen = 0, ci_previous_highest_reply_seen = 0,
      ci_num_rpc_attempted = 0, ci_num_rpc_retried = 0, ci_num_rpc_inprocess = 0,
      ci_num_rpc_completed = 0, ci_longest_rpc = 0, ci_largest_reply_size = 0,
      ci_cnt_add_completed = 0, ci_cnt_rm_completed = 0\<rparr>"

text \<open>\<^verbatim>\<open>list.Remove(e)\<close>: drop the element with this identity, if it is in the list.\<close>

definition lru_remove :: "elem_handle \<Rightarrow> (elem_handle \<times> 'e) list \<Rightarrow> (elem_handle \<times> 'e) list" where
  "lru_remove h l = filter (\<lambda>p. fst p \<noteq> h) l"

definition lru_ids :: "client_info \<Rightarrow> requestID list" where
  "lru_ids ci = map (lru_request_id \<circ> snd) (ci_completed_request_lru ci)"

subsection \<open>The deduplication check\<close>

datatype begin_result = Cached io_reply | Dispatch

text \<open>
  server.go lines 107--134: raise the acknowledged watermark to the request's
  \<^verbatim>\<open>HighestReplySeen\<close> if that is higher, count the attempt, and either
  serve the cached reply (re-running \<^verbatim>\<open>setupHdrReply\<close> on the stored reply)
  or mark the request in process and dispatch it to the handler.
\<close>

definition process_request_begin :: "json_request \<Rightarrow> client_info \<Rightarrow> begin_result \<times> client_info" where
  "process_request_begin jreq ci =
     (let rid = jreq_request_id jreq;
          ci1 = ci\<lparr>ci_highest_reply_seen :=
                      (if ci_highest_reply_seen ci < jreq_highest_reply_seen jreq
                       then jreq_highest_reply_seen jreq else ci_highest_reply_seen ci),
                   ci_num_rpc_attempted := ci_num_rpc_attempted ci + 1\<rparr>
      in case ci_completed_request ci1 rid of
           Some ce \<Rightarrow>
             (let r = setup_hdr_reply (ce_reply ce) RPC
              in (Cached r,
                  ci1\<lparr>ci_completed_request := (ci_completed_request ci1)(rid \<mapsto> ce\<lparr>ce_reply := r\<rparr>),
                      ci_num_rpc_retried := ci_num_rpc_retried ci1 + 1\<rparr>))
         | None \<Rightarrow> (Dispatch, ci1\<lparr>ci_num_rpc_inprocess := ci_num_rpc_inprocess ci1 + 1\<rparr>))"

subsection \<open>Recording a completion\<close>

text \<open>
  server.go lines 147--168, after the handler returned \<open>ior\<close> in \<open>dur\<close>
  nanoseconds, at wall-clock time \<open>now\<close>: update the statistics, store the
  reply (with its header set up) under the request ID, and push a new element
  \<open>(rid, now)\<close> at the back of the LRU list.
\<close>

definition process_request_finish ::
  "requestID \<Rightarrow> duration \<Rightarrow> io_reply \<Rightarrow> time \<Rightarrow> client_info \<Rightarrow> io_reply \<times> client_info" where
  "process_request_finish rid dur ior now ci =
     (let ci1 = ci\<lparr>ci_longest_rpc := (if ci_longest_rpc ci < dur then dur else ci_longest_rpc ci),
                   ci_num_rpc_inprocess := ci_num_rpc_inprocess ci - 1,
                   ci_num_rpc_completed := ci_num_rpc_completed ci + 1\<rparr>;
          r = setup_hdr_reply ior RPC;
          h = ci_lru_next ci1;
          l = int (length (ior_jresult ior))
      in (r, ci1\<lparr>ci_completed_request :=
                    (ci_completed_request ci1)(rid \<mapsto> \<lparr>ce_reply = r, ce_lru_elem = h\<rparr>),
                 ci_cnt_add_completed := ci_cnt_add_completed ci1 + 1,
                 ci_largest_reply_size :=
                    (if ci_largest_reply_size ci1 < l then l else ci_largest_reply_size ci1),
                 ci_completed_request_lru :=
                    ci_completed_request_lru ci1 @
                      [(h, \<lparr>lru_request_id = rid, lru_time_completed = now\<rparr>)],
                 ci_lru_next := Suc h\<rparr>))"

subsection \<open>The session invariant\<close>

text \<open>
  Spec section 4.3: the completed map and the LRU list describe the same set
  of request IDs, one list element per map entry, each map entry pointing at
  its own element; element identities are distinct and allocated; the list is
  ordered by completion time; the trimmed watermark is at most the
  acknowledged one.
\<close>

definition wf_client_info :: "client_info \<Rightarrow> bool" where
  "wf_client_info ci \<longleftrightarrow>
     distinct (map fst (ci_completed_request_lru ci)) \<and>
     distinct (lru_ids ci) \<and>
     dom (ci_completed_request ci) = set (lru_ids ci) \<and>
     (\<forall>p \<in> set (ci_completed_request_lru ci).
        fst p < ci_lru_next ci \<and>
        map_option ce_lru_elem (ci_completed_request ci (lru_request_id (snd p))) = Some (fst p)) \<and>
     sorted (map (lru_time_completed \<circ> snd) (ci_completed_request_lru ci)) \<and>
     ci_previous_highest_reply_seen ci \<le> ci_highest_reply_seen ci"

text \<open>The clock has not gone backwards with respect to any recorded completion.\<close>

definition clock_after :: "time \<Rightarrow> client_info \<Rightarrow> bool" where
  "clock_after now ci \<longleftrightarrow> (\<forall>p \<in> set (ci_completed_request_lru ci). lru_time_completed (snd p) \<le> now)"

subsection \<open>Example sessions\<close>

text \<open>Concrete values at which the session lemmas are instantiated.\<close>

definition ex_reply :: io_reply where
  "ex_reply = \<lparr>ior_hdr = \<lparr>hdr_len = 0, hdr_type = RPC\<rparr>, ior_jresult = ''{}''\<rparr>"

definition ex_request :: json_request where
  "ex_request = \<lparr>jreq_method = ''RpcPing'', jreq_params = ''{}'', jreq_my_unique_id = ''client 1'',
                 jreq_request_id = 1, jreq_highest_reply_seen = 0\<rparr>"

definition ex_session :: client_info where
  "ex_session = snd (process_request_finish 1 5 ex_reply 10 (new_client_info 0 ''client 1''))"

subsection \<open>Session lemmas\<close>

declare process_request_begin_def [session_simps] process_request_finish_def [session_simps]
  new_client_info_def [session_simps]

lemma lru_ids_simps [simp]:
  "lru_ids (ci\<lparr>ci_completed_request_lru := l\<rparr>) = map (lru_request_id \<circ> snd) l"
  by (simp add: lru_ids_def)

lemma wf_new_client_info: "wf_client_info (new_client_info c uid)"
  by (simp add: wf_client_info_def new_client_info_def lru_ids_def)

lemma ex_session_wf: "wf_client_info ex_session"
  by (simp add: ex_session_def wf_client_info_def lru_ids_def process_request_finish_def new_client_info_def Let_def)

text \<open>
  Deduplication: a request whose ID is in the completed
  cache is answered with the cached reply (its header set up again) and is
  not dispatched to a handler; the watermark is raised to the request's
  acknowledgement, and the attempt and retry counters go up by one.
\<close>

lemma process_request_begin_cached:
  assumes "ci_completed_request ci (jreq_request_id jreq) = Some ce"
  shows "process_request_begin jreq ci =
           (Cached (setup_hdr_reply (ce_reply ce) RPC),
            ci\<lparr>ci_highest_reply_seen := max (ci_highest_reply_seen ci) (jreq_highest_reply_seen jreq),
               ci_num_rpc_attempted := ci_num_rpc_attempted ci + 1,
               ci_completed_request := (ci_completed_request ci)(jreq_request_id jreq \<mapsto>
                                          ce\<lparr>ce_reply := setup_hdr_reply (ce_reply ce) RPC\<rparr>),
               ci_num_rpc_retried := ci_num_rpc_retried ci + 1\<rparr>)"
  using assms by (simp add: process_request_begin_def Let_def)


text \<open>
  A request whose ID is not in the completed cache is dispatched to
  its handler and counted as in process; the cache is unchanged.
\<close>

lemma process_request_begin_dispatch:
  assumes "ci_completed_request ci (jreq_request_id jreq) = None"
  shows "process_request_begin jreq ci =
           (Dispatch,
            ci\<lparr>ci_highest_reply_seen := max (ci_highest_reply_seen ci) (jreq_highest_reply_seen jreq),
               ci_num_rpc_attempted := ci_num_rpc_attempted ci + 1,
               ci_num_rpc_inprocess := ci_num_rpc_inprocess ci + 1\<rparr>)"
  using assms by (simp add: process_request_begin_def Let_def)


lemma process_request_begin_lru [simp]:
  "ci_completed_request_lru (snd (process_request_begin jreq ci)) = ci_completed_request_lru ci"
  "ci_lru_next (snd (process_request_begin jreq ci)) = ci_lru_next ci"
  "ci_previous_highest_reply_seen (snd (process_request_begin jreq ci)) = ci_previous_highest_reply_seen ci"
  "ci_highest_reply_seen (snd (process_request_begin jreq ci)) = max (ci_highest_reply_seen ci) (jreq_highest_reply_seen jreq)"
  by (simp_all add: process_request_begin_def Let_def split: option.split)

lemma process_request_begin_completed:
  "map_option ce_lru_elem (ci_completed_request (snd (process_request_begin jreq ci)) rid) =
   map_option ce_lru_elem (ci_completed_request ci rid)"
  "dom (ci_completed_request (snd (process_request_begin jreq ci))) = dom (ci_completed_request ci)"
  by (auto simp add: process_request_begin_def Let_def split: option.split)

lemma wf_process_request_begin:
  "wf_client_info ci \<Longrightarrow> wf_client_info (snd (process_request_begin jreq ci))"
  unfolding wf_client_info_def lru_ids_def
  by (simp add: process_request_begin_completed le_max_iff_disj)

lemma process_request_finish_fields [simp]:
  "ci_completed_request (snd (process_request_finish rid dur ior now ci)) =
     (ci_completed_request ci)(rid \<mapsto> \<lparr>ce_reply = setup_hdr_reply ior RPC, ce_lru_elem = ci_lru_next ci\<rparr>)"
  "ci_completed_request_lru (snd (process_request_finish rid dur ior now ci)) =
     ci_completed_request_lru ci @ [(ci_lru_next ci, \<lparr>lru_request_id = rid, lru_time_completed = now\<rparr>)]"
  "ci_lru_next (snd (process_request_finish rid dur ior now ci)) = Suc (ci_lru_next ci)"
  "ci_highest_reply_seen (snd (process_request_finish rid dur ior now ci)) = ci_highest_reply_seen ci"
  "ci_previous_highest_reply_seen (snd (process_request_finish rid dur ior now ci)) = ci_previous_highest_reply_seen ci"
  "fst (process_request_finish rid dur ior now ci) = setup_hdr_reply ior RPC"
  by (simp_all add: process_request_finish_def Let_def)

lemma lru_ids_finish [simp]:
  "lru_ids (snd (process_request_finish rid dur ior now ci)) = lru_ids ci @ [rid]"
  by (simp add: lru_ids_def)

lemma wf_finish_fresh:
  assumes wf: "wf_client_info ci"
    and fresh: "ci_completed_request ci rid = None"
    and clk: "clock_after now ci"
  shows "wf_client_info (snd (process_request_finish rid dur ior now ci))"
proof -
  let ?l = "ci_completed_request_lru ci"
  have notin: "rid \<notin> set (lru_ids ci)"
    using wf fresh unfolding wf_client_info_def by auto
  have hs: "\<forall>p \<in> set ?l. fst p < ci_lru_next ci"
    using wf unfolding wf_client_info_def by blast
  then have hfresh: "ci_lru_next ci \<notin> fst ` set ?l"
    by auto
  have old: "\<forall>p \<in> set ?l. lru_request_id (snd p) \<noteq> rid"
    using notin by (auto simp: lru_ids_def)
  have sorted: "sorted (map (lru_time_completed \<circ> snd) ?l @ [now])"
    using wf clk unfolding wf_client_info_def clock_after_def
    by (auto simp: sorted_append)
  show ?thesis
    using wf notin hfresh old sorted
    unfolding wf_client_info_def
    by (auto simp: less_Suc_eq)
qed

text \<open>
  C6 Recording a completion keeps the session invariant, provided the
  request ID was not already completed and the clock has not gone back past
  a recorded completion.
\<close>

theorem wf_process_request_finish:
  assumes wf: "wf_client_info ci"
    and fresh: "ci_completed_request ci rid = None"
    and clk: "clock_after now ci"
  shows "wf_client_info (snd (process_request_finish rid dur ior now ci))"
  using wf fresh clk by (rule wf_finish_fresh)

theorem wf_process_request_finish_witness: "wf_client_info (snd (process_request_finish 2 3 ex_reply 20 ex_session))"
proof -
  have a: "ci_completed_request ex_session 2 = None"
    by (simp add: ex_session_def process_request_finish_def new_client_info_def Let_def)
  have b: "clock_after 20 ex_session"
    by (simp add: ex_session_def clock_after_def process_request_finish_def new_client_info_def Let_def)
  show ?thesis using wf_process_request_finish [OF ex_session_wf a b] .
qed

text \<open>
  C5 Reply idempotence: once a request has completed, a retransmission
  of it (same request ID) is answered from the cache with exactly the reply
  that was returned the first time.
\<close>

theorem process_request_finish_then_begin:
  "process_request_begin jreq (snd (process_request_finish (jreq_request_id jreq) dur ior now ci)) =
     (Cached (fst (process_request_finish (jreq_request_id jreq) dur ior now ci)),
      snd (process_request_begin jreq (snd (process_request_finish (jreq_request_id jreq) dur ior now ci))))"
  by (simp add: process_request_begin_def Let_def)

end
