(* ===== verification/Trim.thy ===== *)
theory Trim
  imports Session
begin

text \<open>
  The two trim passes of one session (spec section 4.7), from
  \<^verbatim>\<open>src/retryrpc/server.go\<close>: \<^verbatim>\<open>trimAClientBasedACK\<close> (lines 457--476)
  forgets the completed requests the client has acknowledged since the last
  pass, walking the IDs \<open>previousHighestReplySeen + 1 .. highestReplySeen\<close>
  with a \<open>uint64\<close> counter; \<^verbatim>\<open>trimTLLBased\<close> (lines 483--509) walks the LRU
  list from the front and forgets entries older than the TTL, stopping at the
  first younger one.

  The ACK loop is \<^verbatim>\<open>for h := prev + 1; h <= highest; h++\<close> over
  \<open>uint64\<close>: when \<open>highest\<close> is \<open>2^64 - 1\<close> the condition \<open>h \<le> highest\<close>
  always holds and \<open>h++\<close> wraps, so the loop never ends. It is therefore a
  \<^theory_text>\<open>partial_function (option)\<close>, whose \<open>None\<close> is "does not return".

  Both passes are refined to one abstract operation, \<open>drop_completed P\<close>:
  remove every completed request whose ID satisfies \<open>P\<close> from the map and
  from the LRU list, counting the removals.
\<close>

subsection \<open>The ACK-based pass\<close>

text \<open>One iteration of the loop body (lines 463--469).\<close>

definition ack_remove :: "requestID \<Rightarrow> client_info \<times> int \<Rightarrow> client_info \<times> int" where
  "ack_remove h acc =
     (case ci_completed_request (fst acc) h of
        Some v \<Rightarrow>
          ((fst acc)\<lparr>ci_completed_request_lru := lru_remove (ce_lru_elem v) (ci_completed_request_lru (fst acc)),
                     ci_completed_request := (ci_completed_request (fst acc))(h := None),
                     ci_cnt_rm_completed := ci_cnt_rm_completed (fst acc) + 1\<rparr>,
           snd acc + 1)
      | None \<Rightarrow> acc)"

partial_function (option) trim_ack_loop ::
  "requestID \<Rightarrow> requestID \<Rightarrow> client_info \<times> int \<Rightarrow> (client_info \<times> int) option" where
  "trim_ack_loop h hi acc =
     (if h \<le> hi then trim_ack_loop (h + 1) hi (ack_remove h acc) else Some acc)"

definition trim_a_client_based_ack :: "client_info \<Rightarrow> (client_info \<times> int) option" where
  "trim_a_client_based_ack ci =
     map_option (\<lambda>(ci', n). (ci'\<lparr>ci_previous_highest_reply_seen := ci_highest_reply_seen ci'\<rparr>, n))
       (trim_ack_loop (ci_previous_highest_reply_seen ci + 1) (ci_highest_reply_seen ci) (ci, 0))"

subsection \<open>The TTL-based pass\<close>

text \<open>
  Lines 485--499: while the front element's completion time plus the TTL is
  before \<open>t\<close>, delete its request from the map, count it, and remove the
  element from the list.
\<close>

fun trim_ttl_walk ::
  "nat \<Rightarrow> time \<Rightarrow> (elem_handle \<times> completed_lru_entry) list \<Rightarrow> client_info \<times> int \<Rightarrow> client_info \<times> int" where
  "trim_ttl_walk ttl t [] acc = acc"
| "trim_ttl_walk ttl t (e # es) (ci, n) =
     (if lru_time_completed (snd e) + ttl < t then
        trim_ttl_walk ttl t es
          (ci\<lparr>ci_completed_request := (ci_completed_request ci)(lru_request_id (snd e) := None),
              ci_cnt_rm_completed := ci_cnt_rm_completed ci + 1,
              ci_completed_request_lru := lru_remove (fst e) (ci_completed_request_lru ci)\<rparr>,
           n + 1)
      else (ci, n))"

definition trim_tll_based :: "nat \<Rightarrow> time \<Rightarrow> client_info \<Rightarrow> client_info \<times> int" where
  "trim_tll_based ttl t ci = trim_ttl_walk ttl t (ci_completed_request_lru ci) (ci, 0)"

subsection \<open>The abstract operation\<close>

definition drop_completed :: "(requestID \<Rightarrow> bool) \<Rightarrow> client_info \<Rightarrow> client_info" where
  "drop_completed P ci =
     ci\<lparr>ci_completed_request := ci_completed_request ci |` {r. \<not> P r},
        ci_completed_request_lru := filter (\<lambda>p. \<not> P (lru_request_id (snd p))) (ci_completed_request_lru ci),
        ci_cnt_rm_completed := ci_cnt_rm_completed ci + int (length (filter P (lru_ids ci)))\<rparr>"

definition expired :: "nat \<Rightarrow> time \<Rightarrow> elem_handle \<times> completed_lru_entry \<Rightarrow> bool" where
  "expired ttl t p \<longleftrightarrow> lru_time_completed (snd p) + ttl < t"

subsection \<open>Example session\<close>

text \<open>A session in which the client has acknowledged request 1.\<close>

definition ex_acked :: client_info where
  "ex_acked = snd (process_request_begin (ex_request\<lparr>jreq_request_id := 2, jreq_highest_reply_seen := 1\<rparr>) ex_session)"

subsection \<open>Trim lemmas\<close>


lemma length_filter_or:
  "length (filter (\<lambda>x. \<not> Q x \<and> P x) xs) + length (filter Q xs) = length (filter (\<lambda>x. P x \<or> Q x) xs)"
  by (induction xs) auto

lemma drop_completed_False [simp]: "drop_completed (\<lambda>_. False) ci = ci"
  by (simp add: drop_completed_def restrict_map_def)

lemma lru_ids_drop_completed [simp]:
  "lru_ids (drop_completed P ci) = filter (\<lambda>r. \<not> P r) (lru_ids ci)"
  by (simp add: drop_completed_def lru_ids_def filter_map comp_def)

lemma drop_completed_compose:
  "drop_completed P (drop_completed Q ci) = drop_completed (\<lambda>r. P r \<or> Q r) ci"
proof -
  have cnt: "int (length (filter (\<lambda>x. \<not> Q x \<and> P x) (lru_ids ci))) + int (length (filter Q (lru_ids ci)))
        = int (length (filter (\<lambda>r. P r \<or> Q r) (lru_ids ci)))"
    using length_filter_or [of Q P "lru_ids ci"] by simp
  have set: "{r. \<not> Q r} \<inter> {r. \<not> P r} = {r. \<not> P r \<and> \<not> Q r}"
    by auto
  show ?thesis
    using cnt by (simp add: drop_completed_def lru_ids_def comp_def set conj_commute add.assoc add.commute)
qed

lemma wf_drop_completed:
  assumes wf: "wf_client_info ci"
  shows "wf_client_info (drop_completed P ci)"
proof -
  let ?l = "ci_completed_request_lru ci"
  let ?ci' = "drop_completed P ci"
  have l': "ci_completed_request_lru ?ci' = filter (\<lambda>p. \<not> P (lru_request_id (snd p))) ?l"
    and m': "ci_completed_request ?ci' = ci_completed_request ci |` {r. \<not> P r}"
    and o': "ci_lru_next ?ci' = ci_lru_next ci"
            "ci_previous_highest_reply_seen ?ci' = ci_previous_highest_reply_seen ci"
            "ci_highest_reply_seen ?ci' = ci_highest_reply_seen ci"
    by (simp_all add: drop_completed_def)
  have d1: "distinct (map fst (ci_completed_request_lru ?ci'))"
    using wf unfolding wf_client_info_def l' by (simp add: distinct_map_filter)
  have d2: "distinct (lru_ids ?ci')"
    using wf unfolding wf_client_info_def by simp
  have d3: "dom (ci_completed_request ?ci') = set (lru_ids ?ci')"
    using wf unfolding wf_client_info_def m' by auto
  have d4: "\<forall>p \<in> set (ci_completed_request_lru ?ci').
              fst p < ci_lru_next ?ci' \<and>
              map_option ce_lru_elem (ci_completed_request ?ci' (lru_request_id (snd p))) = Some (fst p)"
    using wf unfolding wf_client_info_def l' m' o' by auto
  have d5: "sorted (map (lru_time_completed \<circ> snd) (ci_completed_request_lru ?ci'))"
    using wf unfolding wf_client_info_def l' by (simp add: sorted_filter)
  show ?thesis
    using d1 d2 d3 d4 d5 wf o' unfolding wf_client_info_def by simp
qed

lemma wf_lru_elem_iff:
  assumes "wf_client_info ci" and "ci_completed_request ci h = Some v"
    and "p \<in> set (ci_completed_request_lru ci)"
  shows "fst p = ce_lru_elem v \<longleftrightarrow> lru_request_id (snd p) = h"
proof
  assume "lru_request_id (snd p) = h"
  then show "fst p = ce_lru_elem v"
    using assms unfolding wf_client_info_def by force
next
  assume eq: "fst p = ce_lru_elem v"
  have "h \<in> set (lru_ids ci)"
    using assms unfolding wf_client_info_def by blast
  then obtain q where q: "q \<in> set (ci_completed_request_lru ci)" "lru_request_id (snd q) = h"
    by (auto simp: lru_ids_def)
  then have "fst q = ce_lru_elem v"
    using assms unfolding wf_client_info_def by force
  with eq q assms(1,3) have "p = q"
    unfolding wf_client_info_def by (metis inj_on_contraD distinct_map)
  with q show "lru_request_id (snd p) = h" by simp
qed

lemma ack_remove_drop:
  assumes "wf_client_info ci"
  shows "ack_remove h (ci, n) =
           (drop_completed (\<lambda>r. r = h) ci, n + int (length (filter (\<lambda>r. r = h) (lru_ids ci))))"
proof (cases "ci_completed_request ci h")
  case None
  then have "h \<notin> set (lru_ids ci)"
    using assms unfolding wf_client_info_def by auto
  then have "filter (\<lambda>r. r = h) (lru_ids ci) = []"
    by (auto simp: filter_empty_conv)
  moreover have "filter (\<lambda>p. lru_request_id (snd p) \<noteq> h) (ci_completed_request_lru ci) = ci_completed_request_lru ci"
    using \<open>h \<notin> set (lru_ids ci)\<close> by (auto simp: lru_ids_def filter_id_conv)
  moreover have "ci_completed_request ci |` {r. r \<noteq> h} = ci_completed_request ci"
    using None by (auto simp: restrict_map_def fun_eq_iff)
  ultimately show ?thesis
    using None by (simp add: ack_remove_def drop_completed_def)
next
  case (Some v)
  have "h \<in> set (lru_ids ci)"
    using assms Some unfolding wf_client_info_def by blast
  then have one: "length (filter (\<lambda>r. r = h) (lru_ids ci)) = 1"
    using assms unfolding wf_client_info_def by (simp add: distinct_length_filter_eq)
  have "lru_remove (ce_lru_elem v) (ci_completed_request_lru ci) =
        filter (\<lambda>p. \<not> lru_request_id (snd p) = h) (ci_completed_request_lru ci)"
    unfolding lru_remove_def using wf_lru_elem_iff [OF assms Some] by (auto intro: filter_cong)
  moreover have "(ci_completed_request ci)(h := None) = ci_completed_request ci |` {r. r \<noteq> h}"
    by (auto simp: restrict_map_def fun_eq_iff)
  ultimately show ?thesis
    using Some one by (simp add: ack_remove_def drop_completed_def)
qed

lemma trim_ack_loop_returns:
  assumes ret: "trim_ack_loop h hi acc = Some r"
  shows "hi \<noteq> - 1"
proof (rule trim_ack_loop.raw_induct [where P = "\<lambda>h hi acc r. hi \<noteq> - 1", OF _ ret])
  fix f h hi acc r
  assume IH: "\<And>h hi acc r. f h hi acc = Some r \<Longrightarrow> hi \<noteq> - 1"
    and eq: "(if h \<le> hi then f (h + 1) hi (ack_remove h acc) else Some acc) = Some r"
  show "hi \<noteq> - 1"
  proof
    assume "hi = - 1"
    with eq have "f (h + 1) hi (ack_remove h acc) = Some r" by simp
    then have "hi \<noteq> - 1" by (rule IH)
    with \<open>hi = - 1\<close> show False by simp
  qed
qed

lemma trim_ack_loop_drop:
  assumes "hi \<noteq> - 1" and "wf_client_info ci"
  shows "trim_ack_loop h hi (ci, n) =
           Some (drop_completed (\<lambda>r. h \<le> r \<and> r \<le> hi) ci,
                 n + int (length (filter (\<lambda>r. h \<le> r \<and> r \<le> hi) (lru_ids ci))))"
  using assms(2)
proof (induction "Suc (unat hi) - unat h" arbitrary: h ci n)
  case 0
  then have "hi < h" by (simp add: word_less_nat_alt)
  then have nle: "\<not> h \<le> hi" by simp
  then have "(\<lambda>r. h \<le> r \<and> r \<le> hi) = (\<lambda>_. False)" by auto
  with nle show ?case by (simp add: trim_ack_loop.simps [of h hi])
next
  case (Suc k)
  then have le: "h \<le> hi" by (simp add: word_le_nat_alt)
  with assms(1) have hmax: "h \<noteq> - 1" by auto
  have k: "k = Suc (unat hi) - unat (h + 1)"
    using Suc.hyps(2) unat_plus_one_no_wrap [OF hmax] by simp
  let ?ci1 = "drop_completed (\<lambda>r. r = h) ci"
  let ?n1 = "n + int (length (filter (\<lambda>r. r = h) (lru_ids ci)))"
  have wf1: "wf_client_info ?ci1" using Suc.prems by (rule wf_drop_completed)
  have IH: "trim_ack_loop (h + 1) hi (?ci1, ?n1) =
             Some (drop_completed (\<lambda>r. h + 1 \<le> r \<and> r \<le> hi) ?ci1,
                   ?n1 + int (length (filter (\<lambda>r. h + 1 \<le> r \<and> r \<le> hi) (lru_ids ?ci1))))"
    using Suc.hyps(1) [OF k wf1] .
  have P: "(\<lambda>r. (h + 1 \<le> r \<and> r \<le> hi) \<or> r = h) = (\<lambda>r. h \<le> r \<and> r \<le> hi)"
  proof
    fix r
    have "h + 1 \<le> r \<longleftrightarrow> h < r" by (rule word_plus_one_le_iff [OF hmax])
    then show "((h + 1 \<le> r \<and> r \<le> hi) \<or> r = h) = (h \<le> r \<and> r \<le> hi)"
      using le by (metis order.order_iff_strict)
  qed
  have cnt: "int (length (filter (\<lambda>r. h + 1 \<le> r \<and> r \<le> hi) (filter (\<lambda>r. r \<noteq> h) (lru_ids ci))))
             + int (length (filter (\<lambda>r. r = h) (lru_ids ci)))
           = int (length (filter (\<lambda>r. h \<le> r \<and> r \<le> hi) (lru_ids ci)))"
    using length_filter_or [of "\<lambda>r. r = h" "\<lambda>r. h + 1 \<le> r \<and> r \<le> hi" "lru_ids ci"]
    unfolding P by (simp add: filter_filter)
  show ?case
    using le IH cnt P ack_remove_drop [OF Suc.prems]
    by (simp add: trim_ack_loop.simps [of h hi] drop_completed_compose)
qed

lemma sorted_takeWhile_less:
  "sorted (map f xs) \<Longrightarrow> takeWhile (\<lambda>x. f x < (c::'a::linorder)) xs = filter (\<lambda>x. f x < c) xs"
proof (induction xs)
  case Nil
  then show ?case by simp
next
  case (Cons x xs)
  show ?case
  proof (cases "f x < c")
    case True
    with Cons show ?thesis by simp
  next
    case False
    with Cons.prems have "\<forall>y \<in> set xs. \<not> f y < c" by auto
    with False show ?thesis by (simp add: filter_empty_conv)
  qed
qed

lemma ttl_step_drop:
  assumes wf: "wf_client_info ci" and l: "ci_completed_request_lru ci = e # es"
  shows "ci\<lparr>ci_completed_request := (ci_completed_request ci)(lru_request_id (snd e) := None),
            ci_cnt_rm_completed := ci_cnt_rm_completed ci + 1,
            ci_completed_request_lru := lru_remove (fst e) (ci_completed_request_lru ci)\<rparr>
         = drop_completed (\<lambda>r. r = lru_request_id (snd e)) ci"
proof -
  let ?h = "lru_request_id (snd e)"
  obtain v where v: "ci_completed_request ci ?h = Some v" "ce_lru_elem v = fst e"
    using wf l unfolding wf_client_info_def by force
  have "?h \<in> set (lru_ids ci)"
    using l by (simp add: lru_ids_def)
  then have one: "length (filter (\<lambda>r. r = ?h) (lru_ids ci)) = 1"
    using wf unfolding wf_client_info_def by (simp add: distinct_length_filter_eq)
  have "lru_remove (fst e) (ci_completed_request_lru ci) =
        filter (\<lambda>p. \<not> lru_request_id (snd p) = ?h) (ci_completed_request_lru ci)"
    unfolding lru_remove_def using wf_lru_elem_iff [OF wf v(1)] v(2) by (auto intro: filter_cong)
  moreover have "(ci_completed_request ci)(?h := None) = ci_completed_request ci |` {r. r \<noteq> ?h}"
    by (auto simp: restrict_map_def fun_eq_iff)
  ultimately show ?thesis
    using one by (simp add: drop_completed_def)
qed

lemma trim_ttl_walk_drop:
  assumes "wf_client_info ci" and "ci_completed_request_lru ci = l"
  shows "trim_ttl_walk ttl t l (ci, n) =
           (drop_completed (\<lambda>r. r \<in> set (map (lru_request_id \<circ> snd) (takeWhile (expired ttl t) l))) ci,
            n + int (length (takeWhile (expired ttl t) l)))"
  using assms
proof (induction l arbitrary: ci n)
  case Nil
  then show ?case by simp
next
  case (Cons e es)
  show ?case
  proof (cases "expired ttl t e")
    case False
    then show ?thesis by (simp add: expired_def)
  next
    case True
    let ?ci1 = "drop_completed (\<lambda>r. r = lru_request_id (snd e)) ci"
    have wf1: "wf_client_info ?ci1" using Cons.prems(1) by (rule wf_drop_completed)
    have d: "distinct (map fst (e # es))" "distinct (map (lru_request_id \<circ> snd) (e # es))"
      using Cons.prems unfolding wf_client_info_def lru_ids_def by simp_all
    have "ci_completed_request_lru ?ci1 = filter (\<lambda>p. lru_request_id (snd p) \<noteq> lru_request_id (snd e)) (e # es)"
      using Cons.prems(2) by (simp add: drop_completed_def)
    also have "\<dots> = es"
    proof -
    have ni: "lru_request_id (snd e) \<notin> (\<lambda>x. lru_request_id (snd x)) ` set es"
      using d(2) by simp
    have "\<forall>p \<in> set es. lru_request_id (snd p) \<noteq> lru_request_id (snd e)"
    proof
      fix p assume "p \<in> set es"
      with ni show "lru_request_id (snd p) \<noteq> lru_request_id (snd e)"
        by (metis (mono_tags, lifting) image_eqI)
    qed
    then show ?thesis by (simp add: filter_id_conv)
  qed
    finally have l1: "ci_completed_request_lru ?ci1 = es" .
    have IH: "trim_ttl_walk ttl t es (?ci1, n + 1) =
                (drop_completed (\<lambda>r. r \<in> set (map (lru_request_id \<circ> snd) (takeWhile (expired ttl t) es))) ?ci1,
                 n + 1 + int (length (takeWhile (expired ttl t) es)))"
      using Cons.IH [OF wf1 l1] .
    have P: "(\<lambda>r. r \<in> set (map (lru_request_id \<circ> snd) (takeWhile (expired ttl t) es)) \<or> r = lru_request_id (snd e))
             = (\<lambda>r. r \<in> set (map (lru_request_id \<circ> snd) (takeWhile (expired ttl t) (e # es))))"
      using True by auto
    have ex: "lru_time_completed (snd e) + ttl < t"
      using True by (simp add: expired_def)
    show ?thesis
      using True ex IH ttl_step_drop [OF Cons.prems] Cons.prems(2)
      by (simp add: drop_completed_compose P disj_commute)
  qed
qed

lemma trim_ack_loop_terminates:
  "hi \<noteq> - 1 \<Longrightarrow> \<exists>r. trim_ack_loop h hi acc = Some r"
proof (induction "Suc (unat hi) - unat h" arbitrary: h acc)
  case 0
  then have "\<not> h \<le> hi" by (simp add: word_le_nat_alt)
  then show ?case by (simp add: trim_ack_loop.simps [of h hi])
next
  case (Suc k)
  then have le: "h \<le> hi" by (simp add: word_le_nat_alt)
  with Suc.prems have hm: "h \<noteq> - 1" by auto
  have "k = Suc (unat hi) - unat (h + 1)"
    using Suc.hyps(2) unat_plus_one_no_wrap [OF hm] by simp
  then obtain r where "trim_ack_loop (h + 1) hi (ack_remove h acc) = Some r"
    using Suc.hyps(1) Suc.prems by blast
  with le show ?case by (simp add: trim_ack_loop.simps [of h hi])
qed

lemma trim_a_client_based_ack_eq:
  assumes wf: "wf_client_info ci" and hi: "ci_highest_reply_seen ci \<noteq> - 1"
  shows "trim_a_client_based_ack ci =
           Some ((drop_completed (\<lambda>r. ci_previous_highest_reply_seen ci < r \<and> r \<le> ci_highest_reply_seen ci) ci)
                   \<lparr>ci_previous_highest_reply_seen := ci_highest_reply_seen ci\<rparr>,
                 int (length (filter (\<lambda>r. ci_previous_highest_reply_seen ci < r \<and> r \<le> ci_highest_reply_seen ci)
                                     (lru_ids ci))))"
proof -
  let ?p = "ci_previous_highest_reply_seen ci"
  have "?p \<le> ci_highest_reply_seen ci"
    using wf unfolding wf_client_info_def by blast
  with hi have pm: "?p \<noteq> - 1" by auto
  have P: "(\<lambda>r. ?p + 1 \<le> r \<and> r \<le> ci_highest_reply_seen ci) =
           (\<lambda>r. ?p < r \<and> r \<le> ci_highest_reply_seen ci)"
    using word_plus_one_le_iff [OF pm] by simp
  show ?thesis
    using trim_ack_loop_drop [OF hi wf, of "?p + 1" 0] P
    by (simp add: trim_a_client_based_ack_def drop_completed_def)
qed

lemma trim_tll_based_eq:
  assumes wf: "wf_client_info ci"
  shows "trim_tll_based ttl t ci =
           (drop_completed (\<lambda>r. r \<in> set (map (lru_request_id \<circ> snd)
                                         (filter (expired ttl t) (ci_completed_request_lru ci)))) ci,
            int (length (filter (expired ttl t) (ci_completed_request_lru ci))))"
proof -
  have s: "sorted (map (\<lambda>p. lru_time_completed (snd p) + ttl) (ci_completed_request_lru ci))"
    using wf unfolding wf_client_info_def by (simp add: sorted_iff_nth_mono)
  have tw: "takeWhile (expired ttl t) (ci_completed_request_lru ci) = filter (expired ttl t) (ci_completed_request_lru ci)"
    using sorted_takeWhile_less [OF s, of t] by (simp add: expired_def [abs_def])
  show ?thesis
    using trim_ttl_walk_drop [OF wf refl, of ttl t 0] tw by (simp add: trim_tll_based_def)
qed

text \<open>
  C9 Termination of the ACK pass: \<^verbatim>\<open>trimAClientBasedACK\<close> returns exactly when the
  acknowledged watermark is not \<open>2^64 - 1\<close>. At that value the \<open>uint64\<close> loop
  counter wraps and the loop never ends (while the server lock is held).
\<close>

theorem trim_a_client_based_ack_None_iff:
  "trim_a_client_based_ack ci = None \<longleftrightarrow> ci_highest_reply_seen ci = - 1"
proof
  assume "trim_a_client_based_ack ci = None"
  then have "trim_ack_loop (ci_previous_highest_reply_seen ci + 1) (ci_highest_reply_seen ci) (ci, 0) = None"
    by (simp add: trim_a_client_based_ack_def)
  show "ci_highest_reply_seen ci = - 1"
  proof (rule ccontr)
    assume "ci_highest_reply_seen ci \<noteq> - 1"
    then obtain r where "trim_ack_loop (ci_previous_highest_reply_seen ci + 1) (ci_highest_reply_seen ci) (ci, 0) = Some r"
      using trim_ack_loop_terminates by blast
    with \<open>trim_ack_loop (ci_previous_highest_reply_seen ci + 1) (ci_highest_reply_seen ci) (ci, 0) = None\<close>
    show False by simp
  qed
next
  assume "ci_highest_reply_seen ci = - 1"
  then have "trim_ack_loop (ci_previous_highest_reply_seen ci + 1) (ci_highest_reply_seen ci) (ci, 0) = None"
    using trim_ack_loop_returns by (metis not_Some_eq)
  then show "trim_a_client_based_ack ci = None"
    by (simp add: trim_a_client_based_ack_def)
qed

text \<open>
  C7 Refinement of the ACK pass: on a well-formed session whose watermark is not
  \<open>2^64 - 1\<close>, the loop removes exactly the completed requests with IDs in
  \<open>(previousHighestReplySeen, highestReplySeen]\<close>, from the map and from the LRU
  list, counts them, and records the new trimmed watermark.
\<close>

theorem trim_a_client_based_ack_drop:
  assumes wf: "wf_client_info ci" and hi: "ci_highest_reply_seen ci \<noteq> - 1"
  shows "trim_a_client_based_ack ci =
           Some ((drop_completed (\<lambda>r. ci_previous_highest_reply_seen ci < r \<and> r \<le> ci_highest_reply_seen ci) ci)
                   \<lparr>ci_previous_highest_reply_seen := ci_highest_reply_seen ci\<rparr>,
                 int (length (filter (\<lambda>r. ci_previous_highest_reply_seen ci < r \<and> r \<le> ci_highest_reply_seen ci)
                                     (lru_ids ci))))"
  using trim_a_client_based_ack_eq [OF wf hi] .


theorem trim_a_client_based_ack_drop_witness: "ci_highest_reply_seen ex_session \<noteq> - 1 \<and>
   trim_a_client_based_ack ex_session \<noteq> None"
proof -
  have h: "ci_highest_reply_seen ex_session \<noteq> - 1"
    by (simp add: ex_session_def process_request_finish_def new_client_info_def Let_def)
  show ?thesis using trim_a_client_based_ack_drop [OF ex_session_wf h] h by simp
qed

lemma wf_prev_update:
  "wf_client_info ci \<Longrightarrow> wf_client_info (ci\<lparr>ci_previous_highest_reply_seen := ci_highest_reply_seen ci\<rparr>)"
  unfolding wf_client_info_def lru_ids_def by simp




text \<open>
  C8 Refinement of the TTL pass: on a well-formed session, walking the LRU list from
  the front while entries are expired removes exactly the expired entries, since
  the list is ordered by completion time.
\<close>

theorem trim_tll_based_drop:
  assumes wf: "wf_client_info ci"
  shows "trim_tll_based ttl t ci =
           (drop_completed (\<lambda>r. r \<in> set (map (lru_request_id \<circ> snd)
                                         (filter (expired ttl t) (ci_completed_request_lru ci)))) ci,
            int (length (filter (expired ttl t) (ci_completed_request_lru ci))))"
  using trim_tll_based_eq [OF wf] .


theorem trim_tll_based_drop_witness: "trim_tll_based 100 200 ex_session =
    (drop_completed (\<lambda>r. r \<in> set (map (lru_request_id \<circ> snd)
        (filter (expired 100 200) (ci_completed_request_lru ex_session)))) ex_session,
     int (length (filter (expired 100 200) (ci_completed_request_lru ex_session))))"
  using trim_tll_based_drop [OF ex_session_wf] .

text \<open>
  C11 TTL-trim bound: after a pass at time \<open>t\<close>, the session is well formed and no
  remaining entry has \<open>completed_at + TTL < t\<close>.
\<close>

theorem trim_tll_based_bound:
  assumes wf: "wf_client_info ci"
  shows "wf_client_info (fst (trim_tll_based ttl t ci)) \<and>
         (\<forall>p \<in> set (ci_completed_request_lru (fst (trim_tll_based ttl t ci))). t \<le> lru_time_completed (snd p) + ttl)"
proof -
  let ?P = "\<lambda>r. r \<in> set (map (lru_request_id \<circ> snd) (filter (expired ttl t) (ci_completed_request_lru ci)))"
  have eq: "fst (trim_tll_based ttl t ci) = drop_completed ?P ci"
    using trim_tll_based_eq [OF wf] by simp
  have "\<forall>p \<in> set (ci_completed_request_lru (drop_completed ?P ci)). \<not> expired ttl t p"
  proof
    fix p assume "p \<in> set (ci_completed_request_lru (drop_completed ?P ci))"
    then have "p \<in> set (ci_completed_request_lru ci)" and np: "\<not> ?P (lru_request_id (snd p))"
      by (simp_all add: drop_completed_def)
    show "\<not> expired ttl t p"
    proof
      assume "expired ttl t p"
      with \<open>p \<in> set (ci_completed_request_lru ci)\<close>
      have "p \<in> set (filter (expired ttl t) (ci_completed_request_lru ci))" by simp
      then have "?P (lru_request_id (snd p))" by (metis comp_apply image_eqI set_map)
      with np show False by simp
    qed
  qed
  then show ?thesis
    using eq wf_drop_completed [OF wf] by (simp add: expired_def not_less)
qed


theorem trim_tll_based_bound_witness:
  "wf_client_info (fst (trim_tll_based 5 12 ex_session)) \<and>
   list_all (\<lambda>p. 12 \<le> lru_time_completed (snd p) + 5) (ci_completed_request_lru (fst (trim_tll_based 5 12 ex_session)))"
  using trim_tll_based_bound [OF ex_session_wf, of 5 12] by (simp add: list_all_iff)

lemma trim_a_client_based_ack_zero:
  assumes "ci_highest_reply_seen ci = 0" "ci_previous_highest_reply_seen ci = 0"
  shows "trim_a_client_based_ack ci = Some (ci, 0)"
  using assms by (simp add: trim_a_client_based_ack_def trim_ack_loop.simps [of 1 0])

end
