(* ===== verification/Service.thy ===== *)
theory Service
  imports Trim
begin

text \<open>
  The server side of RetryRPC above one session, from
  \<^verbatim>\<open>src/retryrpc/server.go\<close>: the handler call \<^verbatim>\<open>callRPCAndFormatReply\<close>
  (lines 305--365), the whole dispatch worker \<^verbatim>\<open>processRequest\<close> (lines
  93--175), the handshake \<^verbatim>\<open>getClientIDAndWait\<close> (lines 197--255), the
  per-connection loop \<^verbatim>\<open>serviceClient\<close> (lines 258--302) and the trim driver
  \<^verbatim>\<open>trimCompleted\<close> (lines 408--451).

  Sessions are Go pointers (\<^verbatim>\<open>*clientInfo\<close>) that workers keep after the
  session map has dropped them, so the server state holds an explicit heap
  \<open>srv_ci_heap\<close> from pointers to sessions and a map \<open>srv_per_client_info\<close>
  from client identifiers to pointers; connection contexts
  (\<^verbatim>\<open>*connCtx\<close>) likewise live in \<open>srv_conns\<close>. The server mutex is the
  flag \<open>srv_locked\<close>: an operation that finds it set blocks. A wait group is
  a \<open>nat\<close> counter whose \<^verbatim>\<open>Done\<close> below zero panics, as
  \<^verbatim>\<open>sync.WaitGroup\<close> does. The ghost list \<open>srv_handler_log\<close> records every
  handler invocation (session pointer, request ID), so that at-most-once
  execution can be stated.

  JSON decoding belongs to \<^verbatim>\<open>encoding/json\<close> and is a parameter of the
  model (\<open>env_unmarshal_req\<close>, \<open>env_unmarshal_id\<close>); so is the registered
  method table \<^verbatim>\<open>svrMap\<close>, whose entries take the JSON text of the
  parameter and return the handler's outcome, or \<open>None\<close> when the parameter
  does not decode (a \<^verbatim>\<open>logger.PanicfWithError\<close> in the code).
\<close>

type_synonym ci_ptr = nat

text \<open>Errors of a goroutine: a Go panic (including a negative wait group), a nil
  pointer dereference, and \<open>Hang\<close>: the goroutine never returns (it blocks
  on a lock nobody will release, or loops forever).\<close>

datatype srv_error = Panic | NilDeref | Hang

datatype call_result = CallOk string | CallErr string

type_synonym method_entry = "string \<Rightarrow> call_result option"

record env =
  env_unmarshal_req :: "bytes \<Rightarrow> json_request option"
  env_unmarshal_id :: "bytes \<Rightarrow> string option"
  env_svr_map :: "string \<rightharpoonup> method_entry"

text \<open>\<^verbatim>\<open>connCtx\<close>: the written stream, the in-flight worker wait group, the
  exit flag of its service loop, and the back pointer to its session.\<close>

record conn_ctx =
  cc_out :: bytes
  cc_active_rpcs :: nat
  cc_service_client_exited :: bool
  cc_ci :: "ci_ptr option"

record server =
  srv_per_client_info :: "string \<rightharpoonup> ci_ptr"
  srv_ci_heap :: "ci_ptr \<rightharpoonup> client_info"
  srv_next_ci :: ci_ptr
  srv_conns :: "conn_ptr \<rightharpoonup> conn_ctx"
  srv_connections :: "conn_ptr list"
  srv_conn_wg :: nat
  srv_halting :: bool
  srv_locked :: bool
  srv_goroutine_wg :: nat
  srv_workers :: "(ci_ptr \<times> conn_ptr \<times> bytes) list"
  srv_handler_log :: "(ci_ptr \<times> requestID) list"

subsection \<open>Wait groups\<close>

definition wg_done :: "nat \<Rightarrow> srv_error + nat" where
  "wg_done n = (if n = 0 then Inl Panic else Inr (n - 1))"

subsection \<open>Calling the handler\<close>

text \<open>
  \<^verbatim>\<open>callRPCAndFormatReply\<close>: the reply carries the client's identifier and
  the request ID; a registered method fills \<^verbatim>\<open>Result\<close> or
  \<^verbatim>\<open>ErrStr\<close>; an unknown method gets \<^verbatim>\<open>"errno: 2"\<close>
  (\<^verbatim>\<open>unix.ENOENT\<close> on Linux). The result is the marshalled reply, the
  \<^verbatim>\<open>JResult\<close> of the fresh \<^verbatim>\<open>ioReply\<close>.
\<close>

definition call_rpc_and_format_reply :: "env \<Rightarrow> json_request \<Rightarrow> srv_error + bytes" where
  "call_rpc_and_format_reply e jreq =
     (let jrep = \<lparr>jrep_my_unique_id = jreq_my_unique_id jreq, jrep_request_id = jreq_request_id jreq,
                  jrep_result = None, jrep_err_str = []\<rparr>
      in case env_svr_map e (jreq_method jreq) of
           None \<Rightarrow> Inr (marshal_reply (jrep\<lparr>jrep_err_str := ''errno: 2''\<rparr>))
         | Some f \<Rightarrow>
             (case f (jreq_params jreq) of
                None \<Rightarrow> Inl Panic
              | Some (CallOk r) \<Rightarrow> Inr (marshal_reply (jrep\<lparr>jrep_result := Some r\<rparr>))
              | Some (CallErr msg) \<Rightarrow> Inr (marshal_reply (jrep\<lparr>jrep_err_str := msg\<rparr>))))"

text \<open>The \<^verbatim>\<open>ioReply\<close> built around a marshalled reply; its header is the
  zero value until \<^verbatim>\<open>setupHdrReply\<close> (line 159) overwrites it, which
  \<open>process_request_finish\<close> does, so any header serves.\<close>

definition reply_of :: "bytes \<Rightarrow> io_reply" where
  "reply_of b = \<lparr>ior_hdr = \<lparr>hdr_len = 0, hdr_type = RPC\<rparr>, ior_jresult = b\<rparr>"

subsection \<open>The dispatch worker\<close>

text \<open>Writing a reply on connection \<open>c\<close> (\<^verbatim>\<open>returnResults\<close>).\<close>

definition write_reply :: "nat \<Rightarrow> nat \<Rightarrow> io_reply \<Rightarrow> conn_ptr \<Rightarrow> server \<Rightarrow> srv_error + server" where
  "write_reply nh np r c s =
     (case srv_conns s c of
        None \<Rightarrow> Inl NilDeref
      | Some cc \<Rightarrow> Inr (s\<lparr>srv_conns := (srv_conns s)(c \<mapsto> cc\<lparr>cc_out := return_results nh np r (cc_out cc)\<rparr>)\<rparr>))"

text \<open>\<^verbatim>\<open>myConnCtx.activeRPCsWG.Done()\<close> (line 174).\<close>

definition conn_rpc_done :: "conn_ptr \<Rightarrow> server \<Rightarrow> srv_error + server" where
  "conn_rpc_done c s =
     (case srv_conns s c of
        None \<Rightarrow> Inl NilDeref
      | Some cc \<Rightarrow>
          (case wg_done (cc_active_rpcs cc) of
             Inl err \<Rightarrow> Inl err
           | Inr n \<Rightarrow> Inr (s\<lparr>srv_conns := (srv_conns s)(c \<mapsto> cc\<lparr>cc_active_rpcs := n\<rparr>)\<rparr>)))"

text \<open>
  \<^verbatim>\<open>processRequest(ci, myConnCtx, buf)\<close> run to completion with no other
  goroutine in between. \<open>dur\<close> and \<open>now\<close> are the handler's duration and
  the clock at completion, \<open>nh\<close> and \<open>np\<close> the outcome of the two writes.
  The deferred \<^verbatim>\<open>server.goroutineWG.Done()\<close> runs on every return,
  including the early return when the payload does not decode (line 104),
  which skips \<^verbatim>\<open>activeRPCsWG.Done()\<close>.
\<close>

definition process_request ::
  "env \<Rightarrow> duration \<Rightarrow> time \<Rightarrow> nat \<Rightarrow> nat \<Rightarrow> ci_ptr \<Rightarrow> conn_ptr \<Rightarrow> bytes \<Rightarrow> server \<Rightarrow> srv_error + server" where
  "process_request e dur now nh np p c buf s =
     (case env_unmarshal_req e buf of
        None \<Rightarrow> map_sum id (\<lambda>n. s\<lparr>srv_goroutine_wg := n\<rparr>) (wg_done (srv_goroutine_wg s))
      | Some jreq \<Rightarrow>
          (case srv_ci_heap s p of
             None \<Rightarrow> Inl NilDeref
           | Some ci \<Rightarrow>
               (let (br, ci1) = process_request_begin jreq ci;
                    rid = jreq_request_id jreq
                in sbind
                     (sbind
                       (sbind
                         (case br of
                            Cached r \<Rightarrow> Inr (r, s\<lparr>srv_ci_heap := (srv_ci_heap s)(p \<mapsto> ci1)\<rparr>)
                          | Dispatch \<Rightarrow>
                              sbind (call_rpc_and_format_reply e jreq)
                                (\<lambda>b. let (r, ci2) = process_request_finish rid dur (reply_of b) now ci1
                                     in Inr (r, s\<lparr>srv_ci_heap := (srv_ci_heap s)(p \<mapsto> ci2),
                                                  srv_handler_log := srv_handler_log s @ [(p, rid)]\<rparr>)))
                         (\<lambda>(r, s1). write_reply nh np r c s1))
                       (conn_rpc_done c))
                     (\<lambda>s3. map_sum id (\<lambda>n. s3\<lparr>srv_goroutine_wg := n\<rparr>) (wg_done (srv_goroutine_wg s3))))))"

subsection \<open>The per-connection service loop\<close>

text \<open>
  What one \<^verbatim>\<open>getIO\<close> call returns to \<^verbatim>\<open>serviceClient\<close>: a deadline
  timeout, another read error (end of stream, reset, malformed frame), or a
  frame.
\<close>

datatype read_event = RTimeout | RError | RFrame msg_type bytes

datatype loop_step = Continue server | Exit server | Stuck srv_error

definition set_service_client_exited :: "conn_ptr \<Rightarrow> server \<Rightarrow> srv_error + server" where
  "set_service_client_exited c s =
     (case srv_conns s c of
        None \<Rightarrow> Inl NilDeref
      | Some cc \<Rightarrow> Inr (s\<lparr>srv_conns := (srv_conns s)(c \<mapsto> cc\<lparr>cc_service_client_exited := True\<rparr>)\<rparr>))"

text \<open>
  One iteration of the loop (lines 259--301). A non-timeout error marks the
  connection's loop as exited and returns. Otherwise the server lock is
  taken: a halting server, or a timeout, releases it and returns or
  continues. A frame that is not an RPC is dropped with \<^verbatim>\<open>continue\<close> at
  line 286, which leaves the server lock held. An RPC frame counts one more
  in-flight worker, releases the lock and spawns \<^verbatim>\<open>processRequest\<close>.
\<close>

definition service_client_iter :: "ci_ptr \<Rightarrow> conn_ptr \<Rightarrow> read_event \<Rightarrow> server \<Rightarrow> loop_step" where
  "service_client_iter p c ev s =
     (if ev = RError then
        (case set_service_client_exited c s of Inl err \<Rightarrow> Stuck err | Inr s' \<Rightarrow> Exit s')
      else if srv_locked s then Stuck Hang
      else if srv_halting s then Exit s
      else (case ev of
              RFrame t buf \<Rightarrow>
                (if t \<noteq> RPC then Continue (s\<lparr>srv_locked := True\<rparr>)
                 else (case srv_conns s c of
                         None \<Rightarrow> Stuck NilDeref
                       | Some cc \<Rightarrow>
                           Continue (s\<lparr>srv_conns := (srv_conns s)(c \<mapsto> cc\<lparr>cc_active_rpcs := Suc (cc_active_rpcs cc)\<rparr>),
                                      srv_goroutine_wg := Suc (srv_goroutine_wg s),
                                      srv_workers := srv_workers s @ [(p, c, buf)]\<rparr>)))
            | _ \<Rightarrow> Continue s))"

text \<open>
  The loop over the events the connection delivers. \<open>Reading s\<close>: the
  events are used up and the loop is waiting in the next read.
\<close>

datatype loop_outcome = Exited server | Reading server | Failed srv_error

fun service_client :: "ci_ptr \<Rightarrow> conn_ptr \<Rightarrow> read_event list \<Rightarrow> server \<Rightarrow> loop_outcome" where
  "service_client p c [] s = Reading s"
| "service_client p c (ev # evs) s =
     (case service_client_iter p c ev s of
        Continue s' \<Rightarrow> service_client p c evs s'
      | Exit s' \<Rightarrow> Exited s'
      | Stuck err \<Rightarrow> Failed err)"

subsection \<open>The handshake\<close>

text \<open>
  \<^verbatim>\<open>getClientIDAndWait\<close>, lines 198--231: the first frame must be a
  \<^verbatim>\<open>PassID\<close> whose payload decodes to the client's identifier. Under the
  server lock, an unknown identifier gets a fresh session bound to the new
  connection (\<open>HsReady\<close>); a known one releases the lock and must wait for
  the previous connection to drain (\<open>HsWait\<close>), which \<open>rebind\<close> then
  completes. A timeout is an error here, as any \<^verbatim>\<open>getErr\<close> is.
\<close>

datatype hs_result = HsErr | HsReady ci_ptr server | HsWait ci_ptr | HsStuck srv_error

definition set_conn_ci :: "conn_ptr \<Rightarrow> ci_ptr \<Rightarrow> server \<Rightarrow> srv_error + server" where
  "set_conn_ci c p s =
     (case srv_conns s c of
        None \<Rightarrow> Inl NilDeref
      | Some cc \<Rightarrow> Inr (s\<lparr>srv_conns := (srv_conns s)(c \<mapsto> cc\<lparr>cc_ci := Some p\<rparr>)\<rparr>))"

definition get_client_id :: "env \<Rightarrow> conn_ptr \<Rightarrow> read_event \<Rightarrow> server \<Rightarrow> hs_result" where
  "get_client_id e c ev s =
     (case ev of
        RFrame t buf \<Rightarrow>
          (if t \<noteq> PassID then HsErr
           else (case env_unmarshal_id e buf of
                   None \<Rightarrow> HsErr
                 | Some uid \<Rightarrow>
                     (if srv_locked s then HsStuck Hang
                      else (case srv_per_client_info s uid of
                              None \<Rightarrow>
                                (let p = srv_next_ci s;
                                     s1 = s\<lparr>srv_per_client_info := (srv_per_client_info s)(uid \<mapsto> p),
                                            srv_ci_heap := (srv_ci_heap s)(p \<mapsto> new_client_info c uid),
                                            srv_next_ci := Suc p\<rparr>
                                 in (case set_conn_ci c p s1 of
                                       Inl err \<Rightarrow> HsStuck err
                                     | Inr s2 \<Rightarrow> HsReady p s2))
                            | Some p \<Rightarrow> HsWait p))))
      | _ \<Rightarrow> HsErr)"

text \<open>
  Lines 235--251: the wait for the previous connection's service loop to
  exit and for its in-flight workers to finish is a guard; \<open>None\<close> is "still
  waiting". Then the new connection points at the session and the session at
  the new connection.
\<close>

definition rebind :: "ci_ptr \<Rightarrow> conn_ptr \<Rightarrow> server \<Rightarrow> (srv_error + server) option" where
  "rebind p c s =
     (case srv_ci_heap s p of
        None \<Rightarrow> Some (Inl NilDeref)
      | Some ci \<Rightarrow>
          (case srv_conns s (ci_cctx ci) of
             None \<Rightarrow> Some (Inl NilDeref)
           | Some old \<Rightarrow>
               (if cc_service_client_exited old \<and> cc_active_rpcs old = 0 then
                  Some (sbind (set_conn_ci c p s)
                          (\<lambda>s1. Inr (s1\<lparr>srv_ci_heap := (srv_ci_heap s1)(p \<mapsto> ci\<lparr>ci_cctx := c\<rparr>)\<rparr>)))
                else None)))"

subsection \<open>Accepting and closing connections\<close>

text \<open>
  \<^verbatim>\<open>run\<close>, lines 48--62: count the connection, push it on the live list and
  give it a fresh context. \<^verbatim>\<open>closeClient\<close>, lines 24--34: take it off the
  list and mark the connection done.
\<close>

definition fresh_conn_ctx :: conn_ctx where
  "fresh_conn_ctx = \<lparr>cc_out = [], cc_active_rpcs = 0, cc_service_client_exited = False, cc_ci = None\<rparr>"

definition accept_conn :: "conn_ptr \<Rightarrow> server \<Rightarrow> server" where
  "accept_conn c s =
     s\<lparr>srv_conn_wg := Suc (srv_conn_wg s),
       srv_connections := srv_connections s @ [c],
       srv_conns := (srv_conns s)(c \<mapsto> fresh_conn_ctx)\<rparr>"

definition close_client :: "conn_ptr \<Rightarrow> server \<Rightarrow> srv_error + server" where
  "close_client c s =
     map_sum id (\<lambda>n. s\<lparr>srv_connections := removeAll c (srv_connections s), srv_conn_wg := n\<rparr>)
       (wg_done (srv_conn_wg s))"

subsection \<open>The trim driver\<close>

text \<open>
  \<^verbatim>\<open>clientInfo.isEmpty\<close> is declared outside \<^verbatim>\<open>src/\<close>; following the
  spec (section 3, lifecycles) a session is empty when it holds no completed
  entries and no request is in process.
\<close>

definition ci_is_empty :: "client_info \<Rightarrow> bool" where
  "ci_is_empty ci \<longleftrightarrow>
     ci_completed_request ci = Map.empty \<and> ci_completed_request_lru ci = [] \<and> ci_num_rpc_inprocess ci = 0"

text \<open>
  The map iterations of \<^verbatim>\<open>trimCompleted\<close> visit the keys in an order Go
  leaves unspecified; the model takes that order as the list \<open>ks\<close>.
  Lines 416--426: TTL-trim every session and collect the keys of the empty
  ones.
\<close>

fun trim_long_sessions ::
  "nat \<Rightarrow> time \<Rightarrow> string list \<Rightarrow> server \<Rightarrow> srv_error + server \<times> string list" where
  "trim_long_sessions ttl t [] s = Inr (s, [])"
| "trim_long_sessions ttl t (k # ks) s =
     (case srv_per_client_info s k of
        None \<Rightarrow> Inl NilDeref
      | Some p \<Rightarrow>
          (case srv_ci_heap s p of
             None \<Rightarrow> Inl NilDeref
           | Some ci \<Rightarrow>
               (let ci' = fst (trim_tll_based ttl t ci);
                    s1 = s\<lparr>srv_ci_heap := (srv_ci_heap s)(p \<mapsto> ci')\<rparr>
                in sbind (trim_long_sessions ttl t ks s1)
                     (\<lambda>(s2, l). Inr (s2, if ci_is_empty ci' then k # l else l)))))"

text \<open>Lines 432--442: delete the collected sessions that are still empty and
  whose current connection's service loop has exited.\<close>

fun delete_inactive :: "string list \<Rightarrow> server \<Rightarrow> srv_error + server" where
  "delete_inactive [] s = Inr s"
| "delete_inactive (k # ks) s =
     (case srv_per_client_info s k of
        None \<Rightarrow> Inl NilDeref
      | Some p \<Rightarrow>
          (case srv_ci_heap s p of
             None \<Rightarrow> Inl NilDeref
           | Some ci \<Rightarrow>
               (case srv_conns s (ci_cctx ci) of
                  None \<Rightarrow> Inl NilDeref
                | Some cc \<Rightarrow>
                    delete_inactive ks
                      (if ci_is_empty ci \<and> cc_service_client_exited cc
                       then s\<lparr>srv_per_client_info := (srv_per_client_info s)(k := None)\<rparr> else s))))"

text \<open>Lines 445--448: ACK-trim every session; a pass that does not return
  (\<open>highestReplySeen = 2^64 - 1\<close>) hangs the driver with the server lock
  held.\<close>

fun trim_short_sessions :: "string list \<Rightarrow> server \<Rightarrow> srv_error + server" where
  "trim_short_sessions [] s = Inr s"
| "trim_short_sessions (k # ks) s =
     (case srv_per_client_info s k of
        None \<Rightarrow> Inl NilDeref
      | Some p \<Rightarrow>
          (case srv_ci_heap s p of
             None \<Rightarrow> Inl NilDeref
           | Some ci \<Rightarrow>
               (case trim_a_client_based_ack ci of
                  None \<Rightarrow> Inl Hang
                | Some (ci', n) \<Rightarrow> trim_short_sessions ks (s\<lparr>srv_ci_heap := (srv_ci_heap s)(p \<mapsto> ci')\<rparr>))))"

text \<open>
  \<^verbatim>\<open>trimCompleted(t, long)\<close>: under the server lock, the long (TTL) or
  short (ACK) pass. The lock is released on return; a held lock blocks it.
\<close>

definition trim_completed :: "nat \<Rightarrow> time \<Rightarrow> bool \<Rightarrow> string list \<Rightarrow> server \<Rightarrow> srv_error + server" where
  "trim_completed ttl t long ks s =
     (if srv_locked s then Inl Hang
      else if long then sbind (trim_long_sessions ttl t ks s) (\<lambda>(s1, l). delete_inactive l s1)
      else trim_short_sessions ks s)"

subsection \<open>At-most-once execution\<close>

text \<open>
  The handler log is covered when every logged invocation \<open>(p, rid)\<close> is
  either still in session \<open>p\<close>'s completed cache (so a retransmission is
  served from it) or at most the session's trimmed watermark (so the client
  has acknowledged its reply and never sends it again). At-most-once
  execution is a duplicate-free log that is covered.
\<close>

definition log_covered :: "server \<Rightarrow> ci_ptr \<times> requestID \<Rightarrow> bool" where
  "log_covered s x =
     (case srv_ci_heap s (fst x) of
        None \<Rightarrow> False
      | Some ci \<Rightarrow> ci_completed_request ci (snd x) \<noteq> None \<or> snd x \<le> ci_previous_highest_reply_seen ci)"

definition at_most_once :: "server \<Rightarrow> bool" where
  "at_most_once s \<longleftrightarrow> distinct (srv_handler_log s) \<and> list_all (log_covered s) (srv_handler_log s)"

text \<open>Every session on the heap satisfies the session invariant.\<close>

definition sessions_wf :: "server \<Rightarrow> bool" where
  "sessions_wf s \<longleftrightarrow> (\<forall>ci \<in> ran (srv_ci_heap s). wf_client_info ci)"

text \<open>A server with one client, \<^verbatim>\<open>client 1\<close>, on connection 0, and a registered
  \<^verbatim>\<open>RpcPing\<close>; its request 1 has the payload \<^verbatim>\<open>req1\<close> (the JSON
  decoder is the environment's).\<close>

definition ex_req1 :: json_request where
  "ex_req1 = \<lparr>jreq_method = ''RpcPing'', jreq_params = ''{}'', jreq_my_unique_id = ''client 1'',
              jreq_request_id = 1, jreq_highest_reply_seen = 0\<rparr>"

definition ex_env :: env where
  "ex_env = \<lparr>env_unmarshal_req = (\<lambda>b. if b = ''req1'' then Some ex_req1 else None),
             env_unmarshal_id = (\<lambda>b. Some b),
             env_svr_map = [''RpcPing'' \<mapsto> (\<lambda>_. Some (CallOk ''1''))]\<rparr>"

definition ex_srv :: server where
  "ex_srv = \<lparr>srv_per_client_info = [''client 1'' \<mapsto> 0],
             srv_ci_heap = [0 \<mapsto> new_client_info 0 ''client 1''],
             srv_next_ci = 1,
             srv_conns = [0 \<mapsto> fresh_conn_ctx\<lparr>cc_active_rpcs := 2, cc_ci := Some 0\<rparr>],
             srv_connections = [0], srv_conn_wg = 1, srv_halting = False, srv_locked = False,
             srv_goroutine_wg = 2, srv_workers = [], srv_handler_log = []\<rparr>"

text \<open>
  The client's discipline: it never sends a request whose ID it has already
  acknowledged past the session's trimmed watermark (a client retransmits only
  requests still outstanding, whose IDs exceed its highest consecutive reply).
\<close>

definition unacknowledged :: "env \<Rightarrow> ci_ptr \<Rightarrow> bytes \<Rightarrow> server \<Rightarrow> bool" where
  "unacknowledged e p buf s \<longleftrightarrow>
     (case (env_unmarshal_req e buf, srv_ci_heap s p) of
        (Some jreq, Some ci) \<Rightarrow> ci_previous_highest_reply_seen ci < jreq_request_id jreq
      | _ \<Rightarrow> True)"

subsection \<open>Worker lemmas\<close>

lemma write_reply_Inr:
  "write_reply nh np r c s = Inr s' \<Longrightarrow>
     srv_ci_heap s' = srv_ci_heap s \<and> srv_handler_log s' = srv_handler_log s \<and>
     srv_per_client_info s' = srv_per_client_info s"
  by (auto simp: write_reply_def split: option.splits)

lemma conn_rpc_done_Inr:
  "conn_rpc_done c s = Inr s' \<Longrightarrow>
     srv_ci_heap s' = srv_ci_heap s \<and> srv_handler_log s' = srv_handler_log s \<and>
     srv_per_client_info s' = srv_per_client_info s"
  by (auto simp: conn_rpc_done_def split: option.splits sum.splits)

lemma wg_update_Inr:
  "map_sum id (\<lambda>n. s\<lparr>srv_goroutine_wg := n\<rparr>) (wg_done m) = Inr s' \<Longrightarrow>
     srv_ci_heap s' = srv_ci_heap s \<and> srv_handler_log s' = srv_handler_log s \<and>
     srv_per_client_info s' = srv_per_client_info s"
  by (auto simp: wg_done_def split: if_splits)

lemma tail_Inr:
  assumes "sbind (sbind (write_reply nh np r c s1) (conn_rpc_done c))
             (\<lambda>s3. map_sum id (\<lambda>n. s3\<lparr>srv_goroutine_wg := n\<rparr>) (wg_done (srv_goroutine_wg s3))) = Inr s'"
  shows "srv_ci_heap s' = srv_ci_heap s1 \<and> srv_handler_log s' = srv_handler_log s1 \<and>
         srv_per_client_info s' = srv_per_client_info s1"
  using assms write_reply_Inr conn_rpc_done_Inr wg_update_Inr
  by (fastforce simp: sbind_eq_Inr_iff)

text \<open>What a run of the worker that returns does to the sessions and the handler log.\<close>

lemma process_request_Inr:
  assumes "process_request e dur now nh np p c buf s = Inr s'"
  shows "srv_per_client_info s' = srv_per_client_info s \<and>
         ((env_unmarshal_req e buf = None \<and> srv_ci_heap s' = srv_ci_heap s \<and> srv_handler_log s' = srv_handler_log s) \<or>
          (\<exists>jreq ci. env_unmarshal_req e buf = Some jreq \<and> srv_ci_heap s p = Some ci \<and>
             (case process_request_begin jreq ci of
                (Cached r, ci1) \<Rightarrow> srv_ci_heap s' = (srv_ci_heap s)(p \<mapsto> ci1) \<and> srv_handler_log s' = srv_handler_log s
              | (Dispatch, ci1) \<Rightarrow> (\<exists>b. call_rpc_and_format_reply e jreq = Inr b \<and>
                   srv_ci_heap s' = (srv_ci_heap s)(p \<mapsto> snd (process_request_finish (jreq_request_id jreq) dur (reply_of b) now ci1)) \<and>
                   srv_handler_log s' = srv_handler_log s @ [(p, jreq_request_id jreq)]))))"
proof (cases "env_unmarshal_req e buf")
  case None
  then show ?thesis using assms wg_update_Inr [of s "srv_goroutine_wg s" s'] by (simp add: process_request_def)
next
  case (Some jreq)
  then obtain ci where ci: "srv_ci_heap s p = Some ci"
    using assms by (cases "srv_ci_heap s p") (simp_all add: process_request_def)
  obtain br ci1 where b: "process_request_begin jreq ci = (br, ci1)" by fastforce
  show ?thesis
  proof (cases br)
    case (Cached r)
    then show ?thesis
      using assms Some ci b tail_Inr [of nh np r c "s\<lparr>srv_ci_heap := (srv_ci_heap s)(p \<mapsto> ci1)\<rparr>" s']
      by (simp add: process_request_def)
  next
    case Dispatch
    then obtain bs where call: "call_rpc_and_format_reply e jreq = Inr bs"
      using assms Some ci b by (cases "call_rpc_and_format_reply e jreq") (simp_all add: process_request_def)
    obtain r ci2 where f: "process_request_finish (jreq_request_id jreq) dur (reply_of bs) now ci1 = (r, ci2)" by fastforce
    show ?thesis
      using assms Some ci b Dispatch call f
        tail_Inr [of nh np r c "s\<lparr>srv_ci_heap := (srv_ci_heap s)(p \<mapsto> ci2),
                                   srv_handler_log := srv_handler_log s @ [(p, jreq_request_id jreq)]\<rparr>" s']
      by (simp add: process_request_def)
  qed
qed


lemma process_request_begin_Dispatch_iff:
  "fst (process_request_begin jreq ci) = Dispatch \<longleftrightarrow> ci_completed_request ci (jreq_request_id jreq) = None"
  by (auto simp: process_request_begin_def Let_def split: option.split)

lemma log_covered_mono:
  assumes "\<And>q ci rid. srv_ci_heap s q = Some ci \<Longrightarrow>
             ci_completed_request ci rid \<noteq> None \<or> rid \<le> ci_previous_highest_reply_seen ci \<Longrightarrow>
             \<exists>ci'. srv_ci_heap s' q = Some ci' \<and>
                   (ci_completed_request ci' rid \<noteq> None \<or> rid \<le> ci_previous_highest_reply_seen ci')"
    and "log_covered s x"
  shows "log_covered s' x"
proof -
  obtain ci where h: "srv_ci_heap s (fst x) = Some ci"
    and c: "ci_completed_request ci (snd x) \<noteq> None \<or> snd x \<le> ci_previous_highest_reply_seen ci"
    using assms(2) by (cases "srv_ci_heap s (fst x)") (simp_all add: log_covered_def)
  obtain ci' where "srv_ci_heap s' (fst x) = Some ci'"
    and "ci_completed_request ci' (snd x) \<noteq> None \<or> snd x \<le> ci_previous_highest_reply_seen ci'"
    using assms(1) [OF h c] by blast
  then show ?thesis by (simp add: log_covered_def)
qed

lemma list_all_log_covered_mono:
  assumes "\<And>q ci rid. srv_ci_heap s q = Some ci \<Longrightarrow>
             ci_completed_request ci rid \<noteq> None \<or> rid \<le> ci_previous_highest_reply_seen ci \<Longrightarrow>
             \<exists>ci'. srv_ci_heap s' q = Some ci' \<and>
                   (ci_completed_request ci' rid \<noteq> None \<or> rid \<le> ci_previous_highest_reply_seen ci')"
    and "list_all (log_covered s) xs"
  shows "list_all (log_covered s') xs"
  unfolding list_all_iff
proof
  fix x assume "x \<in> set xs"
  then have "log_covered s x" using assms(2) by (simp add: list_all_iff)
  then show "log_covered s' x" using log_covered_mono [of s s' x] assms(1) by blast
qed

lemma list_all_log_covered_update:
  assumes "srv_ci_heap s' = (srv_ci_heap s)(p \<mapsto> ci')" and "srv_ci_heap s p = Some ci"
    and "\<And>rid. ci_completed_request ci rid \<noteq> None \<or> rid \<le> ci_previous_highest_reply_seen ci \<Longrightarrow>
                ci_completed_request ci' rid \<noteq> None \<or> rid \<le> ci_previous_highest_reply_seen ci'"
    and "list_all (log_covered s) xs"
  shows "list_all (log_covered s') xs"
proof (rule list_all_log_covered_mono [OF _ assms(4)])
  fix q cq rid
  assume "srv_ci_heap s q = Some cq" "ci_completed_request cq rid \<noteq> None \<or> rid \<le> ci_previous_highest_reply_seen cq"
  then show "\<exists>ci'. srv_ci_heap s' q = Some ci' \<and> (ci_completed_request ci' rid \<noteq> None \<or> rid \<le> ci_previous_highest_reply_seen ci')"
    using assms(1-3) by (cases "q = p") auto
qed

lemma process_request_begin_completed_None:
  "ci_completed_request (snd (process_request_begin jreq ci)) rid = None \<longleftrightarrow> ci_completed_request ci rid = None"
  by (auto simp: process_request_begin_def Let_def split: option.split)

lemma process_request_keeps_at_most_once:
  assumes inv: "at_most_once s" and un: "unacknowledged e p buf s"
    and run: "process_request e dur now nh np p c buf s = Inr s'"
  shows "at_most_once s'"
  using process_request_Inr [OF run]
proof (elim conjE disjE exE)
  assume "env_unmarshal_req e buf = None" "srv_ci_heap s' = srv_ci_heap s" "srv_handler_log s' = srv_handler_log s"
  then show ?thesis using inv by (simp add: at_most_once_def log_covered_def [abs_def])
next
  fix jreq ci
  assume j: "env_unmarshal_req e buf = Some jreq" and ci: "srv_ci_heap s p = Some ci"
    and br: "case process_request_begin jreq ci of
         (Cached r, ci1) \<Rightarrow> srv_ci_heap s' = (srv_ci_heap s)(p \<mapsto> ci1) \<and> srv_handler_log s' = srv_handler_log s
       | (Dispatch, ci1) \<Rightarrow> (\<exists>b. call_rpc_and_format_reply e jreq = Inr b \<and>
            srv_ci_heap s' = (srv_ci_heap s)(p \<mapsto> snd (process_request_finish (jreq_request_id jreq) dur (reply_of b) now ci1)) \<and>
            srv_handler_log s' = srv_handler_log s @ [(p, jreq_request_id jreq)])"
  let ?rid = "jreq_request_id jreq"
  obtain b ci1 where bg: "process_request_begin jreq ci = (b, ci1)" by fastforce
  have prev1: "ci_previous_highest_reply_seen ci1 = ci_previous_highest_reply_seen ci"
    using process_request_begin_lru(3) [of jreq ci] bg by simp
  have none1: "\<And>rid. ci_completed_request ci1 rid = None \<longleftrightarrow> ci_completed_request ci rid = None"
    using process_request_begin_completed_None [of jreq ci] bg by simp
  have inv': "distinct (srv_handler_log s)" "list_all (log_covered s) (srv_handler_log s)"
    using inv by (simp_all add: at_most_once_def)
  show ?thesis
  proof (cases b)
    case (Cached r)
    then have h': "srv_ci_heap s' = (srv_ci_heap s)(p \<mapsto> ci1)" and l': "srv_handler_log s' = srv_handler_log s"
      using br bg by simp_all
    have "list_all (log_covered s') (srv_handler_log s)"
      by (rule list_all_log_covered_update [OF h' ci _ inv'(2)]) (simp add: prev1 none1)
    then show ?thesis using inv'(1) l' by (simp add: at_most_once_def)
  next
    case Dispatch
    then obtain bs where h': "srv_ci_heap s' = (srv_ci_heap s)(p \<mapsto> snd (process_request_finish ?rid dur (reply_of bs) now ci1))"
      and l': "srv_handler_log s' = srv_handler_log s @ [(p, ?rid)]"
      using br bg by auto
    have none: "ci_completed_request ci ?rid = None"
      using Dispatch bg process_request_begin_Dispatch_iff [of jreq ci] by simp
    have lt: "ci_previous_highest_reply_seen ci < ?rid"
      using un j ci by (simp add: unacknowledged_def)
    have "\<not> log_covered s (p, ?rid)"
      using none lt ci by (simp add: log_covered_def)
    then have notin: "(p, ?rid) \<notin> set (srv_handler_log s)"
      using inv'(2) by (auto simp: list_all_iff)
    have cov: "list_all (log_covered s') (srv_handler_log s)"
      by (rule list_all_log_covered_update [OF h' ci _ inv'(2)]) (simp add: prev1 none1 del: not_None_eq)
    have "log_covered s' (p, ?rid)" by (simp add: log_covered_def h')
    then show ?thesis using inv'(1) l' notin cov by (simp add: at_most_once_def)
  qed
qed

text \<open>
  C1 At-most-once execution is kept by the dispatch worker: if the
  log is duplicate-free and covered, and the client has not acknowledged the
  request, then a run of \<^verbatim>\<open>processRequest\<close> either serves the cached
  reply or calls the handler for an ID never run before, and the log stays
  duplicate-free and covered.
\<close>

theorem at_most_once_process_request:
  assumes inv: "at_most_once s" and un: "unacknowledged e p buf s"
    and run: "process_request e dur now nh np p c buf s = Inr s'"
  shows "at_most_once s'"
  using inv un run by (rule process_request_keeps_at_most_once)

theorem at_most_once_process_request_witness:
  "\<exists>s'. process_request ex_env 1 5 9 100 0 0 ''req1'' ex_srv = Inr s' \<and> at_most_once s'"
proof -
  have inv: "at_most_once ex_srv" by (simp add: at_most_once_def ex_srv_def)
  have un: "unacknowledged ex_env 0 ''req1'' ex_srv"
    by (simp add: unacknowledged_def ex_env_def ex_srv_def ex_req1_def new_client_info_def)
  obtain s' where run: "process_request ex_env 1 5 9 100 0 0 ''req1'' ex_srv = Inr s'"
    by (simp add: process_request_def ex_env_def ex_srv_def ex_req1_def process_request_begin_def
         process_request_finish_def call_rpc_and_format_reply_def write_reply_def conn_rpc_done_def
         wg_done_def fresh_conn_ctx_def new_client_info_def Let_def)
  show ?thesis using at_most_once_process_request [OF inv un run] run by blast
qed


text \<open>
  C4 A request whose ID is not in the session's completed cache runs its
  handler once: the marshalled reply is stored in the cache under the
  request ID, written on the connection with its header, and the invocation
  is logged.
\<close>

theorem process_request_dispatch:
  assumes j: "env_unmarshal_req e buf = Some jreq" and ci: "srv_ci_heap s p = Some ci"
    and none: "ci_completed_request ci (jreq_request_id jreq) = None"
    and call: "call_rpc_and_format_reply e jreq = Inr b"
    and cc: "srv_conns s c = Some cc" and act: "0 < cc_active_rpcs cc" and wg: "0 < srv_goroutine_wg s"
  shows "\<exists>s'. process_request e dur now nh np p c buf s = Inr s' \<and>
           map_option (ior_jresult \<circ> ce_reply)
             (Option.bind (srv_ci_heap s' p) (\<lambda>ci'. ci_completed_request ci' (jreq_request_id jreq))) = Some b \<and>
           map_option cc_out (srv_conns s' c) =
             Some (return_results nh np (setup_hdr_reply (reply_of b) RPC) (cc_out cc)) \<and>
           srv_handler_log s' = srv_handler_log s @ [(p, jreq_request_id jreq)]"
  using assms
  by (simp add: process_request_def process_request_begin_def Let_def write_reply_def conn_rpc_done_def
                wg_done_def setup_hdr_reply_def reply_of_def process_request_finish_def)

theorem process_request_dispatch_witness:
  "\<exists>s'. process_request ex_env 1 5 9 100 0 0 ''req1'' ex_srv = Inr s' \<and>
        srv_handler_log s' = [(0, 1)]"
proof -
  let ?b = "marshal_reply \<lparr>jrep_my_unique_id = ''client 1'', jrep_request_id = 1,
                            jrep_result = Some ''1'', jrep_err_str = []\<rparr>"
  have j: "env_unmarshal_req ex_env ''req1'' = Some ex_req1" by (simp add: ex_env_def)
  have ci: "srv_ci_heap ex_srv 0 = Some (new_client_info 0 ''client 1'')" by (simp add: ex_srv_def)
  have none: "ci_completed_request (new_client_info 0 ''client 1'') (jreq_request_id ex_req1) = None"
    by (simp add: new_client_info_def)
  have call: "call_rpc_and_format_reply ex_env ex_req1 = Inr ?b"
    by (simp add: call_rpc_and_format_reply_def ex_env_def ex_req1_def)
  have cc: "srv_conns ex_srv 0 = Some (fresh_conn_ctx\<lparr>cc_active_rpcs := 2, cc_ci := Some 0\<rparr>)"
    by (simp add: ex_srv_def)
  have act: "0 < cc_active_rpcs (fresh_conn_ctx\<lparr>cc_active_rpcs := 2, cc_ci := Some 0\<rparr>)" by simp
  have wg: "0 < srv_goroutine_wg ex_srv" by (simp add: ex_srv_def)
  show ?thesis
    using process_request_dispatch [OF j ci none call cc act wg, of 1 5 9 100]
    by (auto simp: ex_srv_def ex_req1_def)
qed

text \<open>
  C3 Deduplication in the worker: a request whose ID is in the completed
  cache is answered by writing the cached reply (its header set up again) on
  the connection, and no handler is called.
\<close>

theorem process_request_cached:
  assumes j: "env_unmarshal_req e buf = Some jreq" and ci: "srv_ci_heap s p = Some ci"
    and ce: "ci_completed_request ci (jreq_request_id jreq) = Some ce"
    and cc: "srv_conns s c = Some cc" and act: "0 < cc_active_rpcs cc" and wg: "0 < srv_goroutine_wg s"
  shows "\<exists>s'. process_request e dur now nh np p c buf s = Inr s' \<and>
           map_option cc_out (srv_conns s' c) =
             Some (return_results nh np (setup_hdr_reply (ce_reply ce) RPC) (cc_out cc)) \<and>
           srv_handler_log s' = srv_handler_log s"
  using assms
  by (simp add: process_request_def process_request_begin_def Let_def write_reply_def conn_rpc_done_def wg_done_def)

theorem process_request_cached_witness:
  "\<exists>s'. process_request ex_env 1 5 9 100 0 0 ''req1''
          (ex_srv\<lparr>srv_ci_heap := [0 \<mapsto> ex_session]\<rparr>) = Inr s' \<and> srv_handler_log s' = []"
proof -
  have j: "env_unmarshal_req ex_env ''req1'' = Some ex_req1" by (simp add: ex_env_def)
  have ci: "srv_ci_heap (ex_srv\<lparr>srv_ci_heap := [0 \<mapsto> ex_session]\<rparr>) 0 = Some ex_session" by simp
  have ce: "ci_completed_request ex_session (jreq_request_id ex_req1) =
              Some \<lparr>ce_reply = setup_hdr_reply ex_reply RPC, ce_lru_elem = 0\<rparr>"
    by (simp add: ex_session_def ex_req1_def process_request_finish_def new_client_info_def Let_def)
  have cc: "srv_conns (ex_srv\<lparr>srv_ci_heap := [0 \<mapsto> ex_session]\<rparr>) 0 =
              Some (fresh_conn_ctx\<lparr>cc_active_rpcs := 2, cc_ci := Some 0\<rparr>)"
    by (simp add: ex_srv_def)
  have act: "0 < cc_active_rpcs (fresh_conn_ctx\<lparr>cc_active_rpcs := 2, cc_ci := Some 0\<rparr>)" by simp
  have wg: "0 < srv_goroutine_wg (ex_srv\<lparr>srv_ci_heap := [0 \<mapsto> ex_session]\<rparr>)" by (simp add: ex_srv_def)
  show ?thesis
    using process_request_cached [OF j ci ce cc act wg, of 1 5 9 100]
    by (auto simp: ex_srv_def)
qed

subsection \<open>Trim driver lemmas\<close>

lemma trim_a_client_based_ack_Some:
  assumes wf: "wf_client_info ci" and r: "trim_a_client_based_ack ci = Some (ci', n)"
  shows "wf_client_info ci' \<and>
         (\<forall>rid. ci_completed_request ci rid \<noteq> None \<or> rid \<le> ci_previous_highest_reply_seen ci \<longrightarrow>
                ci_completed_request ci' rid \<noteq> None \<or> rid \<le> ci_previous_highest_reply_seen ci')"
proof -
  let ?P = "\<lambda>r. ci_previous_highest_reply_seen ci < r \<and> r \<le> ci_highest_reply_seen ci"
  obtain x where "trim_ack_loop (ci_previous_highest_reply_seen ci + 1) (ci_highest_reply_seen ci) (ci, 0) = Some x"
    using r by (cases "trim_ack_loop (ci_previous_highest_reply_seen ci + 1) (ci_highest_reply_seen ci) (ci, 0)")
               (simp_all add: trim_a_client_based_ack_def)
  then have hi: "ci_highest_reply_seen ci \<noteq> - 1" by (rule trim_ack_loop_returns)
  have ci': "ci' = (drop_completed ?P ci)\<lparr>ci_previous_highest_reply_seen := ci_highest_reply_seen ci\<rparr>"
    using r trim_a_client_based_ack_eq [OF wf hi] by simp
  have le: "ci_previous_highest_reply_seen ci \<le> ci_highest_reply_seen ci"
    using wf by (simp add: wf_client_info_def)
  have "wf_client_info ((drop_completed ?P ci)\<lparr>ci_previous_highest_reply_seen := ci_highest_reply_seen (drop_completed ?P ci)\<rparr>)"
    using wf_drop_completed [OF wf] by (rule wf_prev_update)
  then have "wf_client_info ci'" by (simp add: ci' drop_completed_def)
  moreover have "ci_completed_request ci' rid \<noteq> None \<or> rid \<le> ci_previous_highest_reply_seen ci'"
    if "ci_completed_request ci rid \<noteq> None \<or> rid \<le> ci_previous_highest_reply_seen ci" for rid
    using that le by (auto simp: ci' drop_completed_def restrict_map_def not_less dest: order_trans)
  ultimately show ?thesis by blast
qed

lemma ran_upd_all:
  "\<forall>x \<in> ran m. P x \<Longrightarrow> P y \<Longrightarrow> \<forall>x \<in> ran (m(k \<mapsto> y)). P x"
  by (auto simp: ran_def)

lemma tss_obtain:
  assumes "trim_short_sessions (k # ks) s = Inr s'"
  obtains p ci ci' n where "srv_per_client_info s k = Some p" "srv_ci_heap s p = Some ci"
    "trim_a_client_based_ack ci = Some (ci', n)"
    "trim_short_sessions ks (s\<lparr>srv_ci_heap := (srv_ci_heap s)(p \<mapsto> ci')\<rparr>) = Inr s'"
  using assms by (auto split: option.splits)


lemma sessions_wf_upd:
  "sessions_wf s \<Longrightarrow> wf_client_info ci' \<Longrightarrow> sessions_wf (s\<lparr>srv_ci_heap := (srv_ci_heap s)(p \<mapsto> ci')\<rparr>)"
  unfolding sessions_wf_def using ran_upd_all [of "srv_ci_heap s" wf_client_info ci' p] by simp

lemma sessions_wf_get:
  "sessions_wf s \<Longrightarrow> srv_ci_heap s p = Some ci \<Longrightarrow> wf_client_info ci"
  unfolding sessions_wf_def by (auto intro: ranI)

lemma trim_short_sessions_inv:
  "at_most_once s \<Longrightarrow> sessions_wf s \<Longrightarrow> trim_short_sessions ks s = Inr s' \<Longrightarrow>
   at_most_once s' \<and> sessions_wf s'"
proof (induction ks arbitrary: s)
  case Nil
  then show ?case by simp
next
  case (Cons k ks)
  obtain p ci ci' n where ci: "srv_ci_heap s p = Some ci"
    and r: "trim_a_client_based_ack ci = Some (ci', n)"
    and rest: "trim_short_sessions ks (s\<lparr>srv_ci_heap := (srv_ci_heap s)(p \<mapsto> ci')\<rparr>) = Inr s'"
    using Cons.prems(3) by (rule tss_obtain)
  have wf: "wf_client_info ci" using Cons.prems(2) ci by (rule sessions_wf_get)
  note t = trim_a_client_based_ack_Some [OF wf r]
  let ?s1 = "s\<lparr>srv_ci_heap := (srv_ci_heap s)(p \<mapsto> ci')\<rparr>"
  have cov: "list_all (log_covered s) (srv_handler_log s)"
    using Cons.prems(1) by (simp add: at_most_once_def)
  have upd: "srv_ci_heap ?s1 = (srv_ci_heap s)(p \<mapsto> ci')" by simp
  have step: "ci_completed_request ci' rid \<noteq> None \<or> rid \<le> ci_previous_highest_reply_seen ci'"
    if "ci_completed_request ci rid \<noteq> None \<or> rid \<le> ci_previous_highest_reply_seen ci" for rid
    using t that by blast
  have "list_all (log_covered ?s1) (srv_handler_log s)"
    by (rule list_all_log_covered_update [OF upd ci step cov])
  then have "at_most_once ?s1" using Cons.prems(1) by (simp add: at_most_once_def)
  moreover have "sessions_wf ?s1"
    using Cons.prems(2) t by (simp add: sessions_wf_upd)
  ultimately show ?case using Cons.IH rest by blast
qed

text \<open>
  C2 The ACK pass of \<^verbatim>\<open>trimCompleted\<close> keeps at-most-once execution: it
  only forgets replies the client acknowledged, and raises each session's
  trimmed watermark over them.
\<close>

theorem at_most_once_trim_completed_ack:
  assumes "at_most_once s" and "sessions_wf s" and "trim_completed ttl t False ks s = Inr s'"
  shows "at_most_once s'"
  using trim_short_sessions_inv [OF assms(1,2)] assms(3)
  by (simp add: trim_completed_def split: if_splits)

theorem at_most_once_trim_completed_ack_witness:
  "\<exists>s'. trim_completed 10 20 False [''client 1''] ex_srv = Inr s' \<and> at_most_once s'"
proof -
  have inv: "at_most_once ex_srv" by (simp add: at_most_once_def ex_srv_def)
  have wf: "sessions_wf ex_srv" by (simp add: sessions_wf_def ex_srv_def wf_new_client_info)
  have n01: "\<not> (1::requestID) \<le> 0" by simp
  obtain s' where run: "trim_completed 10 20 False [''client 1''] ex_srv = Inr s'"
    using n01 by (simp add: trim_completed_def ex_srv_def trim_a_client_based_ack_def new_client_info_def
                            trim_ack_loop.simps [of 1 0])
  show ?thesis using at_most_once_trim_completed_ack [OF inv wf run] run by blast
qed

subsection \<open>Service loop lemmas\<close>

text \<open>
  C15 A frame that is not an RPC leaves the server lock held
  (\<^verbatim>\<open>continue\<close> at server.go line 286 skips \<^verbatim>\<open>server.Unlock()\<close>): the
  same loop then blocks on its next event, and so do every later trim pass
  and every handshake of a new connection.
\<close>

theorem non_rpc_frame_holds_server_lock:
  assumes "\<not> srv_locked s" and "\<not> srv_halting s" and "t \<noteq> RPC" and "ev \<noteq> RError"
    and "env_unmarshal_id e b \<noteq> None"
  shows "service_client_iter p c (RFrame t buf) s = Continue (s\<lparr>srv_locked := True\<rparr>) \<and>
         service_client p c (RFrame t buf # ev # evs) s = Failed Hang \<and>
         trim_completed ttl now long ks (s\<lparr>srv_locked := True\<rparr>) = Inl Hang \<and>
         get_client_id e c' (RFrame PassID b) (s\<lparr>srv_locked := True\<rparr>) = HsStuck Hang"
  using assms by (auto simp: service_client_iter_def trim_completed_def get_client_id_def)

theorem non_rpc_frame_holds_server_lock_witness:
  "service_client 0 0 [RFrame PassID ''x'', RTimeout] ex_srv = Failed Hang \<and>
   trim_completed 10 20 False [''client 1''] (ex_srv\<lparr>srv_locked := True\<rparr>) = Inl Hang"
proof -
  have h: "\<not> srv_locked ex_srv" "\<not> srv_halting ex_srv" "PassID \<noteq> RPC" "RTimeout \<noteq> RError"
    "env_unmarshal_id ex_env ''x'' \<noteq> None"
    by (simp_all add: ex_srv_def ex_env_def)
  show ?thesis using non_rpc_frame_holds_server_lock [OF h] by blast
qed

lemma process_request_malformed:
  assumes "env_unmarshal_req e buf = None" and "0 < srv_goroutine_wg s"
  shows "process_request e dur now nh np p c buf s = Inr (s\<lparr>srv_goroutine_wg := srv_goroutine_wg s - 1\<rparr>)"
  using assms by (simp add: process_request_def wg_done_def)

lemma service_client_rpc_then_error:
  assumes "\<not> srv_locked s" "\<not> srv_halting s" "srv_conns s c = Some cc"
  shows "service_client p c [RFrame RPC buf, RError] s =
           Exited (s\<lparr>srv_conns := (srv_conns s)(c \<mapsto> cc\<lparr>cc_active_rpcs := Suc (cc_active_rpcs cc), cc_service_client_exited := True\<rparr>),
                     srv_goroutine_wg := Suc (srv_goroutine_wg s),
                     srv_workers := srv_workers s @ [(p, c, buf)]\<rparr>)"
  using assms by (simp add: service_client_iter_def set_service_client_exited_def)

text \<open>
  C16 A request frame whose payload does not decode leaks an in-flight
  count: the worker returns early (server.go line 104) without
  \<^verbatim>\<open>activeRPCsWG.Done()\<close>, so after the connection's loop has exited, the
  handshake of the client's next connection waits for the old connection to
  drain, which never happens.
\<close>

theorem malformed_request_blocks_reconnect:
  assumes "\<not> srv_locked s" "\<not> srv_halting s" "srv_conns s c = Some cc"
    and "srv_ci_heap s p = Some ci" "ci_cctx ci = c"
    and "env_unmarshal_req e buf = None"
    and "service_client p c [RFrame RPC buf, RError] s = Exited s1"
  shows "\<exists>s2. process_request e dur now nh np p c buf s1 = Inr s2 \<and> rebind p c' s2 = None"
proof -
  have s1: "s1 = s\<lparr>srv_conns := (srv_conns s)(c \<mapsto> cc\<lparr>cc_active_rpcs := Suc (cc_active_rpcs cc), cc_service_client_exited := True\<rparr>),
                     srv_goroutine_wg := Suc (srv_goroutine_wg s),
                     srv_workers := srv_workers s @ [(p, c, buf)]\<rparr>"
    using assms(7) service_client_rpc_then_error [OF assms(1-3)] by simp
  show ?thesis
    using assms(4-6) by (simp add: s1 process_request_malformed rebind_def)
qed

theorem malformed_request_blocks_reconnect_witness:
  "\<exists>s1 s2. service_client 0 0 [RFrame RPC ''junk'', RError] (ex_srv\<lparr>srv_conns := [0 \<mapsto> fresh_conn_ctx]\<rparr>) = Exited s1 \<and>
           process_request ex_env 1 5 9 100 0 0 ''junk'' s1 = Inr s2 \<and> rebind 0 1 s2 = None"
proof -
  let ?s = "ex_srv\<lparr>srv_conns := [0 \<mapsto> fresh_conn_ctx]\<rparr>"
  obtain s1 where ex: "service_client 0 0 [RFrame RPC ''junk'', RError] ?s = Exited s1"
    by (simp add: service_client_iter_def set_service_client_exited_def ex_srv_def)
  have h: "\<not> srv_locked ?s" "\<not> srv_halting ?s" "srv_conns ?s 0 = Some fresh_conn_ctx"
    "srv_ci_heap ?s 0 = Some (new_client_info 0 ''client 1'')" "ci_cctx (new_client_info 0 ''client 1'') = 0"
    "env_unmarshal_req ex_env ''junk'' = None"
    by (simp_all add: ex_srv_def ex_env_def new_client_info_def)
  show ?thesis
    using malformed_request_blocks_reconnect [OF h ex, of 1 5 9 100 1] ex by blast
qed

end
