(* ===== verification/Server_Steps.thy ===== *)
theory Server_Steps
  imports Service
begin

text \<open>
  The RetryRPC server as a system of goroutines: every operation of
  \<open>Service\<close> that the server runs concurrently is one atomic step of the
  relation \<open>srv_step\<close>, and a reachable state is one that a run from the
  state \<^verbatim>\<open>run\<close> starts in reaches by any interleaving of steps. Each step
  is an operation that returns: one that panics, dereferences nil or blocks
  is not a step.
\<close>

subsection \<open>Steps\<close>

text \<open>The server when \<^verbatim>\<open>run\<close> starts accepting: no session, no connection,
  no goroutine.\<close>

definition srv_init :: server where
  "srv_init = \<lparr>srv_per_client_info = Map.empty, srv_ci_heap = Map.empty, srv_next_ci = 0,
               srv_conns = Map.empty, srv_connections = [], srv_conn_wg = 0, srv_halting = False,
               srv_locked = False, srv_goroutine_wg = 0, srv_workers = [], srv_handler_log = []\<rparr>"

text \<open>The clock at a worker's completion has not gone back past any
  completion recorded in a session.\<close>

definition clock_all :: "time \<Rightarrow> server \<Rightarrow> bool" where
  "clock_all now s \<longleftrightarrow> (\<forall>ci \<in> ran (srv_ci_heap s). clock_after now ci)"

text \<open>
  The steps: \<^verbatim>\<open>run\<close> accepts a new connection (a pointer not yet in use);
  a handshake creates a session (\<open>HsReady\<close>); a waiting handshake rebinds a
  session once its old connection has drained (any session to any
  connection: the relation allows more than the code does, which only
  strengthens its invariants); one iteration of a connection's service loop,
  for the session the connection is bound to; one spawned worker, taken
  from anywhere in the list of pending workers, runs \<^verbatim>\<open>processRequest\<close>
  to completion, for a request the client has not acknowledged and at a
  clock that has not gone back; the ACK pass of \<^verbatim>\<open>trimCompleted\<close>; and
  \<^verbatim>\<open>closeClient\<close>. The TTL pass is not a step here: it breaks
  at-most-once execution (C14).
\<close>

inductive srv_step :: "env \<Rightarrow> server \<Rightarrow> server \<Rightarrow> bool" for e :: env where
  accept: "c \<notin> dom (srv_conns s) \<Longrightarrow> srv_step e s (accept_conn c s)"
| handshake: "get_client_id e c ev s = HsReady p s' \<Longrightarrow> srv_step e s s'"
| rebind: "rebind p c s = Some (Inr s') \<Longrightarrow> srv_step e s s'"
| loop: "srv_conns s c = Some cc \<Longrightarrow> cc_ci cc = Some p \<Longrightarrow> service_client_iter p c ev s = Continue s' \<Longrightarrow>
         srv_step e s s'"
| loop_exit: "srv_conns s c = Some cc \<Longrightarrow> cc_ci cc = Some p \<Longrightarrow> service_client_iter p c ev s = Exit s' \<Longrightarrow>
         srv_step e s s'"
| worker: "srv_workers s = ws1 @ (p, c, buf) # ws2 \<Longrightarrow> unacknowledged e p buf s \<Longrightarrow> clock_all now s \<Longrightarrow>
         process_request e dur now nh np p c buf (s\<lparr>srv_workers := ws1 @ ws2\<rparr>) = Inr s' \<Longrightarrow>
         srv_step e s s'"
| trim_ack: "trim_completed ttl t False ks s = Inr s' \<Longrightarrow> srv_step e s s'"
| close: "close_client c s = Inr s' \<Longrightarrow> srv_step e s s'"

inductive srv_reach :: "env \<Rightarrow> server \<Rightarrow> bool" for e :: env where
  init: "srv_reach e srv_init"
| step: "srv_reach e s \<Longrightarrow> srv_step e s s' \<Longrightarrow> srv_reach e s'"

subsection \<open>Invariants\<close>

text \<open>Workers pending on connection \<open>c\<close>.\<close>

definition pending :: "conn_ptr \<Rightarrow> server \<Rightarrow> nat" where
  "pending c s = length (filter (\<lambda>w. fst (snd w) = c) (srv_workers s))"

text \<open>Every pending worker's connection exists, and a connection's in-flight
  counter \<^verbatim>\<open>activeRPCsWG\<close> is at least the number of its pending workers.\<close>

definition workers_ok :: "server \<Rightarrow> bool" where
  "workers_ok s \<longleftrightarrow>
     list_all (\<lambda>w. srv_conns s (fst (snd w)) \<noteq> None) (srv_workers s) \<and>
     (\<forall>c cc. srv_conns s c = Some cc \<longrightarrow> pending c s \<le> cc_active_rpcs cc)"

text \<open>Session pointers below \<open>srv_next_ci\<close> are the allocated ones.\<close>

definition heap_bounded :: "server \<Rightarrow> bool" where
  "heap_bounded s \<longleftrightarrow> (\<forall>p. srv_ci_heap s p \<noteq> None \<longrightarrow> p < srv_next_ci s)"

definition srv_inv :: "server \<Rightarrow> bool" where
  "srv_inv s \<longleftrightarrow> at_most_once s \<and> sessions_wf s \<and> heap_bounded s \<and> workers_ok s"

text \<open>How a step may change the connections: the same connections bound to
  the same sessions, the same pending workers and next session pointer, and
  in-flight counters that fall by at most \<open>k\<close>, and only on connection
  \<open>c\<close>.\<close>

definition conns_drop :: "nat \<Rightarrow> conn_ptr \<Rightarrow> server \<Rightarrow> server \<Rightarrow> bool" where
  "conns_drop k c s s' \<longleftrightarrow>
     srv_workers s' = srv_workers s \<and> srv_next_ci s' = srv_next_ci s \<and>
     dom (srv_conns s') = dom (srv_conns s) \<and>
     (\<forall>c' cc'. srv_conns s' c' = Some cc' \<longrightarrow>
        (\<exists>cc. srv_conns s c' = Some cc \<and> cc_ci cc' = cc_ci cc \<and>
              cc_active_rpcs cc \<le> cc_active_rpcs cc' + (if c' = c then k else 0)))"

text \<open>Pointer typing: every session pointer held by the session map, a
  connection or a pending worker is allocated, and every session's current
  connection exists.\<close>

definition ptr_ok :: "server \<Rightarrow> bool" where
  "ptr_ok s \<longleftrightarrow>
     (\<forall>uid p. srv_per_client_info s uid = Some p \<longrightarrow> srv_ci_heap s p \<noteq> None) \<and>
     (\<forall>c cc p. srv_conns s c = Some cc \<longrightarrow> cc_ci cc = Some p \<longrightarrow> srv_ci_heap s p \<noteq> None) \<and>
     list_all (\<lambda>w. srv_ci_heap s (fst w) \<noteq> None) (srv_workers s) \<and>
     (\<forall>p ci. srv_ci_heap s p = Some ci \<longrightarrow> srv_conns s (ci_cctx ci) \<noteq> None)"

subsection \<open>Frame lemmas\<close>

lemma at_most_once_frame:
  "srv_ci_heap s' = srv_ci_heap s \<Longrightarrow> srv_handler_log s' = srv_handler_log s \<Longrightarrow> at_most_once s' = at_most_once s"
  by (simp add: at_most_once_def log_covered_def [abs_def])

lemma sessions_wf_frame:
  "srv_ci_heap s' = srv_ci_heap s \<Longrightarrow> sessions_wf s' = sessions_wf s"
  by (simp add: sessions_wf_def)

lemma trim_short_sessions_frame:
  "trim_short_sessions ks s = Inr s' \<Longrightarrow>
   srv_next_ci s' = srv_next_ci s \<and> srv_conns s' = srv_conns s \<and> srv_workers s' = srv_workers s \<and>
   srv_per_client_info s' = srv_per_client_info s \<and> srv_goroutine_wg s' = srv_goroutine_wg s \<and>
   dom (srv_ci_heap s') = dom (srv_ci_heap s)"
proof (induction ks arbitrary: s)
  case Nil
  then show ?case by simp
next
  case (Cons k ks)
  obtain p ci ci' n where ci: "srv_ci_heap s p = Some ci"
    and rest: "trim_short_sessions ks (s\<lparr>srv_ci_heap := (srv_ci_heap s)(p \<mapsto> ci')\<rparr>) = Inr s'"
    using Cons.prems by (rule tss_obtain)
  have "dom ((srv_ci_heap s)(p \<mapsto> ci')) = dom (srv_ci_heap s)" using ci by auto
  then show ?case using Cons.IH [OF rest] by auto
qed

lemma dom_upd_existing [simp]: "m k = Some v \<Longrightarrow> dom (m(k \<mapsto> v')) = dom m"
  by auto

lemma conns_drop_trans:
  assumes "conns_drop 0 c s1 s2" "conns_drop k c s2 s3"
  shows "conns_drop k c s1 s3"
  unfolding conns_drop_def
proof (intro conjI allI impI)
  fix c' cc3 assume "srv_conns s3 c' = Some cc3"
  then obtain cc2 where "srv_conns s2 c' = Some cc2" "cc_ci cc3 = cc_ci cc2"
    "cc_active_rpcs cc2 \<le> cc_active_rpcs cc3 + (if c' = c then k else 0)"
    using assms(2) unfolding conns_drop_def by blast
  moreover obtain cc1 where "srv_conns s1 c' = Some cc1" "cc_ci cc2 = cc_ci cc1" "cc_active_rpcs cc1 \<le> cc_active_rpcs cc2"
    using assms(1) \<open>srv_conns s2 c' = Some cc2\<close> unfolding conns_drop_def by fastforce
  ultimately show "\<exists>cc. srv_conns s1 c' = Some cc \<and> cc_ci cc3 = cc_ci cc \<and>
      cc_active_rpcs cc \<le> cc_active_rpcs cc3 + (if c' = c then k else 0)"
    by auto
qed (use assms in \<open>simp_all add: conns_drop_def\<close>)

lemma conns_drop_same:
  "srv_conns s' = srv_conns s \<Longrightarrow> srv_workers s' = srv_workers s \<Longrightarrow> srv_next_ci s' = srv_next_ci s \<Longrightarrow>
   conns_drop k c s s'"
  by (auto simp: conns_drop_def)

lemma write_reply_drop: "write_reply nh np r c s = Inr s' \<Longrightarrow> conns_drop 0 c s s'"
  by (auto simp: write_reply_def conns_drop_def split: option.splits if_splits)

lemma conn_rpc_done_drop: "conn_rpc_done c s = Inr s' \<Longrightarrow> conns_drop 1 c s s'"
  by (auto simp: conn_rpc_done_def wg_done_def conns_drop_def split: option.splits if_splits sum.splits)

lemma wg_update_drop:
  "map_sum id (\<lambda>n. s\<lparr>srv_goroutine_wg := n\<rparr>) (wg_done m) = Inr s' \<Longrightarrow> conns_drop 0 c s s'"
  by (auto simp: wg_done_def conns_drop_def split: if_splits)

lemma tail_drop:
  assumes "sbind (sbind (write_reply nh np r c s1) (conn_rpc_done c))
             (\<lambda>s3. map_sum id (\<lambda>n. s3\<lparr>srv_goroutine_wg := n\<rparr>) (wg_done (srv_goroutine_wg s3))) = Inr s'"
  shows "conns_drop 1 c s1 s'"
proof -
  obtain s2 s3 where w: "write_reply nh np r c s1 = Inr s2" and d: "conn_rpc_done c s2 = Inr s3"
    and g: "map_sum id (\<lambda>n. s3\<lparr>srv_goroutine_wg := n\<rparr>) (wg_done (srv_goroutine_wg s3)) = Inr s'"
    using assms by (auto simp: sbind_eq_Inr_iff)
  have "conns_drop 1 c s2 s3" using d by (rule conn_rpc_done_drop)
  then have "conns_drop 1 c s1 s3" using write_reply_drop [OF w] by (rule conns_drop_trans [rotated])
  moreover have "conns_drop 0 c s3 s'" using g by (rule wg_update_drop)
  ultimately show ?thesis
    unfolding conns_drop_def by fastforce
qed

lemma conns_drop_mono: "conns_drop 0 c s s' \<Longrightarrow> conns_drop k c s s'"
  by (fastforce simp: conns_drop_def)

lemma conns_drop_pre:
  assumes "srv_conns s1 = srv_conns s" "srv_workers s1 = srv_workers s" "srv_next_ci s1 = srv_next_ci s"
    and "conns_drop k c s1 s'"
  shows "conns_drop k c s s'"
  using conns_drop_trans [OF conns_drop_same [OF assms(1-3)] assms(4)] .

text \<open>A worker run that returns keeps the connections up to one fewer
  in-flight request on its own connection, and the allocated sessions.\<close>

lemma process_request_drop:
  assumes run: "process_request e dur now nh np p c buf s = Inr s'"
  shows "conns_drop 1 c s s' \<and> dom (srv_ci_heap s') = dom (srv_ci_heap s)"
proof (cases "env_unmarshal_req e buf")
  case None
  then have "map_sum id (\<lambda>n. s\<lparr>srv_goroutine_wg := n\<rparr>) (wg_done (srv_goroutine_wg s)) = Inr s'"
    using run by (simp add: process_request_def)
  then show ?thesis
    using wg_update_drop [of s "srv_goroutine_wg s" s' c] wg_update_Inr [of s "srv_goroutine_wg s" s']
    by (simp add: conns_drop_mono)
next
  case (Some jreq)
  then obtain ci where ci: "srv_ci_heap s p = Some ci"
    using run by (cases "srv_ci_heap s p") (simp_all add: process_request_def)
  have ins: "insert p (dom (srv_ci_heap s)) = dom (srv_ci_heap s)" using ci by auto
  obtain br ci1 where b: "process_request_begin jreq ci = (br, ci1)" by fastforce
  show ?thesis
  proof (cases br)
    case (Cached r)
    let ?s1 = "s\<lparr>srv_ci_heap := (srv_ci_heap s)(p \<mapsto> ci1)\<rparr>"
    have t: "sbind (sbind (write_reply nh np r c ?s1) (conn_rpc_done c))
             (\<lambda>s3. map_sum id (\<lambda>n. s3\<lparr>srv_goroutine_wg := n\<rparr>) (wg_done (srv_goroutine_wg s3))) = Inr s'"
      using run Some ci b Cached by (simp add: process_request_def)
    show ?thesis
      using conns_drop_pre [of ?s1 s, OF _ _ _ tail_drop [OF t]] tail_Inr [OF t] ins by simp
  next
    case Dispatch
    then obtain bs where call: "call_rpc_and_format_reply e jreq = Inr bs"
      using run Some ci b by (cases "call_rpc_and_format_reply e jreq") (simp_all add: process_request_def)
    obtain r ci2 where f: "process_request_finish (jreq_request_id jreq) dur (reply_of bs) now ci1 = (r, ci2)" by fastforce
    let ?s1 = "s\<lparr>srv_ci_heap := (srv_ci_heap s)(p \<mapsto> ci2), srv_handler_log := srv_handler_log s @ [(p, jreq_request_id jreq)]\<rparr>"
    have t: "sbind (sbind (write_reply nh np r c ?s1) (conn_rpc_done c))
             (\<lambda>s3. map_sum id (\<lambda>n. s3\<lparr>srv_goroutine_wg := n\<rparr>) (wg_done (srv_goroutine_wg s3))) = Inr s'"
      using run Some ci b Dispatch call f by (simp add: process_request_def)
    show ?thesis
      using conns_drop_pre [of ?s1 s, OF _ _ _ tail_drop [OF t]] tail_Inr [OF t] ins by simp
  qed
qed

subsection \<open>The pending-worker count\<close>

lemma pending_frame: "srv_workers s' = srv_workers s \<Longrightarrow> pending c s' = pending c s"
  by (simp add: pending_def)

lemma workers_ok_frame:
  "srv_workers s' = srv_workers s \<Longrightarrow> srv_conns s' = srv_conns s \<Longrightarrow> workers_ok s' = workers_ok s"
  by (simp add: workers_ok_def pending_def)

lemma workers_ok_get:
  "workers_ok s \<Longrightarrow> srv_conns s c = Some cc \<Longrightarrow> pending c s \<le> cc_active_rpcs cc"
  by (simp add: workers_ok_def)

lemma workers_ok_no_conn:
  "workers_ok s \<Longrightarrow> srv_conns s c = None \<Longrightarrow> pending c s = 0"
  by (auto simp: workers_ok_def pending_def list_all_iff filter_empty_conv)

lemma workers_ok_upd_conn:
  assumes ok: "workers_ok s" and cc: "srv_conns s c = Some cc" and le: "cc_active_rpcs cc \<le> cc_active_rpcs cc'"
    and w: "srv_workers s' = srv_workers s" and cs: "srv_conns s' = (srv_conns s)(c \<mapsto> cc')"
  shows "workers_ok s'"
  unfolding workers_ok_def
proof (intro conjI allI impI)
  show "list_all (\<lambda>w. srv_conns s' (fst (snd w)) \<noteq> None) (srv_workers s')"
    using ok w cs by (auto simp: workers_ok_def list_all_iff)
next
  fix c' cc'' assume "srv_conns s' c' = Some cc''"
  then show "pending c' s' \<le> cc_active_rpcs cc''"
    using ok cc le w cs by (cases "c' = c") (auto simp: workers_ok_def pending_frame [OF w] dest: order_trans)
qed

lemma workers_ok_accept:
  assumes ok: "workers_ok s" and c: "c \<notin> dom (srv_conns s)"
  shows "workers_ok (accept_conn c s)"
  unfolding workers_ok_def
proof (intro conjI allI impI)
  show "list_all (\<lambda>w. srv_conns (accept_conn c s) (fst (snd w)) \<noteq> None) (srv_workers (accept_conn c s))"
    using ok by (auto simp: workers_ok_def accept_conn_def list_all_iff)
next
  fix c' cc' assume "srv_conns (accept_conn c s) c' = Some cc'"
  moreover have "pending c s = 0" using ok c by (simp add: workers_ok_no_conn domIff)
  ultimately show "pending c' (accept_conn c s) \<le> cc_active_rpcs cc'"
    using ok by (cases "c' = c") (auto simp: workers_ok_def accept_conn_def pending_def)
qed

lemma workers_ok_spawn:
  assumes ok: "workers_ok s" and cc: "srv_conns s c = Some cc"
    and w: "srv_workers s' = srv_workers s @ [(p, c, buf)]"
    and cs: "srv_conns s' = (srv_conns s)(c \<mapsto> cc\<lparr>cc_active_rpcs := Suc (cc_active_rpcs cc)\<rparr>)"
  shows "workers_ok s'"
  unfolding workers_ok_def
proof (intro conjI allI impI)
  show "list_all (\<lambda>w. srv_conns s' (fst (snd w)) \<noteq> None) (srv_workers s')"
    using ok w cs by (auto simp: workers_ok_def list_all_iff)
next
  fix c' cc' assume "srv_conns s' c' = Some cc'"
  then show "pending c' s' \<le> cc_active_rpcs cc'"
    using ok cc w cs by (cases "c' = c") (auto simp: workers_ok_def pending_def)
qed

lemma workers_ok_worker:
  assumes ok: "workers_ok s" and ws: "srv_workers s = ws1 @ (p, c, buf) # ws2"
    and d: "conns_drop 1 c (s\<lparr>srv_workers := ws1 @ ws2\<rparr>) s'"
  shows "workers_ok s'"
  unfolding workers_ok_def
proof (intro conjI allI impI)
  have w': "srv_workers s' = ws1 @ ws2" and dm: "dom (srv_conns s') = dom (srv_conns s)"
    using d by (simp_all add: conns_drop_def)
  have "\<And>x. srv_conns s' x \<noteq> None \<longleftrightarrow> srv_conns s x \<noteq> None" using dm by (metis domIff)
  then show "list_all (\<lambda>w. srv_conns s' (fst (snd w)) \<noteq> None) (srv_workers s')"
    using ok ws w' by (simp add: workers_ok_def)
next
  fix c' cc' assume s': "srv_conns s' c' = Some cc'"
  have "\<exists>cc. srv_conns s c' = Some cc \<and> cc_active_rpcs cc \<le> cc_active_rpcs cc' + (if c' = c then 1 else 0)"
    using d s' unfolding conns_drop_def by fastforce
  then obtain cc where cc: "srv_conns s c' = Some cc"
    and le: "cc_active_rpcs cc \<le> cc_active_rpcs cc' + (if c' = c then 1 else 0)"
    by blast
  have "pending c' s \<le> cc_active_rpcs cc" using ok cc by (rule workers_ok_get)
  moreover have "pending c' s = pending c' s' + (if c' = c then 1 else 0)"
    using d ws by (simp add: conns_drop_def pending_def)
  ultimately show "pending c' s' \<le> cc_active_rpcs cc'" using le by (simp split: if_splits)
qed

subsection \<open>What each operation does to the invariant's fields\<close>

lemma get_client_id_HsReady:
  assumes "get_client_id e c ev s = HsReady p s'"
  obtains uid cc where "srv_conns s c = Some cc" "p = srv_next_ci s"
    "srv_ci_heap s' = (srv_ci_heap s)(p \<mapsto> new_client_info c uid)" "srv_next_ci s' = Suc (srv_next_ci s)"
    "srv_conns s' = (srv_conns s)(c \<mapsto> cc\<lparr>cc_ci := Some p\<rparr>)"
    "srv_workers s' = srv_workers s" "srv_handler_log s' = srv_handler_log s"
    "srv_per_client_info s' = (srv_per_client_info s)(uid \<mapsto> p)" "srv_goroutine_wg s' = srv_goroutine_wg s"
  using assms
  by (auto simp: get_client_id_def set_conn_ci_def Let_def
           split: read_event.splits if_splits option.splits msg_type.splits)

lemma rebind_Inr:
  assumes "rebind p c s = Some (Inr s')"
  obtains ci cc old where "srv_ci_heap s p = Some ci" "srv_conns s (ci_cctx ci) = Some old"
    "cc_service_client_exited old" "cc_active_rpcs old = 0" "srv_conns s c = Some cc"
    "srv_ci_heap s' = (srv_ci_heap s)(p \<mapsto> ci\<lparr>ci_cctx := c\<rparr>)" "srv_next_ci s' = srv_next_ci s"
    "srv_conns s' = (srv_conns s)(c \<mapsto> cc\<lparr>cc_ci := Some p\<rparr>)"
    "srv_workers s' = srv_workers s" "srv_handler_log s' = srv_handler_log s"
    "srv_per_client_info s' = srv_per_client_info s" "srv_goroutine_wg s' = srv_goroutine_wg s"
  using assms
  by (auto simp: rebind_def set_conn_ci_def sbind_def split: option.splits if_splits sum.splits)

lemma close_client_Inr:
  "close_client c s = Inr s' \<Longrightarrow>
   srv_ci_heap s' = srv_ci_heap s \<and> srv_handler_log s' = srv_handler_log s \<and> srv_next_ci s' = srv_next_ci s \<and>
   srv_conns s' = srv_conns s \<and> srv_workers s' = srv_workers s \<and> srv_per_client_info s' = srv_per_client_info s \<and>
   srv_goroutine_wg s' = srv_goroutine_wg s"
  by (auto simp: close_client_def wg_done_def split: if_splits)

text \<open>One iteration of a service loop that continues or exits: the sessions
  and the log are untouched, and the connections change only by the
  iteration's own connection, whose counter never falls; an RPC frame adds one
  worker and one in-flight request on it.\<close>

lemma service_client_iter_Inr:
  assumes "service_client_iter p c ev s = Continue s' \<or> service_client_iter p c ev s = Exit s'"
  shows "srv_ci_heap s' = srv_ci_heap s \<and> srv_handler_log s' = srv_handler_log s \<and> srv_next_ci s' = srv_next_ci s \<and>
         srv_per_client_info s' = srv_per_client_info s \<and>
         ((srv_conns s' = srv_conns s \<and> srv_workers s' = srv_workers s \<and> srv_goroutine_wg s' = srv_goroutine_wg s) \<or>
          (\<exists>cc. srv_conns s c = Some cc \<and> srv_workers s' = srv_workers s \<and> srv_goroutine_wg s' = srv_goroutine_wg s \<and>
                srv_conns s' = (srv_conns s)(c \<mapsto> cc\<lparr>cc_service_client_exited := True\<rparr>)) \<or>
          (\<exists>cc buf. srv_conns s c = Some cc \<and> srv_workers s' = srv_workers s @ [(p, c, buf)] \<and>
                srv_goroutine_wg s' = Suc (srv_goroutine_wg s) \<and>
                srv_conns s' = (srv_conns s)(c \<mapsto> cc\<lparr>cc_active_rpcs := Suc (cc_active_rpcs cc)\<rparr>)))"
  using assms
  by (auto simp: service_client_iter_def set_service_client_exited_def
           split: if_splits option.splits sum.splits read_event.splits)

lemma sessions_wf_heap_upd:
  "sessions_wf s \<Longrightarrow> wf_client_info ci' \<Longrightarrow> srv_ci_heap s' = (srv_ci_heap s)(p \<mapsto> ci') \<Longrightarrow> sessions_wf s'"
  unfolding sessions_wf_def using ran_upd_all [of "srv_ci_heap s" wf_client_info ci' p] by simp

lemma clock_all_get: "clock_all now s \<Longrightarrow> srv_ci_heap s p = Some ci \<Longrightarrow> clock_after now ci"
  unfolding clock_all_def by (auto intro: ranI)

text \<open>A worker run that returns keeps every session well formed, provided
  the clock has not gone back past a recorded completion.\<close>

lemma process_request_sessions_wf:
  assumes wf: "sessions_wf s" and clk: "clock_all now s"
    and run: "process_request e dur now nh np p c buf s = Inr s'"
  shows "sessions_wf s'"
  using process_request_Inr [OF run]
proof (elim conjE disjE exE)
  assume "srv_ci_heap s' = srv_ci_heap s"
  then show ?thesis using wf sessions_wf_frame [of s' s] by simp
next
  fix jreq ci
  assume ci: "srv_ci_heap s p = Some ci"
    and br: "case process_request_begin jreq ci of
         (Cached r, ci1) \<Rightarrow> srv_ci_heap s' = (srv_ci_heap s)(p \<mapsto> ci1) \<and> srv_handler_log s' = srv_handler_log s
       | (Dispatch, ci1) \<Rightarrow> (\<exists>b. call_rpc_and_format_reply e jreq = Inr b \<and>
            srv_ci_heap s' = (srv_ci_heap s)(p \<mapsto> snd (process_request_finish (jreq_request_id jreq) dur (reply_of b) now ci1)) \<and>
            srv_handler_log s' = srv_handler_log s @ [(p, jreq_request_id jreq)])"
  obtain b ci1 where bg: "process_request_begin jreq ci = (b, ci1)" by fastforce
  have wf0: "wf_client_info ci" using wf ci by (rule sessions_wf_get)
  have wf1: "wf_client_info ci1" using wf_process_request_begin [OF wf0, of jreq] bg by simp
  show ?thesis
  proof (cases b)
    case (Cached r)
    then show ?thesis using br bg wf wf1 by (auto intro: sessions_wf_heap_upd)
  next
    case Dispatch
    then obtain bs where h': "srv_ci_heap s' = (srv_ci_heap s)(p \<mapsto>
        snd (process_request_finish (jreq_request_id jreq) dur (reply_of bs) now ci1))"
      using br bg by auto
    have "ci_completed_request ci (jreq_request_id jreq) = None"
      using Dispatch bg process_request_begin_Dispatch_iff [of jreq ci] by simp
    then have fresh: "ci_completed_request ci1 (jreq_request_id jreq) = None"
      using process_request_begin_completed_None [of jreq ci] bg by simp
    have "clock_after now ci1"
      using clock_all_get [OF clk ci] process_request_begin_lru(1) [of jreq ci] bg
      by (simp add: clock_after_def)
    then show ?thesis
      by (rule sessions_wf_heap_upd [OF wf wf_finish_fresh [OF wf1 fresh] h'])
  qed
qed

lemma heap_bounded_frame:
  "dom (srv_ci_heap s') = dom (srv_ci_heap s) \<Longrightarrow> srv_next_ci s' = srv_next_ci s \<Longrightarrow> heap_bounded s' = heap_bounded s"
  unfolding heap_bounded_def by (metis domIff)

lemma at_most_once_new_session:
  assumes amo: "at_most_once s" and hb: "heap_bounded s"
    and h': "srv_ci_heap s' = (srv_ci_heap s)(srv_next_ci s \<mapsto> ci')" and l': "srv_handler_log s' = srv_handler_log s"
  shows "at_most_once s'"
proof -
  have "list_all (log_covered s') (srv_handler_log s)"
  proof (rule list_all_log_covered_mono)
    fix q ci rid assume q: "srv_ci_heap s q = Some ci"
      and "ci_completed_request ci rid \<noteq> None \<or> rid \<le> ci_previous_highest_reply_seen ci"
    moreover have "q \<noteq> srv_next_ci s" using hb q by (auto simp: heap_bounded_def)
    ultimately show "\<exists>ci'. srv_ci_heap s' q = Some ci' \<and>
        (ci_completed_request ci' rid \<noteq> None \<or> rid \<le> ci_previous_highest_reply_seen ci')"
      using h' by simp
  qed (use amo in \<open>simp add: at_most_once_def\<close>)
  then show ?thesis using amo l' by (simp add: at_most_once_def)
qed

lemma wf_client_info_cctx [simp]: "wf_client_info (ci\<lparr>ci_cctx := c\<rparr>) = wf_client_info ci"
  by (simp add: wf_client_info_def lru_ids_def)

lemma trim_completed_short_Inr:
  "trim_completed ttl t False ks s = Inr s' \<Longrightarrow> trim_short_sessions ks s = Inr s'"
  by (simp add: trim_completed_def split: if_splits)

lemma srv_inv_frame:
  assumes "srv_inv s" "srv_ci_heap s' = srv_ci_heap s" "srv_handler_log s' = srv_handler_log s"
    "srv_next_ci s' = srv_next_ci s" "workers_ok s'"
  shows "srv_inv s'"
  using assms at_most_once_frame [of s' s] sessions_wf_frame [of s' s] heap_bounded_frame [of s' s]
  by (simp add: srv_inv_def)

lemma srv_inv_service_iter:
  assumes inv: "srv_inv s" and it: "service_client_iter p c ev s = Continue s' \<or> service_client_iter p c ev s = Exit s'"
  shows "srv_inv s'"
proof -
  note r = service_client_iter_Inr [OF it]
  have ok: "workers_ok s" using inv by (simp add: srv_inv_def)
  from r have "workers_ok s'"
  proof (elim conjE disjE exE)
    assume "srv_conns s' = srv_conns s" "srv_workers s' = srv_workers s"
    then show ?thesis using ok workers_ok_frame [of s' s] by simp
  next
    fix cc assume a: "srv_conns s c = Some cc" and b: "srv_workers s' = srv_workers s"
      and d: "srv_conns s' = (srv_conns s)(c \<mapsto> cc\<lparr>cc_service_client_exited := True\<rparr>)"
    show ?thesis by (rule workers_ok_upd_conn [OF ok a _ b d]) simp
  next
    fix cc buf assume "srv_conns s c = Some cc" "srv_workers s' = srv_workers s @ [(p, c, buf)]"
      "srv_conns s' = (srv_conns s)(c \<mapsto> cc\<lparr>cc_active_rpcs := Suc (cc_active_rpcs cc)\<rparr>)"
    then show ?thesis using ok by (rule workers_ok_spawn [rotated])
  qed
  then show ?thesis using r by (intro srv_inv_frame [OF inv]) simp_all
qed

subsection \<open>The invariant of the reachable states\<close>

lemma srv_inv_init: "srv_inv srv_init"
  by (simp add: srv_inv_def srv_init_def at_most_once_def sessions_wf_def heap_bounded_def workers_ok_def)

lemma srv_inv_handshake:
  assumes hyp: "get_client_id e c ev s = HsReady p s'" and inv: "srv_inv s"
  shows "srv_inv s'"
proof -
  from hyp obtain uid cc where cc: "srv_conns s c = Some cc" and p: "p = srv_next_ci s"
    and h': "srv_ci_heap s' = (srv_ci_heap s)(p \<mapsto> new_client_info c uid)" and n': "srv_next_ci s' = Suc (srv_next_ci s)"
    and c': "srv_conns s' = (srv_conns s)(c \<mapsto> cc\<lparr>cc_ci := Some p\<rparr>)"
    and w': "srv_workers s' = srv_workers s" and l': "srv_handler_log s' = srv_handler_log s"
    by (rule get_client_id_HsReady)
  have "at_most_once s'" using inv h' l' p by (auto simp: srv_inv_def intro: at_most_once_new_session)
  moreover have "sessions_wf s'"
    using inv h' wf_new_client_info by (auto simp: srv_inv_def intro: sessions_wf_heap_upd)
  moreover have "heap_bounded s'"
    using inv h' n' p by (auto simp: srv_inv_def heap_bounded_def less_Suc_eq)
  moreover have "workers_ok s'"
    using inv by (intro workers_ok_upd_conn [OF _ cc _ w' c']) (simp_all add: srv_inv_def)
  ultimately show ?thesis by (simp add: srv_inv_def)
qed

lemma srv_inv_rebind:
  assumes hyp: "rebind p c s = Some (Inr s')" and inv: "srv_inv s"
  shows "srv_inv s'"
proof -
  from hyp obtain ci cc where ci: "srv_ci_heap s p = Some ci" and cc: "srv_conns s c = Some cc"
    and h': "srv_ci_heap s' = (srv_ci_heap s)(p \<mapsto> ci\<lparr>ci_cctx := c\<rparr>)" and n': "srv_next_ci s' = srv_next_ci s"
    and c': "srv_conns s' = (srv_conns s)(c \<mapsto> cc\<lparr>cc_ci := Some p\<rparr>)"
    and w': "srv_workers s' = srv_workers s" and l': "srv_handler_log s' = srv_handler_log s"
    by (rule rebind_Inr)
  have "list_all (log_covered s') (srv_handler_log s)"
    by (rule list_all_log_covered_update [OF h' ci]) (use inv in \<open>simp_all add: srv_inv_def at_most_once_def\<close>)
  then have "at_most_once s'" using inv l' by (simp add: srv_inv_def at_most_once_def)
  moreover have "sessions_wf s'"
  proof (rule sessions_wf_heap_upd [OF _ _ h'])
    show "sessions_wf s" using inv by (simp add: srv_inv_def)
    then show "wf_client_info (ci\<lparr>ci_cctx := c\<rparr>)" using ci by (simp add: sessions_wf_get)
  qed
  moreover have "heap_bounded s'"
    using inv h' n' ci by (auto simp: srv_inv_def heap_bounded_def)
  moreover have "workers_ok s'"
    using inv by (intro workers_ok_upd_conn [OF _ cc _ w' c']) (simp_all add: srv_inv_def)
  ultimately show ?thesis by (simp add: srv_inv_def)
qed

lemma srv_inv_worker:
  assumes hyp: "srv_workers s = ws1 @ (p, c, buf) # ws2" "unacknowledged e p buf s" "clock_all now s"
      "process_request e dur now nh np p c buf (s\<lparr>srv_workers := ws1 @ ws2\<rparr>) = Inr s'"
    and inv: "srv_inv s"
  shows "srv_inv s'"
proof -
  let ?s0 = "s\<lparr>srv_workers := ws1 @ ws2\<rparr>"
  have inv0: "at_most_once ?s0" "sessions_wf ?s0" "clock_all now ?s0" "unacknowledged e p buf ?s0"
    using inv hyp(2,3) at_most_once_frame [of ?s0 s] sessions_wf_frame [of ?s0 s]
    by (simp_all add: srv_inv_def clock_all_def unacknowledged_def)
  note d = process_request_drop [OF hyp(4)]
  have "at_most_once s'" using process_request_keeps_at_most_once [OF inv0(1,4) hyp(4)] .
  moreover have "sessions_wf s'" using process_request_sessions_wf [OF inv0(2,3) hyp(4)] .
  moreover have "heap_bounded s'"
    using inv d heap_bounded_frame [of s' s] by (simp add: srv_inv_def conns_drop_def)
  moreover have "workers_ok s'"
    using workers_ok_worker [of s ws1 p c buf ws2 s'] inv hyp(1) d by (simp add: srv_inv_def)
  ultimately show ?thesis by (simp add: srv_inv_def)
qed

lemma srv_step_inv:
  assumes "srv_step e s s'" and "srv_inv s"
  shows "srv_inv s'"
  using assms
proof (induction rule: srv_step.induct)
  case (accept c s)
  then show ?case
    using at_most_once_frame [of "accept_conn c s" s] sessions_wf_frame [of "accept_conn c s" s]
      heap_bounded_frame [of "accept_conn c s" s] workers_ok_accept [of s c]
    by (simp add: srv_inv_def accept_conn_def)
next
  case (handshake c ev s p s')
  then show ?case by (rule srv_inv_handshake)
next
  case (rebind p c s s')
  then show ?case by (rule srv_inv_rebind)
next
  case (loop s c cc p ev s')
  then show ?case by (blast intro: srv_inv_service_iter)
next
  case (loop_exit s c cc p ev s')
  then show ?case by (blast intro: srv_inv_service_iter)
next
  case (worker s ws1 p c buf ws2 now dur nh np s')
  then show ?case by (rule srv_inv_worker)
next
  case (trim_ack ttl t ks s s')
  note tss = trim_completed_short_Inr [OF trim_ack.hyps]
  have "at_most_once s' \<and> sessions_wf s'"
    using trim_short_sessions_inv [OF _ _ tss] trim_ack.prems by (simp add: srv_inv_def)
  moreover have "heap_bounded s' \<and> workers_ok s'"
    using trim_short_sessions_frame [OF tss] trim_ack.prems heap_bounded_frame [of s' s] workers_ok_frame [of s' s]
    by (simp add: srv_inv_def)
  ultimately show ?case by (simp add: srv_inv_def)
next
  case (close c s s')
  note fr = close_client_Inr [OF close.hyps]
  show ?case
  proof (rule srv_inv_frame [OF close.prems])
    show "workers_ok s'" using fr close.prems workers_ok_frame [of s' s] by (simp add: srv_inv_def)
  qed (use fr in simp_all)
qed

lemma srv_reach_inv: "srv_reach e s \<Longrightarrow> srv_inv s"
proof (induction rule: srv_reach.induct)
  case init
  show ?case by (rule srv_inv_init)
next
  case (step s s')
  then show ?case using srv_step_inv by blast
qed

subsection \<open>Pointer typing\<close>

lemma trim_ack_loop_cctx:
  assumes "trim_ack_loop h hi acc = Some r"
  shows "ci_cctx (fst r) = ci_cctx (fst acc)"
proof (rule trim_ack_loop.raw_induct [where P = "\<lambda>h hi acc r. ci_cctx (fst r) = ci_cctx (fst acc)", OF _ assms])
  fix f h hi acc r
  assume IH: "\<And>h hi acc r. f h hi acc = Some r \<Longrightarrow> ci_cctx (fst r) = ci_cctx (fst acc)"
    and eq: "(if h \<le> hi then f (h + 1) hi (ack_remove h acc) else Some acc) = Some r"
  have "ci_cctx (fst (ack_remove h acc)) = ci_cctx (fst acc)"
    by (simp add: ack_remove_def split: option.split)
  then show "ci_cctx (fst r) = ci_cctx (fst acc)" using eq IH by (auto split: if_splits)
qed

lemma trim_short_sessions_cctx:
  "trim_short_sessions ks s = Inr s' \<Longrightarrow> srv_ci_heap s' p = Some ci' \<Longrightarrow>
   \<exists>ci. srv_ci_heap s p = Some ci \<and> ci_cctx ci' = ci_cctx ci"
proof (induction ks arbitrary: s)
  case Nil
  then show ?case by simp
next
  case (Cons k ks)
  obtain q ci ci1 n where ci: "srv_ci_heap s q = Some ci" and r: "trim_a_client_based_ack ci = Some (ci1, n)"
    and rest: "trim_short_sessions ks (s\<lparr>srv_ci_heap := (srv_ci_heap s)(q \<mapsto> ci1)\<rparr>) = Inr s'"
    using Cons.prems(1) by (rule tss_obtain)
  have "ci_cctx ci1 = ci_cctx ci"
    using r trim_ack_loop_cctx [of "ci_previous_highest_reply_seen ci + 1" "ci_highest_reply_seen ci" "(ci, 0)"]
    by (auto simp: trim_a_client_based_ack_def)
  then show ?case using Cons.IH [OF rest Cons.prems(2)] ci by (auto split: if_splits)
qed

lemma process_request_cctx:
  assumes run: "process_request e dur now nh np p c buf s = Inr s'" and h: "srv_ci_heap s' q = Some ci'"
  shows "\<exists>ci. srv_ci_heap s q = Some ci \<and> ci_cctx ci' = ci_cctx ci"
  using process_request_Inr [OF run]
proof (elim conjE disjE exE)
  assume "srv_ci_heap s' = srv_ci_heap s"
  then show ?thesis using h by simp
next
  fix jreq ci
  assume ci: "srv_ci_heap s p = Some ci"
    and br: "case process_request_begin jreq ci of
         (Cached r, ci1) \<Rightarrow> srv_ci_heap s' = (srv_ci_heap s)(p \<mapsto> ci1) \<and> srv_handler_log s' = srv_handler_log s
       | (Dispatch, ci1) \<Rightarrow> (\<exists>b. call_rpc_and_format_reply e jreq = Inr b \<and>
            srv_ci_heap s' = (srv_ci_heap s)(p \<mapsto> snd (process_request_finish (jreq_request_id jreq) dur (reply_of b) now ci1)) \<and>
            srv_handler_log s' = srv_handler_log s @ [(p, jreq_request_id jreq)])"
  have c1: "ci_cctx (snd (process_request_begin jreq ci)) = ci_cctx ci"
    by (simp add: process_request_begin_def Let_def split: option.split)
  have c2: "\<And>rid dur ior now ci1. ci_cctx (snd (process_request_finish rid dur ior now ci1)) = ci_cctx ci1"
    by (simp add: process_request_finish_def Let_def)
  show ?thesis
    using br h ci c1 c2 by (cases "process_request_begin jreq ci") (auto split: begin_result.splits if_splits)
qed

lemma ptr_ok_frame:
  assumes ok: "ptr_ok s" and per: "srv_per_client_info s' = srv_per_client_info s"
    and hd: "\<And>p ci'. srv_ci_heap s' p = Some ci' \<Longrightarrow> \<exists>ci. srv_ci_heap s p = Some ci \<and> ci_cctx ci' = ci_cctx ci"
    and hk: "\<And>p. srv_ci_heap s p \<noteq> None \<Longrightarrow> srv_ci_heap s' p \<noteq> None"
    and cd: "\<And>c cc'. srv_conns s' c = Some cc' \<Longrightarrow> \<exists>cc. srv_conns s c = Some cc \<and> cc_ci cc' = cc_ci cc"
    and ck: "\<And>c. srv_conns s c \<noteq> None \<Longrightarrow> srv_conns s' c \<noteq> None"
    and ws: "set (srv_workers s') \<subseteq> set (srv_workers s)"
  shows "ptr_ok s'"
  unfolding ptr_ok_def
proof (intro conjI allI impI)
  fix uid p assume "srv_per_client_info s' uid = Some p"
  then have "srv_ci_heap s p \<noteq> None" using ok per unfolding ptr_ok_def by metis
  then show "srv_ci_heap s' p \<noteq> None" by (rule hk)
next
  fix c cc p assume c: "srv_conns s' c = Some cc" and p: "cc_ci cc = Some p"
  obtain cc0 where "srv_conns s c = Some cc0" "cc_ci cc = cc_ci cc0" using cd [OF c] by blast
  then have "srv_ci_heap s p \<noteq> None" using ok p unfolding ptr_ok_def by metis
  then show "srv_ci_heap s' p \<noteq> None" by (rule hk)
next
  show "list_all (\<lambda>w. srv_ci_heap s' (fst w) \<noteq> None) (srv_workers s')"
    using ok ws hk unfolding ptr_ok_def list_all_iff by blast
next
  fix p ci assume h: "srv_ci_heap s' p = Some ci"
  obtain ci0 where "srv_ci_heap s p = Some ci0" "ci_cctx ci = ci_cctx ci0" using hd [OF h] by blast
  then have "srv_conns s (ci_cctx ci) \<noteq> None" using ok unfolding ptr_ok_def by metis
  then show "srv_conns s' (ci_cctx ci) \<noteq> None" by (rule ck)
qed

lemma ptr_ok_worker:
  assumes hyp: "srv_workers s = ws1 @ (p, c, buf) # ws2" "unacknowledged e p buf s" "clock_all now s"
      "process_request e dur now nh np p c buf (s\<lparr>srv_workers := ws1 @ ws2\<rparr>) = Inr s'"
    and ok: "ptr_ok s"
  shows "ptr_ok s'"
proof -
  let ?s0 = "s\<lparr>srv_workers := ws1 @ ws2\<rparr>"
  note d = process_request_drop [OF hyp(4)]
  show ?thesis
  proof (rule ptr_ok_frame [OF ok])
    show "srv_per_client_info s' = srv_per_client_info s" using process_request_Inr [OF hyp(4)] by simp
    show "\<exists>ci. srv_ci_heap s q = Some ci \<and> ci_cctx ci' = ci_cctx ci" if "srv_ci_heap s' q = Some ci'" for q ci'
      using process_request_cctx [OF hyp(4) that] by simp
    show "srv_ci_heap s' q \<noteq> None" if "srv_ci_heap s q \<noteq> None" for q
      using d that by (auto simp: dom_def)
    show "\<exists>cc. srv_conns s c' = Some cc \<and> cc_ci cc' = cc_ci cc" if "srv_conns s' c' = Some cc'" for c' cc'
      using d that unfolding conns_drop_def by fastforce
    show "srv_conns s' c' \<noteq> None" if "srv_conns s c' \<noteq> None" for c'
      using d that unfolding conns_drop_def by (auto simp: dom_def)
    show "set (srv_workers s') \<subseteq> set (srv_workers s)"
      using d hyp(1) unfolding conns_drop_def by auto
  qed
qed

lemma ptr_ok_trim_ack:
  assumes hyp: "trim_completed ttl t False ks s = Inr s'" and ok: "ptr_ok s"
  shows "ptr_ok s'"
proof -
  note tss = trim_completed_short_Inr [OF hyp]
  note fr = trim_short_sessions_frame [OF tss]
  show ?thesis
  proof (rule ptr_ok_frame [OF ok])
    show "\<exists>ci. srv_ci_heap s q = Some ci \<and> ci_cctx ci' = ci_cctx ci" if "srv_ci_heap s' q = Some ci'" for q ci'
      using trim_short_sessions_cctx [OF tss that] .
    show "srv_ci_heap s' q \<noteq> None" if "srv_ci_heap s q \<noteq> None" for q
      using fr that by (auto simp: dom_def)
  qed (use fr in auto)
qed

lemma srv_step_ptr_ok:
  assumes "srv_step e s s'" and "ptr_ok s"
  shows "ptr_ok s'"
  using assms
proof (induction rule: srv_step.induct)
  case (accept c s)
  then show ?case by (auto simp: ptr_ok_def accept_conn_def fresh_conn_ctx_def list_all_iff)
next
  case (handshake c ev s p s')
  from handshake.hyps obtain uid cc where cc: "srv_conns s c = Some cc"
    and h': "srv_ci_heap s' = (srv_ci_heap s)(p \<mapsto> new_client_info c uid)"
    and c': "srv_conns s' = (srv_conns s)(c \<mapsto> cc\<lparr>cc_ci := Some p\<rparr>)"
    and w': "srv_workers s' = srv_workers s" and u': "srv_per_client_info s' = (srv_per_client_info s)(uid \<mapsto> p)"
    by (rule get_client_id_HsReady)
  show ?case
    using handshake.prems cc unfolding ptr_ok_def h' c' w' u' list_all_iff
    by (auto simp: new_client_info_def)
next
  case (rebind p c s s')
  from rebind.hyps obtain ci cc where ci: "srv_ci_heap s p = Some ci" and cc: "srv_conns s c = Some cc"
    and h': "srv_ci_heap s' = (srv_ci_heap s)(p \<mapsto> ci\<lparr>ci_cctx := c\<rparr>)"
    and c': "srv_conns s' = (srv_conns s)(c \<mapsto> cc\<lparr>cc_ci := Some p\<rparr>)"
    and w': "srv_workers s' = srv_workers s" and u': "srv_per_client_info s' = srv_per_client_info s"
    by (rule rebind_Inr)
  show ?case
    using rebind.prems ci cc unfolding ptr_ok_def h' c' w' u' list_all_iff by auto
next
  case (loop s c cc p ev s')
  note r = service_client_iter_Inr [OF disjI1 [OF loop.hyps(3)]]
  have hp: "srv_ci_heap s p \<noteq> None" using loop.prems loop.hyps(1,2) unfolding ptr_ok_def by metis
  show ?case
    using r loop.prems hp unfolding ptr_ok_def list_all_iff by (auto split: if_splits)
next
  case (loop_exit s c cc p ev s')
  note r = service_client_iter_Inr [OF disjI2 [OF loop_exit.hyps(3)]]
  have hp: "srv_ci_heap s p \<noteq> None" using loop_exit.prems loop_exit.hyps(1,2) unfolding ptr_ok_def by metis
  show ?case
    using r loop_exit.prems hp unfolding ptr_ok_def list_all_iff by (auto split: if_splits)
next
  case (worker s ws1 p c buf ws2 now dur nh np s')
  then show ?case by (rule ptr_ok_worker)
next
  case (trim_ack ttl t ks s s')
  then show ?case by (rule ptr_ok_trim_ack)
next
  case (close c s s')
  then show ?case using close_client_Inr [OF close.hyps] by (simp add: ptr_ok_def)
qed

lemma srv_reach_ptr_ok: "srv_reach e s \<Longrightarrow> ptr_ok s"
proof (induction rule: srv_reach.induct)
  case init
  show ?case by (simp add: ptr_ok_def srv_init_def)
next
  case (step s s')
  then show ?case using srv_step_ptr_ok by blast
qed

lemma call_rpc_and_format_reply_no_nil: "call_rpc_and_format_reply e jreq \<noteq> Inl NilDeref"
  by (simp add: call_rpc_and_format_reply_def Let_def split: option.split call_result.split)

lemma process_request_no_nil:
  assumes hp: "srv_ci_heap s p \<noteq> None" and hc: "srv_conns s c \<noteq> None"
  shows "process_request e dur now nh np p c buf s \<noteq> Inl NilDeref"
proof -
  have tail: "sbind (sbind (write_reply nh np r c s1) (conn_rpc_done c))
             (\<lambda>s3. map_sum id (\<lambda>n. s3\<lparr>srv_goroutine_wg := n\<rparr>) (wg_done (srv_goroutine_wg s3))) \<noteq> Inl NilDeref"
    if "srv_conns s1 c = srv_conns s c" for r s1
    using that hc by (auto simp: write_reply_def conn_rpc_done_def wg_done_def split: option.splits sum.splits if_splits)
  show ?thesis
  proof (cases "env_unmarshal_req e buf")
    case None
    then show ?thesis by (simp add: process_request_def wg_done_def)
  next
    case (Some jreq)
    obtain ci where ci: "srv_ci_heap s p = Some ci" using hp by blast
    obtain br ci1 where b: "process_request_begin jreq ci = (br, ci1)" by fastforce
    show ?thesis
    proof (cases br)
      case (Cached r)
      then show ?thesis using Some ci b tail [of "s\<lparr>srv_ci_heap := (srv_ci_heap s)(p \<mapsto> ci1)\<rparr>"]
        by (simp add: process_request_def)
    next
      case Dispatch
      show ?thesis
      proof (cases "call_rpc_and_format_reply e jreq")
        case (Inl err)
        then show ?thesis using Some ci b Dispatch call_rpc_and_format_reply_no_nil [of e jreq]
          by (simp add: process_request_def)
      next
        case (Inr bs)
        obtain r ci2 where f: "process_request_finish (jreq_request_id jreq) dur (reply_of bs) now ci1 = (r, ci2)"
          by fastforce
        show ?thesis
          using Some ci b Dispatch Inr f
            tail [of "s\<lparr>srv_ci_heap := (srv_ci_heap s)(p \<mapsto> ci2),
                       srv_handler_log := srv_handler_log s @ [(p, jreq_request_id jreq)]\<rparr>" r]
          by (simp add: process_request_def)
      qed
    qed
  qed
qed

subsection \<open>Progress of the dispatch workers\<close>

lemma process_request_wg:
  assumes "process_request e dur now nh np p c buf s = Inr s'"
  shows "srv_goroutine_wg s' = srv_goroutine_wg s - 1"
proof -
  have tail: "srv_goroutine_wg s' = srv_goroutine_wg s1 - 1"
    if "sbind (sbind (write_reply nh np r c s1) (conn_rpc_done c))
             (\<lambda>s3. map_sum id (\<lambda>n. s3\<lparr>srv_goroutine_wg := n\<rparr>) (wg_done (srv_goroutine_wg s3))) = Inr s'" for r s1
    using that by (auto simp: sbind_eq_Inr_iff write_reply_def conn_rpc_done_def wg_done_def
                        split: option.splits sum.splits if_splits)
  show ?thesis
  proof (cases "env_unmarshal_req e buf")
    case None
    then show ?thesis using assms by (auto simp: process_request_def wg_done_def split: if_splits)
  next
    case (Some jreq)
    then obtain ci where ci: "srv_ci_heap s p = Some ci"
      using assms by (cases "srv_ci_heap s p") (simp_all add: process_request_def)
    obtain br ci1 where b: "process_request_begin jreq ci = (br, ci1)" by fastforce
    show ?thesis
    proof (cases br)
      case (Cached r)
      then show ?thesis using assms Some ci b tail [of r "s\<lparr>srv_ci_heap := (srv_ci_heap s)(p \<mapsto> ci1)\<rparr>"]
        by (simp add: process_request_def)
    next
      case Dispatch
      then obtain bs where call: "call_rpc_and_format_reply e jreq = Inr bs"
        using assms Some ci b by (cases "call_rpc_and_format_reply e jreq") (simp_all add: process_request_def)
      obtain r ci2 where f: "process_request_finish (jreq_request_id jreq) dur (reply_of bs) now ci1 = (r, ci2)"
        by fastforce
      show ?thesis
        using assms Some ci b Dispatch call f
          tail [of r "s\<lparr>srv_ci_heap := (srv_ci_heap s)(p \<mapsto> ci2),
                       srv_handler_log := srv_handler_log s @ [(p, jreq_request_id jreq)]\<rparr>"]
        by (simp add: process_request_def)
    qed
  qed
qed

lemma srv_step_wg:
  assumes "srv_step e s s'" and "length (srv_workers s) \<le> srv_goroutine_wg s"
  shows "length (srv_workers s') \<le> srv_goroutine_wg s'"
  using assms
proof (induction rule: srv_step.induct)
  case (accept c s)
  then show ?case by (simp add: accept_conn_def)
next
  case (handshake c ev s p s')
  from handshake.hyps show ?case
    by (rule get_client_id_HsReady) (use handshake.prems in simp)
next
  case (rebind p c s s')
  from rebind.hyps show ?case
    by (rule rebind_Inr) (use rebind.prems in simp)
next
  case (loop s c cc p ev s')
  then show ?case using service_client_iter_Inr [OF disjI1 [OF loop.hyps(3)]] by auto
next
  case (loop_exit s c cc p ev s')
  then show ?case using service_client_iter_Inr [OF disjI2 [OF loop_exit.hyps(3)]] by auto
next
  case (worker s ws1 p c buf ws2 now dur nh np s')
  then show ?case
    using process_request_wg [OF worker.hyps(4)] process_request_drop [OF worker.hyps(4)]
    by (simp add: conns_drop_def)
next
  case (trim_ack ttl t ks s s')
  then show ?case using trim_short_sessions_frame [OF trim_completed_short_Inr [OF trim_ack.hyps]] by simp
next
  case (close c s s')
  then show ?case using close_client_Inr [OF close.hyps] by simp
qed

lemma srv_reach_wg: "srv_reach e s \<Longrightarrow> length (srv_workers s) \<le> srv_goroutine_wg s"
proof (induction rule: srv_reach.induct)
  case init
  show ?case by (simp add: srv_init_def)
next
  case (step s s')
  then show ?case using srv_step_wg by blast
qed

text \<open>A worker run returns when its session exists, its connection has an
  in-flight request and a goroutine is counted for it, and the handler
  returns.\<close>

lemma process_request_returns:
  assumes ci: "srv_ci_heap s p = Some ci" and cc: "srv_conns s c = Some cc" and a: "0 < cc_active_rpcs cc"
    and g: "0 < srv_goroutine_wg s"
    and call: "\<And>jreq. env_unmarshal_req e buf = Some jreq \<Longrightarrow> \<exists>b. call_rpc_and_format_reply e jreq = Inr b"
  shows "\<exists>s'. process_request e dur now nh np p c buf s = Inr s'"
proof -
  have tail: "\<exists>s'. sbind (sbind (write_reply nh np r c s1) (conn_rpc_done c))
             (\<lambda>s3. map_sum id (\<lambda>n. s3\<lparr>srv_goroutine_wg := n\<rparr>) (wg_done (srv_goroutine_wg s3))) = Inr s'"
    if "srv_conns s1 = srv_conns s" "srv_goroutine_wg s1 = srv_goroutine_wg s" for r s1
    using that cc a g by (simp add: write_reply_def conn_rpc_done_def wg_done_def)
  show ?thesis
  proof (cases "env_unmarshal_req e buf")
    case None
    then show ?thesis using g by (simp add: process_request_def wg_done_def)
  next
    case (Some jreq)
    obtain br ci1 where b: "process_request_begin jreq ci = (br, ci1)" by fastforce
    show ?thesis
    proof (cases br)
      case (Cached r)
      then show ?thesis using Some ci b tail [of "s\<lparr>srv_ci_heap := (srv_ci_heap s)(p \<mapsto> ci1)\<rparr>" r]
        by (simp add: process_request_def)
    next
      case Dispatch
      obtain bs where bs: "call_rpc_and_format_reply e jreq = Inr bs" using call [OF Some] by blast
      obtain r ci2 where f: "process_request_finish (jreq_request_id jreq) dur (reply_of bs) now ci1 = (r, ci2)"
        by fastforce
      show ?thesis
        using Some ci b Dispatch bs f
          tail [of "s\<lparr>srv_ci_heap := (srv_ci_heap s)(p \<mapsto> ci2),
                     srv_handler_log := srv_handler_log s @ [(p, jreq_request_id jreq)]\<rparr>" r]
        by (simp add: process_request_def)
    qed
  qed
qed



text \<open>C38 Reconnects are serialized (spec 8.7): when a waiting handshake
  rebinds a session to a new connection, the session's old connection has
  no worker still pending and its service loop has exited.\<close>

theorem rebind_serialized:
  assumes "srv_reach e s" and "rebind p c s = Some (Inr s')" and "srv_ci_heap s p = Some ci"
  shows "filter (\<lambda>w. fst (snd w) = ci_cctx ci) (srv_workers s) = [] \<and>
         (\<exists>old. srv_conns s (ci_cctx ci) = Some old \<and> cc_service_client_exited old)"
proof -
  from assms(2) obtain ci' old where ci': "srv_ci_heap s p = Some ci'" and old: "srv_conns s (ci_cctx ci') = Some old"
    and ex: "cc_service_client_exited old" and z: "cc_active_rpcs old = 0"
    by (rule rebind_Inr)
  have ok: "workers_ok s" using srv_reach_inv [OF assms(1)] by (simp add: srv_inv_def)
  have "pending (ci_cctx ci) s = 0" using workers_ok_get [OF ok old] z ci' assms(3) by simp
  then show ?thesis using old ex ci' assms(3) by (simp add: pending_def)
qed


text \<open>C40 Progress of the dispatch workers: in every reachable state, a
  pending worker whose handler returns can always run to completion, so the
  server can retire it with a worker step (for a request the client has not
  acknowledged, at a clock that has not gone back).\<close>

theorem reachable_worker_progress:
  assumes reach: "srv_reach e s" and ws: "srv_workers s = ws1 @ (p, c, buf) # ws2"
    and un: "unacknowledged e p buf s" and clk: "clock_all now s"
    and call: "\<And>jreq. env_unmarshal_req e buf = Some jreq \<Longrightarrow> \<exists>b. call_rpc_and_format_reply e jreq = Inr b"
  shows "\<exists>s'. srv_step e s s' \<and> srv_workers s' = ws1 @ ws2"
proof -
  let ?s0 = "s\<lparr>srv_workers := ws1 @ ws2\<rparr>"
  have "srv_ci_heap s p \<noteq> None" using srv_reach_ptr_ok [OF reach] ws by (auto simp: ptr_ok_def list_all_iff)
  then obtain ci where ci: "srv_ci_heap ?s0 p = Some ci" by auto
  have ok: "workers_ok s" using srv_reach_inv [OF reach] by (simp add: srv_inv_def)
  then obtain cc where cc: "srv_conns s c = Some cc" using ws by (auto simp: workers_ok_def list_all_iff)
  have "0 < pending c s" using ws by (simp add: pending_def)
  then have a: "0 < cc_active_rpcs cc" using workers_ok_get [OF ok cc] by simp
  have g: "0 < srv_goroutine_wg ?s0" using srv_reach_wg [OF reach] ws by simp
  have cc0: "srv_conns ?s0 c = Some cc" using cc by simp
  obtain s' where run: "process_request e 0 now 0 0 p c buf ?s0 = Inr s'"
    using process_request_returns [OF ci cc0 a g call] by blast
  have "srv_step e s s'" by (rule srv_step.worker [OF ws un clk run])
  moreover have "srv_workers s' = ws1 @ ws2" using process_request_drop [OF run] by (simp add: conns_drop_def)
  ultimately show ?thesis by blast
qed

text \<open>A run on the example environment: connection 0 is accepted, sends the
  identifier \<^verbatim>\<open>client 1\<close>, then the RPC frame \<^verbatim>\<open>req1\<close>, whose worker runs.\<close>

lemma ex_run_spawn:
  obtains s3 where "srv_reach ex_env s3" "srv_workers s3 = [] @ (0, 0, ''req1'') # []"
    "srv_ci_heap s3 = [0 \<mapsto> new_client_info 0 ''client 1'']"
    "srv_conns s3 0 = Some (fresh_conn_ctx\<lparr>cc_ci := Some 0, cc_active_rpcs := 1\<rparr>)"
    "srv_handler_log s3 = []" "srv_goroutine_wg s3 = 1" "\<not> srv_locked s3" "\<not> srv_halting s3"
    "srv_conns s3 1 = None"
proof -
  let ?s1 = "accept_conn 0 srv_init"
  have r1: "srv_reach ex_env ?s1"
    by (rule srv_reach.step [OF srv_reach.init srv_step.accept]) (simp add: srv_init_def)
  obtain s2 where g: "get_client_id ex_env 0 (RFrame PassID ''client 1'') ?s1 = HsReady 0 s2"
    by (simp add: get_client_id_def accept_conn_def srv_init_def ex_env_def set_conn_ci_def)
  have r2: "srv_reach ex_env s2" by (rule srv_reach.step [OF r1 srv_step.handshake [OF g]])
  have s2: "srv_conns s2 0 = Some (fresh_conn_ctx\<lparr>cc_ci := Some 0\<rparr>)" "\<not> srv_locked s2" "\<not> srv_halting s2"
    "srv_ci_heap s2 = [0 \<mapsto> new_client_info 0 ''client 1'']" "srv_workers s2 = []" "srv_handler_log s2 = []"
    "srv_goroutine_wg s2 = 0" "srv_conns s2 1 = None"
    using g by (auto simp: get_client_id_def accept_conn_def srv_init_def ex_env_def set_conn_ci_def fresh_conn_ctx_def)
  obtain s3 where l: "service_client_iter 0 0 (RFrame RPC ''req1'') s2 = Continue s3"
    using s2 by (simp add: service_client_iter_def)
  have r3: "srv_reach ex_env s3"
    by (rule srv_reach.step [OF r2 srv_step.loop [OF s2(1) _ l]]) simp
  have s3: "srv_workers s3 = [] @ (0, 0, ''req1'') # []" "srv_ci_heap s3 = [0 \<mapsto> new_client_info 0 ''client 1'']"
    "srv_conns s3 0 = Some (fresh_conn_ctx\<lparr>cc_ci := Some 0, cc_active_rpcs := 1\<rparr>)"
    "srv_handler_log s3 = []" "srv_goroutine_wg s3 = 1" "\<not> srv_locked s3" "\<not> srv_halting s3"
    "srv_conns s3 1 = None"
    using l s2 by (auto simp: service_client_iter_def fresh_conn_ctx_def)
  show ?thesis using that r3 s3 by blast
qed

lemma ex_run_reach:
  "\<exists>s cc ci. srv_reach ex_env s \<and> srv_handler_log s = [(0, 1)] \<and>
     srv_conns s 0 = Some cc \<and> cc_active_rpcs cc = 0 \<and> cc_ci cc = Some 0 \<and> srv_conns s 1 = None \<and>
     srv_ci_heap s 0 = Some ci \<and> ci_cctx ci = 0 \<and> \<not> srv_locked s \<and> \<not> srv_halting s"
proof -
  obtain s3 where r3: "srv_reach ex_env s3" and s3: "srv_workers s3 = [] @ (0, 0, ''req1'') # []"
    "srv_ci_heap s3 = [0 \<mapsto> new_client_info 0 ''client 1'']"
    "srv_conns s3 0 = Some (fresh_conn_ctx\<lparr>cc_ci := Some 0, cc_active_rpcs := 1\<rparr>)"
    "srv_handler_log s3 = []" "srv_goroutine_wg s3 = 1" "\<not> srv_locked s3" "\<not> srv_halting s3"
    "srv_conns s3 1 = None"
    by (rule ex_run_spawn)
  have un: "unacknowledged ex_env 0 ''req1'' s3"
    using s3(2) by (simp add: unacknowledged_def ex_env_def ex_req1_def new_client_info_def)
  have clk: "clock_all 9 s3"
    using s3(2) by (simp add: clock_all_def clock_after_def new_client_info_def)
  obtain s4 where w: "process_request ex_env 1 9 5 100 0 0 ''req1'' (s3\<lparr>srv_workers := [] @ []\<rparr>) = Inr s4"
    using s3 by (simp add: process_request_def ex_env_def ex_req1_def process_request_begin_def
         process_request_finish_def call_rpc_and_format_reply_def write_reply_def conn_rpc_done_def
         wg_done_def fresh_conn_ctx_def new_client_info_def Let_def)
  have "srv_reach ex_env s4" by (rule srv_reach.step [OF r3 srv_step.worker [OF s3(1) un clk w]])
  moreover have "srv_handler_log s4 = [(0, 1)] \<and>
     (\<exists>cc. srv_conns s4 0 = Some cc \<and> cc_active_rpcs cc = 0 \<and> cc_ci cc = Some 0) \<and> srv_conns s4 1 = None \<and>
     (\<exists>ci. srv_ci_heap s4 0 = Some ci \<and> ci_cctx ci = 0) \<and> \<not> srv_locked s4 \<and> \<not> srv_halting s4"
    using w s3
    by (simp add: process_request_def ex_env_def ex_req1_def process_request_begin_def
         process_request_finish_def call_rpc_and_format_reply_def write_reply_def conn_rpc_done_def
         wg_done_def fresh_conn_ctx_def new_client_info_def Let_def)
       (erule subst, simp)
  ultimately show ?thesis by blast
qed

text \<open>The same run continued: connection 0 fails, its loop exits, connection 1
  is accepted, and the session can be rebound to it.\<close>

lemma ex_rebind_reach:
  "\<exists>s s' ci. srv_reach ex_env s \<and> rebind 0 1 s = Some (Inr s') \<and> srv_ci_heap s 0 = Some ci"
proof -
  obtain s cc ci where r: "srv_reach ex_env s" and cc: "srv_conns s 0 = Some cc" "cc_active_rpcs cc = 0"
    "cc_ci cc = Some 0" and n1: "srv_conns s 1 = None" and ci: "srv_ci_heap s 0 = Some ci" "ci_cctx ci = 0"
    using ex_run_reach by blast
  let ?s5 = "s\<lparr>srv_conns := (srv_conns s)(0 \<mapsto> cc\<lparr>cc_service_client_exited := True\<rparr>)\<rparr>"
  have it: "service_client_iter 0 0 RError s = Exit ?s5"
    using cc by (simp add: service_client_iter_def set_service_client_exited_def)
  have r5: "srv_reach ex_env ?s5" by (rule srv_reach.step [OF r srv_step.loop_exit [OF cc(1) cc(3) it]])
  have r6: "srv_reach ex_env (accept_conn 1 ?s5)"
    by (rule srv_reach.step [OF r5 srv_step.accept]) (use n1 in \<open>simp add: domIff\<close>)
  obtain s' where "rebind 0 1 (accept_conn 1 ?s5) = Some (Inr s')"
    using cc ci by (simp add: rebind_def accept_conn_def set_conn_ci_def)
  moreover have "srv_ci_heap (accept_conn 1 ?s5) 0 = Some ci" using ci by (simp add: accept_conn_def)
  ultimately show ?thesis using r6 by blast
qed


theorem rebind_serialized_witness:
  "\<exists>s s' ci. srv_reach ex_env s \<and> rebind 0 1 s = Some (Inr s') \<and> srv_ci_heap s 0 = Some ci \<and>
     filter (\<lambda>w. fst (snd w) = ci_cctx ci) (srv_workers s) = [] \<and>
     (\<exists>old. srv_conns s (ci_cctx ci) = Some old \<and> cc_service_client_exited old)"
  using ex_rebind_reach rebind_serialized by blast


theorem reachable_worker_progress_witness:
  "\<exists>s. srv_reach ex_env s \<and> srv_workers s = [] @ (0, 0, ''req1'') # [] \<and>
     (\<exists>s'. srv_step ex_env s s' \<and> srv_workers s' = [] @ [])"
proof -
  obtain s where r: "srv_reach ex_env s" and w: "srv_workers s = [] @ (0, 0, ''req1'') # []"
    and h: "srv_ci_heap s = [0 \<mapsto> new_client_info 0 ''client 1'']"
    by (rule ex_run_spawn)
  have un: "unacknowledged ex_env 0 ''req1'' s"
    using h by (simp add: unacknowledged_def ex_env_def ex_req1_def new_client_info_def)
  have clk: "clock_all 9 s"
    using h by (simp add: clock_all_def clock_after_def new_client_info_def)
  have call: "\<exists>b. call_rpc_and_format_reply ex_env jreq = Inr b"
    if "env_unmarshal_req ex_env ''req1'' = Some jreq" for jreq
    using that by (simp add: ex_env_def ex_req1_def call_rpc_and_format_reply_def Let_def split: if_splits)
  show ?thesis
    using reachable_worker_progress [OF r w un clk call] r w by blast
qed

end
