(* ===== verification/Server_Shutdown.thy ===== *)
theory Server_Shutdown
  imports Server_Steps
begin

text \<open>
  Closing the client sockets at shutdown, \<^verbatim>\<open>closeClientConn\<close> of
  \<^verbatim>\<open>src/retryrpc/server.go\<close> (lines 398--406): under the connection lock
  every connection on \<^verbatim>\<open>server.connections\<close> is closed, so that the
  goroutines blocked reading them wake up with a read error. The sockets are
  not part of the server state of \<open>Service\<close>; the model is the set of
  connections the call closes, and the wake-up is the read event
  \<open>RError\<close> that a read on a closed socket returns.

  Lemmas: in every reachable state the listed connections have a connection
  context, so after \<^verbatim>\<open>closeClientConn\<close> each of them is woken: a connection
  still in its handshake fails it, and a connection with a service loop can
  always take the loop's exit step, which marks the loop as exited.
\<close>

definition close_client_conn :: "server \<Rightarrow> conn_ptr set" where
  "close_client_conn s = set (srv_connections s)"

text \<open>Every listed connection has a connection context.\<close>

definition conns_listed :: "server \<Rightarrow> bool" where
  "conns_listed s \<longleftrightarrow> set (srv_connections s) \<subseteq> dom (srv_conns s)"

subsection \<open>The connection list under the steps\<close>

lemma get_client_id_connections:
  "get_client_id e c ev s = HsReady p s' \<Longrightarrow> srv_connections s' = srv_connections s"
  by (auto simp: get_client_id_def set_conn_ci_def Let_def
      split: read_event.splits if_splits option.splits sum.splits)

lemma rebind_connections:
  "rebind p c s = Some (Inr s') \<Longrightarrow> srv_connections s' = srv_connections s"
  by (auto simp: rebind_def set_conn_ci_def split: option.splits if_splits sum.splits)

lemma service_client_iter_connections:
  "service_client_iter p c ev s = Continue s' \<or> service_client_iter p c ev s = Exit s' \<Longrightarrow>
   srv_connections s' = srv_connections s"
  by (auto simp: service_client_iter_def set_service_client_exited_def
      split: if_splits option.splits sum.splits read_event.splits)

lemma tail_connections:
  "sbind (sbind (write_reply nh np r c s1) (conn_rpc_done c))
     (\<lambda>s3. map_sum id (\<lambda>n. s3\<lparr>srv_goroutine_wg := n\<rparr>) (wg_done (srv_goroutine_wg s3))) = Inr s' \<Longrightarrow>
   srv_connections s' = srv_connections s1"
  by (auto simp: sbind_eq_Inr_iff write_reply_def conn_rpc_done_def wg_done_def split: option.splits if_splits sum.splits)

lemma process_request_connections:
  assumes run: "process_request e dur now nh np p c buf s = Inr s'"
  shows "srv_connections s' = srv_connections s"
proof (cases "env_unmarshal_req e buf")
  case None
  then show ?thesis using run by (auto simp: process_request_def wg_done_def split: if_splits)
next
  case (Some jreq)
  then obtain ci where ci: "srv_ci_heap s p = Some ci"
    using run by (cases "srv_ci_heap s p") (simp_all add: process_request_def)
  obtain br ci1 where b: "process_request_begin jreq ci = (br, ci1)" by fastforce
  show ?thesis
  proof (cases br)
    case (Cached r)
    show ?thesis using run Some ci b Cached tail_connections [of nh np r c "s\<lparr>srv_ci_heap := (srv_ci_heap s)(p \<mapsto> ci1)\<rparr>" s']
      by (simp add: process_request_def)
  next
    case Dispatch
    then obtain bs where call: "call_rpc_and_format_reply e jreq = Inr bs"
      using run Some ci b by (cases "call_rpc_and_format_reply e jreq") (simp_all add: process_request_def)
    obtain r ci2 where f: "process_request_finish (jreq_request_id jreq) dur (reply_of bs) now ci1 = (r, ci2)" by fastforce
    show ?thesis using run Some ci b Dispatch call f
        tail_connections [of nh np r c "s\<lparr>srv_ci_heap := (srv_ci_heap s)(p \<mapsto> ci2),
          srv_handler_log := srv_handler_log s @ [(p, jreq_request_id jreq)]\<rparr>" s']
      by (simp add: process_request_def)
  qed
qed

lemma trim_short_sessions_connections:
  "trim_short_sessions ks s = Inr s' \<Longrightarrow> srv_connections s' = srv_connections s"
proof (induction ks arbitrary: s)
  case (Cons k ks)
  then show ?case by (auto split: option.splits)
qed simp

subsection \<open>Reachable states\<close>

lemma srv_step_conns_listed:
  assumes "srv_step e s s'" "conns_listed s"
  shows "conns_listed s'"
  using assms
proof (induction rule: srv_step.induct)
  case (accept c s)
  then show ?case by (auto simp: conns_listed_def accept_conn_def)
next
  case (handshake c ev s p s')
  then show ?case using get_client_id_connections [OF handshake.hyps]
    by (elim get_client_id_HsReady) (auto simp: conns_listed_def)
next
  case (rebind p c s s')
  then show ?case using rebind_connections [OF rebind.hyps]
    by (elim rebind_Inr) (auto simp: conns_listed_def)
next
  case (loop s c cc p ev s')
  then show ?case using service_client_iter_connections [of p c ev s s'] service_client_iter_Inr [of p c ev s s']
    by (auto simp: conns_listed_def)
next
  case (loop_exit s c cc p ev s')
  then show ?case using service_client_iter_connections [of p c ev s s'] service_client_iter_Inr [of p c ev s s']
    by (auto simp: conns_listed_def)
next
  case (worker s ws1 p c buf ws2 now dur nh np s')
  then show ?case using process_request_connections [OF worker.hyps(4)] process_request_drop [OF worker.hyps(4)]
    by (auto simp: conns_listed_def conns_drop_def)
next
  case (trim_ack ttl t ks s s')
  then have "trim_short_sessions ks s = Inr s'" by (simp add: trim_completed_def split: if_splits)
  then show ?case using trim_ack.prems trim_short_sessions_connections trim_short_sessions_frame
    by (simp add: conns_listed_def)
next
  case (close c s s')
  then show ?case using close_client_Inr [OF close.hyps]
    by (auto simp: conns_listed_def close_client_def wg_done_def split: if_splits)
qed

lemma srv_reach_conns_listed: "srv_reach e s \<Longrightarrow> conns_listed s"
proof (induction rule: srv_reach.induct)
  case init
  show ?case by (simp add: conns_listed_def srv_init_def)
next
  case (step s s')
  then show ?case using srv_step_conns_listed by blast
qed

text \<open>After \<^verbatim>\<open>closeClientConn\<close> in a reachable state, every connection it
  closed is woken by the read error: one still in its handshake fails the
  handshake (\<^verbatim>\<open>run\<close> then calls \<^verbatim>\<open>closeClient\<close>), and one with a
  service loop can take the loop's exit step, which marks the loop as
  exited.\<close>

lemma close_client_conn_wakes:
  assumes "srv_reach e s" "c \<in> close_client_conn s"
  shows "\<exists>cc. srv_conns s c = Some cc \<and>
           (case cc_ci cc of
              None \<Rightarrow> get_client_id e c RError s = HsErr
            | Some p \<Rightarrow> \<exists>s'. srv_step e s s' \<and> service_client_iter p c RError s = Exit s' \<and>
                         srv_conns s' = (srv_conns s)(c \<mapsto> cc\<lparr>cc_service_client_exited := True\<rparr>))"
proof -
  obtain cc where cc: "srv_conns s c = Some cc"
    using srv_reach_conns_listed [OF assms(1)] assms(2) by (auto simp: conns_listed_def close_client_conn_def)
  show ?thesis
  proof (cases "cc_ci cc")
    case None
    then show ?thesis using cc by (simp add: get_client_id_def)
  next
    case (Some p)
    let ?s' = "s\<lparr>srv_conns := (srv_conns s)(c \<mapsto> cc\<lparr>cc_service_client_exited := True\<rparr>)\<rparr>"
    have it: "service_client_iter p c RError s = Exit ?s'"
      using cc by (simp add: service_client_iter_def set_service_client_exited_def)
    have "srv_step e s ?s'" by (rule srv_step.loop_exit [OF cc Some it])
    then show ?thesis using cc Some it by auto
  qed
qed

end
