(* ===== verification/Swift_Emulator.thy ===== *)
theory Swift_Emulator
  imports RPC_Prelude "HOL-Library.List_Lexorder" "HOL-Library.Char_ord"
begin

text \<open>
  The in-memory OpenStack Swift emulator of \<^verbatim>\<open>src/iswift/iswiftpkg/impl.go\<close>
  (used by \<^verbatim>\<open>ramswift\<close> and the tests of the surrounding repository): a map of
  accounts, each an ordered tree of containers, each an ordered tree of
  objects, served over HTTP under one global lock.

  \<^item> The \<^verbatim>\<open>sortedmap.LLRBTree\<close> trees (ordered by
    \<^verbatim>\<open>sortedmap.CompareString\<close>, i.e. bytewise) are association lists sorted by
    key, \<open>'v omap\<close>; \<^verbatim>\<open>GetByKey\<close>, \<^verbatim>\<open>Put\<close> of an absent key,
    \<^verbatim>\<open>DeleteByKey\<close>, \<^verbatim>\<open>Len\<close>, \<^verbatim>\<open>GetByIndex\<close> and \<^verbatim>\<open>BisectRight\<close>
    are list operations. Pointers to accounts, containers and objects are only
    ever followed under the global lock, so a mutation through a pointer is an
    update of the tree entry it came from.
  \<^item> An \<^verbatim>\<open>http.Header\<close> (a Go map from names to value lists) is an
    association list with distinct names, in the order Go's map iteration
    happens to visit them.
  \<^item> A response records the status passed to the first \<^verbatim>\<open>WriteHeader\<close>
    (\<^verbatim>\<open>Write\<close> without it sends 200), the response headers, which are frozen
    once the status is sent, and the body. A handler that panics (a slice out
    of range) has no response: \<open>None\<close>.
  \<^item> Configuration values are \<^verbatim>\<open>uint64\<close>, \<open>64 word\<close>; the nonce of the
    authentication token is a \<^verbatim>\<open>uint32\<close>, \<open>32 word\<close>; offsets of byte ranges
    are Go \<^verbatim>\<open>int64\<close> values (\<open>int\<close>) until they are stored as \<^verbatim>\<open>uint64\<close>.
\<close>

subsection \<open>Ordered maps\<close>

type_synonym 'v omap = "(string \<times> 'v) list"

definition omap_get :: "'v omap \<Rightarrow> string \<Rightarrow> 'v option" where
  "omap_get t k = map_of t k"

fun omap_insert :: "string \<Rightarrow> 'v \<Rightarrow> 'v omap \<Rightarrow> 'v omap" where
  "omap_insert k v [] = [(k, v)]"
| "omap_insert k v ((k', v') # t) =
     (if k < k' then (k, v) # (k', v') # t else (k', v') # omap_insert k v t)"

definition omap_delete :: "string \<Rightarrow> 'v omap \<Rightarrow> 'v omap" where
  "omap_delete k t = filter (\<lambda>p. fst p \<noteq> k) t"

definition omap_set :: "string \<Rightarrow> 'v \<Rightarrow> 'v omap \<Rightarrow> 'v omap" where
  "omap_set k v t = map (\<lambda>p. if fst p = k then (k, v) else p) t"

text \<open>\<^verbatim>\<open>BisectRight(key)\<close>: the index of the first key not below \<open>key\<close>, and
  whether that key is \<open>key\<close> itself.\<close>

definition bisect_right :: "string \<Rightarrow> 'v omap \<Rightarrow> nat \<times> bool" where
  "bisect_right k t =
     (let i = length (takeWhile (\<lambda>p. fst p < k) t) in (i, i < length t \<and> fst (t ! i) = k))"

definition omap_wf :: "'v omap \<Rightarrow> bool" where
  "omap_wf t \<longleftrightarrow> sorted_wrt (<) (map fst t)"

subsection \<open>Go library functions\<close>

text \<open>\<^verbatim>\<open>strings.SplitN(s, sep, n)\<close> for a one-byte separator.\<close>

fun split_n :: "char \<Rightarrow> nat \<Rightarrow> string \<Rightarrow> string list" where
  "split_n c 0 s = []"
| "split_n c (Suc 0) s = [s]"
| "split_n c (Suc (Suc n)) s =
     (if c \<in> set s then takeWhile (\<lambda>x. x \<noteq> c) s # split_n c (Suc n) (tl (dropWhile (\<lambda>x. x \<noteq> c) s))
      else [s])"

definition has_prefix :: "string \<Rightarrow> string \<Rightarrow> bool" where
  "has_prefix s p \<longleftrightarrow> take (length p) s = p"

text \<open>\<^verbatim>\<open>strconv.Atoi\<close> on a 64-bit platform: an optional sign and at least
  one decimal digit, in the range of \<^verbatim>\<open>int64\<close>.\<close>

definition is_digit :: "char \<Rightarrow> bool" where
  "is_digit c \<longleftrightarrow> CHR ''0'' \<le> c \<and> c \<le> CHR ''9''"

definition digits_value :: "string \<Rightarrow> int" where
  "digits_value ds = foldl (\<lambda>a c. a * 10 + int (of_char c) - 48) 0 ds"

definition atoi :: "string \<Rightarrow> int option" where
  "atoi s =
     (let (neg, ds) = (case s of c # r \<Rightarrow> if c = CHR ''-'' then (True, r) else if c = CHR ''+'' then (False, r) else (False, s)
                              | [] \<Rightarrow> (False, []));
          v = (if neg then - digits_value ds else digits_value ds)
      in if ds = [] \<or> \<not> list_all is_digit ds \<or> v < - (2 ^ 63) \<or> 2 ^ 63 - 1 < v then None else Some v)"

text \<open>\<^verbatim>\<open>fmt.Sprintf("%08x", n)\<close> of a \<^verbatim>\<open>uint32\<close>: eight lower-case hex digits.\<close>

definition hex_digit :: "nat \<Rightarrow> char" where
  "hex_digit d = (if d < 10 then char_of (48 + d) else char_of (87 + d))"

definition hex8 :: "32 word \<Rightarrow> string" where
  "hex8 w = map (\<lambda>i. hex_digit ((unat w div 16 ^ (7 - i)) mod 16)) [0..<8]"

text \<open>\<^verbatim>\<open>strconv.Itoa(int(x))\<close> of a \<^verbatim>\<open>uint64\<close>: the conversion to \<^verbatim>\<open>int\<close>
  reads the bits as a signed value.\<close>

fun nat_to_decimal :: "nat \<Rightarrow> string" where
  "nat_to_decimal n =
     (if n < 10 then [char_of (48 + n)] else nat_to_decimal (n div 10) @ [char_of (48 + n mod 10)])"

declare nat_to_decimal.simps [simp del]

definition itoa :: "int \<Rightarrow> string" where
  "itoa i = (if i < 0 then CHR ''-'' # nat_to_decimal (nat (- i)) else nat_to_decimal (nat i))"

subsection \<open>The store\<close>

type_synonym http_header = "(string \<times> string list) list"

record swift_object =
  so_headers :: http_header
  so_contents :: bytes

record swift_container =
  sc_headers :: http_header
  sc_objects :: "swift_object omap"

record swift_account =
  sa_headers :: http_header
  sa_containers :: "swift_container omap"

record swift_config =
  cfg_swift_proxy_ip_addr :: string
  cfg_swift_proxy_tcp_port :: "16 word"
  cfg_max_account_name_length :: "64 word"
  cfg_max_container_name_length :: "64 word"
  cfg_max_object_name_length :: "64 word"
  cfg_account_listing_limit :: "64 word"
  cfg_container_listing_limit :: "64 word"

record swift_globals =
  g_config :: swift_config
  g_auth_nonce :: "32 word"
  g_auth_token :: string
  g_accounts :: "string \<rightharpoonup> swift_account"

datatype errno = ENOENT | EEXIST | ENOTEMPTY

definition fixed_auth_token_prefix :: string where
  "fixed_auth_token_prefix = ''AUTH_tk0123456789abcde012345678''"

definition fixed_user_to_account_prefix :: string where
  "fixed_user_to_account_prefix = ''AUTH_''"

subsection \<open>Authentication token\<close>

text \<open>\<^verbatim>\<open>forceReAuth\<close> (lines 114--119): the nonce is incremented, wrapping at
  \<open>2^32\<close>, and the token rebuilt from it.\<close>

definition force_re_auth :: "swift_globals \<Rightarrow> swift_globals" where
  "force_re_auth g =
     (let n = g_auth_nonce g + 1 in g\<lparr>g_auth_nonce := n, g_auth_token := fixed_auth_token_prefix @ hex8 n\<rparr>)"

text \<open>\<^verbatim>\<open>initializeGlobals\<close>, lines 160--163, once the configuration has been
  read.\<close>

definition initialize_globals :: "swift_config \<Rightarrow> swift_globals" where
  "initialize_globals cfg =
     \<lparr>g_config = cfg, g_auth_nonce = 0, g_auth_token = fixed_auth_token_prefix @ hex8 0,
      g_accounts = Map.empty\<rparr>"

subsection \<open>Accounts, containers and objects\<close>

definition empty_account :: swift_account where
  "empty_account = \<lparr>sa_headers = [], sa_containers = []\<rparr>"

definition empty_container :: swift_container where
  "empty_container = \<lparr>sc_headers = [], sc_objects = []\<rparr>"

definition empty_object :: swift_object where
  "empty_object = \<lparr>so_headers = [], so_contents = []\<rparr>"

definition locate_swift_account :: "swift_globals \<Rightarrow> string \<Rightarrow> errno + swift_account" where
  "locate_swift_account g n = (case g_accounts g n of None \<Rightarrow> Inl ENOENT | Some a \<Rightarrow> Inr a)"

definition create_swift_account :: "swift_globals \<Rightarrow> string \<Rightarrow> errno + swift_globals" where
  "create_swift_account g n =
     (if g_accounts g n \<noteq> None then Inl EEXIST
      else Inr (g\<lparr>g_accounts := (g_accounts g)(n \<mapsto> empty_account)\<rparr>))"

definition create_or_locate_swift_account :: "swift_globals \<Rightarrow> string \<Rightarrow> (swift_account \<times> bool) \<times> swift_globals" where
  "create_or_locate_swift_account g n =
     (case g_accounts g n of
        Some a \<Rightarrow> ((a, False), g)
      | None \<Rightarrow> ((empty_account, True), g\<lparr>g_accounts := (g_accounts g)(n \<mapsto> empty_account)\<rparr>))"

definition delete_swift_account :: "swift_globals \<Rightarrow> string \<Rightarrow> bool \<Rightarrow> errno + swift_globals" where
  "delete_swift_account g n force =
     (case g_accounts g n of
        None \<Rightarrow> Inl ENOENT
      | Some a \<Rightarrow>
          (if \<not> force \<and> length (sa_containers a) \<noteq> 0 then Inl ENOTEMPTY
           else Inr (g\<lparr>g_accounts := (g_accounts g)(n := None)\<rparr>)))"

definition locate_swift_container :: "swift_account \<Rightarrow> string \<Rightarrow> errno + swift_container" where
  "locate_swift_container a n = (case omap_get (sa_containers a) n of None \<Rightarrow> Inl ENOENT | Some c \<Rightarrow> Inr c)"

definition create_swift_container :: "swift_account \<Rightarrow> string \<Rightarrow> errno + swift_account" where
  "create_swift_container a n =
     (if omap_get (sa_containers a) n \<noteq> None then Inl EEXIST
      else Inr (a\<lparr>sa_containers := omap_insert n empty_container (sa_containers a)\<rparr>))"

definition create_or_locate_swift_container ::
  "swift_account \<Rightarrow> string \<Rightarrow> (swift_container \<times> bool) \<times> swift_account" where
  "create_or_locate_swift_container a n =
     (case omap_get (sa_containers a) n of
        Some c \<Rightarrow> ((c, False), a)
      | None \<Rightarrow> ((empty_container, True), a\<lparr>sa_containers := omap_insert n empty_container (sa_containers a)\<rparr>))"

definition delete_swift_container :: "swift_account \<Rightarrow> string \<Rightarrow> errno + swift_account" where
  "delete_swift_container a n =
     (case omap_get (sa_containers a) n of
        None \<Rightarrow> Inl ENOENT
      | Some c \<Rightarrow>
          (if length (sc_objects c) \<noteq> 0 then Inl ENOTEMPTY
           else Inr (a\<lparr>sa_containers := omap_delete n (sa_containers a)\<rparr>)))"

definition locate_swift_object :: "swift_container \<Rightarrow> string \<Rightarrow> errno + swift_object" where
  "locate_swift_object c n = (case omap_get (sc_objects c) n of None \<Rightarrow> Inl ENOENT | Some ob \<Rightarrow> Inr ob)"

definition create_swift_object :: "swift_container \<Rightarrow> string \<Rightarrow> errno + swift_container" where
  "create_swift_object c n =
     (if omap_get (sc_objects c) n \<noteq> None then Inl EEXIST
      else Inr (c\<lparr>sc_objects := omap_insert n empty_object (sc_objects c)\<rparr>))"

definition create_or_locate_swift_object ::
  "swift_container \<Rightarrow> string \<Rightarrow> (swift_object \<times> bool) \<times> swift_container" where
  "create_or_locate_swift_object c n =
     (case omap_get (sc_objects c) n of
        Some ob \<Rightarrow> ((ob, False), c)
      | None \<Rightarrow> ((empty_object, True), c\<lparr>sc_objects := omap_insert n empty_object (sc_objects c)\<rparr>))"

definition delete_swift_object :: "swift_container \<Rightarrow> string \<Rightarrow> errno + swift_container" where
  "delete_swift_object c n =
     (case omap_get (sc_objects c) n of
        None \<Rightarrow> Inl ENOENT
      | Some _ \<Rightarrow> Inr (c\<lparr>sc_objects := omap_delete n (sc_objects c)\<rparr>))"

subsection \<open>Request paths and ranges\<close>

text \<open>\<^verbatim>\<open>parsePath\<close> (lines 310--342): \<^verbatim>\<open>/info\<close>, or
  \<^verbatim>\<open>/v1/account[/container[/object]]\<close>, the object name keeping any further
  slashes.\<close>

definition parse_path :: "string \<Rightarrow> bool \<times> string \<times> string \<times> string" where
  "parse_path p =
     (if p = ''/info'' then (True, [], [], [])
      else if has_prefix p ''/v1/'' then
        (let ps = split_n CHR ''/'' 3 (drop 4 p)
         in (False, ps ! 0, (if length ps = 1 then [] else ps ! 1), (if length ps \<le> 2 then [] else ps ! 2)))
      else (False, [], [], []))"

text \<open>\<^verbatim>\<open>http.Header.Get\<close>: the first value of the name, or the empty string.\<close>

definition header_get :: "http_header \<Rightarrow> string \<Rightarrow> string" where
  "header_get hs n = (case map_of hs n of Some (v # _) \<Rightarrow> v | _ \<Rightarrow> [])"

fun sequence_sum :: "('e + 'a) list \<Rightarrow> 'e + 'a list" where
  "sequence_sum [] = Inr []"
| "sequence_sum (x # xs) = sbind x (\<lambda>a. sbind (sequence_sum xs) (\<lambda>as. Inr (a # as)))"

text \<open>
  One range of a \<^verbatim>\<open>Range\<close> header (loop body of \<^verbatim>\<open>parseRangeHeader\<close>,
  lines 376--424), against an object of \<open>len\<close> bytes: \<open>-1\<close> marks an absent
  bound; offsets are \<^verbatim>\<open>int64\<close> until they are stored as \<^verbatim>\<open>uint64\<close>.
\<close>

definition parse_one_range :: "nat \<Rightarrow> string \<Rightarrow> unit + 64 word \<times> 64 word" where
  "parse_one_range len rs =
     (let sl = split_n CHR ''-'' 2 rs in
      if length sl \<noteq> 2 then Inl ()
      else (case (if sl ! 0 = [] then Some (- 1) else atoi (sl ! 0),
                  if sl ! 1 = [] then Some (- 1) else atoi (sl ! 1)) of
              (Some st, Some sp) \<Rightarrow>
                (if (st < 0 \<and> sp < 0) \<or> sp < st then Inl ()
                 else if st < 0 then
                   (if int len - sp < 0 then Inl ()
                    else Inr (word_of_int (int len - sp), word_of_int (int len - 1)))
                 else if sp < 0 then Inr (word_of_int st, word_of_int (int len - 1))
                 else Inr (word_of_int st, word_of_int (if int len - 1 < sp then int len - 1 else sp)))
            | _ \<Rightarrow> Inl ()))"

text \<open>\<^verbatim>\<open>parseRangeHeader\<close> (lines 344--429): no header is no range; the
  value must start with \<^verbatim>\<open>bytes=\<close> and is split at the first comma.\<close>

definition parse_range_header :: "http_header \<Rightarrow> nat \<Rightarrow> unit + (64 word \<times> 64 word) list" where
  "parse_range_header hs len =
     (let v = header_get hs ''Range'' in
      if v = [] then Inr []
      else if \<not> has_prefix v ''bytes='' then Inl ()
      else sequence_sum (map (parse_one_range len) (split_n CHR '','' 2 (drop 6 v))))"

text \<open>The Go slice expression \<open>xs[lo:hi]\<close> on \<^verbatim>\<open>uint64\<close> bounds: it panics
  unless \<open>lo \<le> hi \<le> len(xs)\<close> (the capacity exceeds the length only where
  \<open>hi\<close> is below the length in the uses below).\<close>

definition go_slice :: "bytes \<Rightarrow> 64 word \<Rightarrow> 64 word \<Rightarrow> bytes option" where
  "go_slice xs lo hi = (if lo \<le> hi \<and> unat hi \<le> length xs then Some (drop (unat lo) (take (unat hi) xs)) else None)"

subsection \<open>Headers and responses\<close>

definition header_name_ignore_set :: "string list" where
  "header_name_ignore_set = [''Accept'', ''Accept-Encoding'', ''User-Agent'', ''Content-Length'']"

definition hdr_put :: "string \<Rightarrow> string list \<Rightarrow> http_header \<Rightarrow> http_header" where
  "hdr_put n vs hs = (if n \<in> fst ` set hs then map (\<lambda>p. if fst p = n then (n, vs) else p) hs else hs @ [(n, vs)])"

definition hdr_delete :: "string \<Rightarrow> http_header \<Rightarrow> http_header" where
  "hdr_delete n hs = filter (\<lambda>p. fst p \<noteq> n) hs"

text \<open>One iteration of the header loop that POST and PUT share (e.g. lines
  1130--1146): a header that is not ignored and has values replaces the
  stored one by its non-empty values, or deletes it when all are empty.\<close>

definition header_update :: "http_header \<Rightarrow> string \<times> string list \<Rightarrow> http_header" where
  "header_update hs nv =
     (let (n, vals) = nv in
      if n \<in> set header_name_ignore_set \<or> vals = [] then hs
      else (let vs = filter (\<lambda>v. v \<noteq> []) vals in if vs = [] then hdr_delete n hs else hdr_put n vs hs))"

definition merge_headers :: "http_header \<Rightarrow> http_header \<Rightarrow> http_header" where
  "merge_headers hs req = foldl header_update hs req"

record http_response =
  rs_status :: "nat option"
  rs_headers :: http_header
  rs_body :: bytes

definition empty_response :: http_response where
  "empty_response = \<lparr>rs_status = None, rs_headers = [], rs_body = []\<rparr>"

definition write_header :: "nat \<Rightarrow> http_response \<Rightarrow> http_response" where
  "write_header st r = (case rs_status r of None \<Rightarrow> r\<lparr>rs_status := Some st\<rparr> | Some _ \<Rightarrow> r)"

definition write_body :: "bytes \<Rightarrow> http_response \<Rightarrow> http_response" where
  "write_body b r = (write_header 200 r)\<lparr>rs_body := rs_body r @ b\<rparr>"

definition resp_add :: "string \<Rightarrow> string \<Rightarrow> http_response \<Rightarrow> http_response" where
  "resp_add n v r =
     (if rs_status r = None then
        r\<lparr>rs_headers := (case map_of (rs_headers r) n of
                           None \<Rightarrow> rs_headers r @ [(n, [v])]
                         | Some vs \<Rightarrow> hdr_put n (vs @ [v]) (rs_headers r))\<rparr>
      else r)"

definition resp_set :: "string \<Rightarrow> string \<Rightarrow> http_response \<Rightarrow> http_response" where
  "resp_set n v r = (if rs_status r = None then r\<lparr>rs_headers := hdr_put n [v] (rs_headers r)\<rparr> else r)"

text \<open>Copying stored headers into the response (e.g. lines 862--866).\<close>

definition copy_headers :: "http_header \<Rightarrow> http_response \<Rightarrow> http_response" where
  "copy_headers hs r = foldl (\<lambda>r nv. foldl (\<lambda>r v. resp_add (fst nv) v r) r (snd nv)) r hs"

text \<open>The final status of a response: 200 when the handler sent none.\<close>

definition final_status :: "http_response \<Rightarrow> nat" where
  "final_status r = (case rs_status r of None \<Rightarrow> 200 | Some st \<Rightarrow> st)"

datatype http_method = GET | HEAD | PUT | POST | DELETE | OtherMethod string

record http_request =
  rq_method :: http_method
  rq_path :: string
  rq_headers :: http_header
  rq_query :: http_header
  rq_body :: bytes

subsection \<open>GET\<close>

text \<open>\<^verbatim>\<open>GET /info\<close> (lines 843--852): the limits as JSON, each
  \<^verbatim>\<open>uint64\<close> printed through \<^verbatim>\<open>int(...)\<close>.\<close>

definition info_body :: "swift_config \<Rightarrow> bytes" where
  "info_body cfg =
     ''{'' @ ''\"swift\": {'' @
     ''\"max_account_name_length\": '' @ itoa (sint (cfg_max_account_name_length cfg)) @ '','' @
     ''\"max_container_name_length\": '' @ itoa (sint (cfg_max_container_name_length cfg)) @ '','' @
     ''\"max_object_name_length\": '' @ itoa (sint (cfg_max_object_name_length cfg)) @ '','' @
     ''\"account_listing_limit\": '' @ itoa (sint (cfg_account_listing_limit cfg)) @ '','' @
     ''\"container_listing_limit\": '' @ itoa (sint (cfg_container_listing_limit cfg)) @ ''}'' @ ''}''"

text \<open>
  A listing of the names after \<open>marker\<close>, at most \<open>limit\<close> of them (the
  account listing, lines 867--904; the container listing, lines 917--954,
  is the same code over the object tree). \<open>limit\<close> is
  \<^verbatim>\<open>int(AccountListingLimit)\<close>, a signed reading of the \<^verbatim>\<open>uint64\<close>.
\<close>

definition get_listing :: "int \<Rightarrow> string \<Rightarrow> 'v omap \<Rightarrow> http_response \<Rightarrow> http_response" where
  "get_listing limit marker t r =
     (let n = length t in
      if n = 0 then write_header 204 r
      else (let (i0, found) = bisect_right marker t;
                i = (if found then Suc i0 else i0)
            in if i < n then
                 (let lim = (if int n - int i > limit then int i + limit else int n)
                  in foldl (\<lambda>r k. write_body (k @ [CHR 0x0A]) r) r
                       (map fst (take (nat (lim - int i)) (drop i t))))
               else write_header 204 r))"

definition content_range :: "64 word \<Rightarrow> 64 word \<Rightarrow> nat \<Rightarrow> string" where
  "content_range st sp len =
     ''bytes '' @ nat_to_decimal (unat st) @ ''-'' @ nat_to_decimal (unat sp) @ ''/'' @ nat_to_decimal len"

definition crlf :: string where
  "crlf = [CHR 0x0D, CHR 0x0A]"

text \<open>One part of a multi-range reply (lines 982--987); \<open>None\<close> when the
  slice panics.\<close>

definition range_part :: "string \<Rightarrow> bytes \<Rightarrow> 64 word \<times> 64 word \<Rightarrow> bytes option" where
  "range_part boundary cs rg =
     map_option (\<lambda>b. ''--'' @ boundary @ crlf @ ''Content-Type: application/octet-stream'' @ crlf @
                     ''Content-Range: '' @ content_range (fst rg) (snd rg) (length cs) @ crlf @ crlf @
                     b @ crlf)
       (go_slice cs (fst rg) (snd rg + 1))"

text \<open>\<^verbatim>\<open>GET\<close> of an object (lines 957--993); \<open>boundary\<close> stands for the
  random multipart boundary of line 978.\<close>

definition get_object :: "string \<Rightarrow> http_request \<Rightarrow> swift_object \<Rightarrow> http_response \<Rightarrow> http_response option" where
  "get_object boundary rq ob r0 =
     (let r = copy_headers (so_headers ob) r0; cs = so_contents ob in
      case parse_range_header (rq_headers rq) (length cs) of
        Inl _ \<Rightarrow> Some (write_header 400 r)
      | Inr [] \<Rightarrow>
          Some (write_body cs (write_header 200 (resp_add ''Content-Type'' ''application/octet-stream'' r)))
      | Inr [rg] \<Rightarrow>
          map_option
            (\<lambda>b. write_body b (write_header 206
                   (resp_add ''Content-Range'' (content_range (fst rg) (snd rg) (length cs))
                     (resp_add ''Content-Type'' ''application/octet-stream'' r))))
            (go_slice cs (fst rg) (snd rg + 1))
      | Inr rgs \<Rightarrow>
          map_option
            (\<lambda>parts. write_body (''--'' @ boundary @ ''--'')
                       (foldl (\<lambda>r b. write_body b r)
                          (write_header 206 (resp_add ''Content-Type'' (''multipart/byteranges; boundary='' @ boundary) r))
                          parts))
            (those (map (range_part boundary cs) rgs)))"

text \<open>\<^verbatim>\<open>doGET\<close> (lines 808--1016) on the store, which it does not change.\<close>

definition do_get :: "string \<Rightarrow> swift_globals \<Rightarrow> http_request \<Rightarrow> http_response option" where
  "do_get boundary g rq =
     (let (info, an, cn, on) = parse_path (rq_path rq); r = empty_response in
      if info then Some (write_body (info_body (g_config g)) r)
      else if an = [] then Some (write_header 403 r)
      else (case locate_swift_account g an of
              Inl _ \<Rightarrow> Some (write_header 404 r)
            | Inr a \<Rightarrow>
                if cn = [] then
                  Some (get_listing (sint (cfg_account_listing_limit (g_config g))) (header_get (rq_query rq) ''marker'')
                          (sa_containers a) (copy_headers (sa_headers a) r))
                else (case locate_swift_container a cn of
                        Inl _ \<Rightarrow> Some (write_header 404 r)
                      | Inr c \<Rightarrow>
                          if on = [] then
                            Some (get_listing (sint (cfg_container_listing_limit (g_config g)))
                                    (header_get (rq_query rq) ''marker'') (sc_objects c) (copy_headers (sc_headers c) r))
                          else (case locate_swift_object c on of
                                  Inl _ \<Rightarrow> Some (write_header 404 r)
                                | Inr ob \<Rightarrow> get_object boundary rq ob r))))"

subsection \<open>HEAD, DELETE, POST and PUT\<close>

text \<open>\<^verbatim>\<open>doHEAD\<close> (lines 1018--1098).\<close>

definition do_head :: "swift_globals \<Rightarrow> http_request \<Rightarrow> http_response" where
  "do_head g rq =
     (let (info, an, cn, on) = parse_path (rq_path rq); r = empty_response in
      if info \<or> an = [] then write_header 403 r
      else (case locate_swift_account g an of
              Inl _ \<Rightarrow> write_header 404 r
            | Inr a \<Rightarrow>
                if cn = [] then write_header 204 (copy_headers (sa_headers a) r)
                else (case locate_swift_container a cn of
                        Inl _ \<Rightarrow> write_header 404 r
                      | Inr c \<Rightarrow>
                          if on = [] then write_header 204 (copy_headers (sc_headers c) r)
                          else (case locate_swift_object c on of
                                  Inl _ \<Rightarrow> write_header 404 r
                                | Inr ob \<Rightarrow>
                                    write_header 200 (resp_set ''Content-Length'' (nat_to_decimal (length (so_contents ob)))
                                      (copy_headers (so_headers ob) r))))))"

text \<open>\<^verbatim>\<open>doDELETE\<close> (lines 724--806): an account or container must be empty.\<close>

definition do_delete :: "swift_globals \<Rightarrow> http_request \<Rightarrow> http_response \<times> swift_globals" where
  "do_delete g rq =
     (let (info, an, cn, on) = parse_path (rq_path rq); r = empty_response in
      if info \<or> an = [] then (write_header 403 r, g)
      else if cn = [] then
        (case delete_swift_account g an False of
           Inr g' \<Rightarrow> (write_header 204 r, g')
         | Inl ENOENT \<Rightarrow> (write_header 404 r, g)
         | Inl _ \<Rightarrow> (write_header 409 r, g))
      else (case locate_swift_account g an of
              Inl _ \<Rightarrow> (write_header 404 r, g)
            | Inr a \<Rightarrow>
                if on = [] then
                  (case delete_swift_container a cn of
                     Inr a' \<Rightarrow> (write_header 204 r, g\<lparr>g_accounts := (g_accounts g)(an \<mapsto> a')\<rparr>)
                   | Inl ENOENT \<Rightarrow> (write_header 404 r, g)
                   | Inl _ \<Rightarrow> (write_header 409 r, g))
                else (case locate_swift_container a cn of
                        Inl _ \<Rightarrow> (write_header 404 r, g)
                      | Inr c \<Rightarrow>
                          (case delete_swift_object c on of
                             Inr c' \<Rightarrow>
                               (write_header 204 r,
                                g\<lparr>g_accounts := (g_accounts g)(an \<mapsto> a\<lparr>sa_containers := omap_set cn c' (sa_containers a)\<rparr>)\<rparr>)
                           | Inl _ \<Rightarrow> (write_header 404 r, g)))))"

text \<open>\<^verbatim>\<open>doPOST\<close> (lines 1100--1217): merge the request's headers into an
  existing account, container or object.\<close>

definition do_post :: "swift_globals \<Rightarrow> http_request \<Rightarrow> http_response \<times> swift_globals" where
  "do_post g rq =
     (let (info, an, cn, on) = parse_path (rq_path rq); r = empty_response; hs = rq_headers rq in
      if info \<or> an = [] then (write_header 403 r, g)
      else (case locate_swift_account g an of
              Inl _ \<Rightarrow> (write_header 404 r, g)
            | Inr a \<Rightarrow>
                if cn = [] then
                  (write_header 204 r,
                   g\<lparr>g_accounts := (g_accounts g)(an \<mapsto> a\<lparr>sa_headers := merge_headers (sa_headers a) hs\<rparr>)\<rparr>)
                else (case locate_swift_container a cn of
                        Inl _ \<Rightarrow> (write_header 404 r, g)
                      | Inr c \<Rightarrow>
                          if on = [] then
                            (write_header 204 r,
                             g\<lparr>g_accounts := (g_accounts g)(an \<mapsto>
                                 a\<lparr>sa_containers := omap_set cn (c\<lparr>sc_headers := merge_headers (sc_headers c) hs\<rparr>)
                                                      (sa_containers a)\<rparr>)\<rparr>)
                          else (case locate_swift_object c on of
                                  Inl _ \<Rightarrow> (write_header 404 r, g)
                                | Inr ob \<Rightarrow>
                                    (write_header 204 r,
                                     g\<lparr>g_accounts := (g_accounts g)(an \<mapsto>
                                         a\<lparr>sa_containers := omap_set cn
                                             (c\<lparr>sc_objects := omap_set on (ob\<lparr>so_headers := merge_headers (so_headers ob) hs\<rparr>)
                                                                   (sc_objects c)\<rparr>)
                                             (sa_containers a)\<rparr>)\<rparr>)))))"

text \<open>\<^verbatim>\<open>doPUT\<close> (lines 1219--1353): create or update; a created entry starts
  with no headers; an object's contents become the request body. A missing
  account or container is answered 403.\<close>

definition do_put :: "swift_globals \<Rightarrow> http_request \<Rightarrow> http_response \<times> swift_globals" where
  "do_put g rq =
     (let (info, an, cn, on) = parse_path (rq_path rq); r = empty_response; hs = rq_headers rq in
      if info \<or> an = [] then (write_header 403 r, g)
      else if cn = [] then
        (let ((a, created), g1) = create_or_locate_swift_account g an;
             a' = a\<lparr>sa_headers := merge_headers (if created then [] else sa_headers a) hs\<rparr>
         in (write_header (if created then 201 else 202) r, g1\<lparr>g_accounts := (g_accounts g1)(an \<mapsto> a')\<rparr>))
      else (case locate_swift_account g an of
              Inl _ \<Rightarrow> (write_header 403 r, g)
            | Inr a \<Rightarrow>
                if on = [] then
                  (let ((c, created), a1) = create_or_locate_swift_container a cn;
                       c' = c\<lparr>sc_headers := merge_headers (if created then [] else sc_headers c) hs\<rparr>
                   in (write_header (if created then 201 else 202) r,
                       g\<lparr>g_accounts := (g_accounts g)(an \<mapsto> a1\<lparr>sa_containers := omap_set cn c' (sa_containers a1)\<rparr>)\<rparr>))
                else (case locate_swift_container a cn of
                        Inl _ \<Rightarrow> (write_header 403 r, g)
                      | Inr c \<Rightarrow>
                          (let ((ob, created), c1) = create_or_locate_swift_object c on;
                               ob' = ob\<lparr>so_headers := merge_headers (if created then [] else so_headers ob) hs,
                                        so_contents := rq_body rq\<rparr>
                           in (write_header 201 r,
                               g\<lparr>g_accounts := (g_accounts g)(an \<mapsto>
                                   a\<lparr>sa_containers := omap_set cn (c1\<lparr>sc_objects := omap_set on ob' (sc_objects c1)\<rparr>)
                                                        (sa_containers a)\<rparr>)\<rparr>)))))"

subsection \<open>The HTTP entry point\<close>

text \<open>
  \<^verbatim>\<open>ServeHTTP\<close> (lines 230--296): \<^verbatim>\<open>GET /info\<close> and
  \<^verbatim>\<open>GET /auth/v1.0\<close> need no token; everything else needs the current
  token and a \<^verbatim>\<open>/v1/\<close> path, and is dispatched on the method. The result
  is \<open>None\<close> when the handler panics.
\<close>

text \<open>\<^verbatim>\<open>net.JoinHostPort(host, port)\<close>: a host with a colon (an IPv6
  literal) is bracketed.\<close>

definition join_host_port :: "string \<Rightarrow> string \<Rightarrow> string" where
  "join_host_port h p = (if CHR '':'' \<in> set h then ''['' @ h @ '']:'' @ p else h @ '':'' @ p)"

text \<open>The address \<^verbatim>\<open>startEmulator\<close> gives the emulator's HTTP server
  (line 187), which \<^verbatim>\<open>/auth/v1.0\<close> advertises in the storage URL.\<close>

definition emulator_addr :: "swift_config \<Rightarrow> string" where
  "emulator_addr cfg = join_host_port (cfg_swift_proxy_ip_addr cfg) (nat_to_decimal (unat (cfg_swift_proxy_tcp_port cfg)))"

definition auth_response :: "swift_globals \<Rightarrow> http_request \<Rightarrow> http_response" where
  "auth_response g rq =
     (let user = header_get (rq_headers rq) ''X-Auth-User''; key = header_get (rq_headers rq) ''X-Auth-Key'' in
      if user = [] \<or> key = [] then write_header 401 empty_response
      else resp_add ''X-Storage-Url''
             (''http://'' @ emulator_addr (g_config g) @ ''/v1/'' @ fixed_user_to_account_prefix @
              hd (split_n CHR '':'' 2 user))
             (resp_add ''X-Auth-Token'' (g_auth_token g) empty_response))"

definition serve_http :: "string \<Rightarrow> swift_globals \<Rightarrow> http_request \<Rightarrow> http_response option \<times> swift_globals" where
  "serve_http boundary g rq =
     (if rq_method rq = GET \<and> rq_path rq = ''/info'' then (do_get boundary g rq, g)
      else if rq_method rq = GET \<and> rq_path rq = ''/auth/v1.0'' then (Some (auth_response g rq), g)
      else if g_auth_token g \<noteq> header_get (rq_headers rq) ''X-Auth-Token'' then (Some (write_header 401 empty_response), g)
      else if \<not> has_prefix (rq_path rq) ''/v1/'' then (Some (write_header 404 empty_response), g)
      else (case rq_method rq of
              DELETE \<Rightarrow> apfst Some (do_delete g rq)
            | GET \<Rightarrow> (do_get boundary g rq, g)
            | HEAD \<Rightarrow> (Some (do_head g rq), g)
            | POST \<Rightarrow> apfst Some (do_post g rq)
            | PUT \<Rightarrow> apfst Some (do_put g rq)
            | OtherMethod _ \<Rightarrow> (Some (write_header 405 empty_response), g)))"

subsection \<open>Specification helpers and examples\<close>

text \<open>The closed form of the header loop, the store invariant, the hex
  reading of the token nonce, and a small store with one account and one
  container, with a PUT and a GET of an object in it.\<close>

definition header_merge_spec :: "http_header \<Rightarrow> http_header \<Rightarrow> string \<Rightarrow> string list option" where
  "header_merge_spec hs req n =
     (case map_of req n of
        None \<Rightarrow> map_of hs n
      | Some vals \<Rightarrow>
          if n \<in> set header_name_ignore_set \<or> vals = [] then map_of hs n
          else (let vs = filter (\<lambda>v. v \<noteq> []) vals in if vs = [] then None else Some vs))"

definition cont_wf :: "swift_container \<Rightarrow> bool" where
  "cont_wf c \<longleftrightarrow> omap_wf (sc_objects c) \<and> list_all (\<lambda>p. fst p \<noteq> []) (sc_objects c)"

definition acct_wf :: "swift_account \<Rightarrow> bool" where
  "acct_wf a \<longleftrightarrow> omap_wf (sa_containers a) \<and> list_all (\<lambda>p. fst p \<noteq> [] \<and> cont_wf (snd p)) (sa_containers a)"

definition swift_wf :: "swift_globals \<Rightarrow> bool" where
  "swift_wf g \<longleftrightarrow> g_accounts g [] = None \<and> (\<forall>a \<in> ran (g_accounts g). acct_wf a)"

definition ex_cfg :: swift_config where
  "ex_cfg = \<lparr>cfg_swift_proxy_ip_addr = ''127.0.0.1'', cfg_swift_proxy_tcp_port = 9999, cfg_max_account_name_length = 256,
             cfg_max_container_name_length = 256, cfg_max_object_name_length = 1024,
             cfg_account_listing_limit = 10000, cfg_container_listing_limit = 10000\<rparr>"

definition ex_swift :: swift_globals where
  "ex_swift = (initialize_globals ex_cfg)\<lparr>g_accounts :=
     [''acct'' \<mapsto> \<lparr>sa_headers = [], sa_containers = [(''cont'', empty_container)]\<rparr>]\<rparr>"

definition ex_put :: http_request where
  "ex_put = \<lparr>rq_method = PUT, rq_path = ''/v1/acct/cont/obj'',
             rq_headers = [(''X-Auth-Token'', [fixed_auth_token_prefix @ hex8 0])], rq_query = [],
             rq_body = ''hello''\<rparr>"

definition ex_get :: http_request where
  "ex_get = ex_put\<lparr>rq_method := GET, rq_body := []\<rparr>"

definition hex_value :: "char \<Rightarrow> nat" where
  "hex_value c = (if of_char c < (58::nat) then of_char c - 48 else of_char c - 87)"

definition hex_decode :: "string \<Rightarrow> nat" where
  "hex_decode s = foldl (\<lambda>a c. a * 16 + hex_value c) 0 s"

definition token_consistent :: "swift_globals \<Rightarrow> bool" where
  "token_consistent g \<longleftrightarrow> g_auth_token g = fixed_auth_token_prefix @ hex8 (g_auth_nonce g)"

subsection \<open>Lemmas\<close>

lemma takeWhile_append_sep [simp]:
  "c \<notin> set a \<Longrightarrow> takeWhile (\<lambda>x. x \<noteq> c) (a @ c # r) = a"
  by (induction a) auto

lemma dropWhile_append_sep [simp]:
  "c \<notin> set a \<Longrightarrow> dropWhile (\<lambda>x. x \<noteq> c) (a @ c # r) = c # r"
  by (induction a) auto

lemma split_n_sep:
  "c \<notin> set a \<Longrightarrow> split_n c (Suc (Suc n)) (a @ c # r) = a # split_n c (Suc n) r"
  by simp

lemma split_n_nosep:
  "c \<notin> set a \<Longrightarrow> split_n c (Suc (Suc n)) a = [a]"
  by simp

lemma has_prefix_append [simp]: "has_prefix (p @ s) p"
  by (simp add: has_prefix_def)

lemma parse_path_object:
  assumes "CHR ''/'' \<notin> set a" and "CHR ''/'' \<notin> set c"
  shows "parse_path (''/v1/'' @ a @ ''/'' @ c @ ''/'' @ ob) = (False, a, c, ob)"
proof -
  have "split_n CHR ''/'' 3 (a @ ''/'' @ c @ ''/'' @ ob) = [a, c, ob]"
    using assms by (simp add: numeral_3_eq_3 split_n_sep)
  moreover have "''/v1/'' @ a @ ''/'' @ c @ ''/'' @ ob \<noteq> ''/info''" by (cases a) auto
  ultimately show ?thesis
    by (simp add: parse_path_def has_prefix_def)
qed


lemma nat_to_decimal_digits: "list_all is_digit (nat_to_decimal n)"
proof (induction n rule: nat_to_decimal.induct)
  case (1 n)
  have d: "is_digit (char_of (48 + k))" if "k < 10" for k :: nat
    using that by (simp add: is_digit_def less_eq_char_def of_char_of)
  show ?case
    using 1 d [of n] d [of "n mod 10"] by (subst nat_to_decimal.simps) simp
qed

lemma nat_to_decimal_ne [simp]: "nat_to_decimal n \<noteq> []"
  by (subst nat_to_decimal.simps) simp

lemma digits_value_snoc [simp]: "digits_value (ds @ [c]) = digits_value ds * 10 + int (of_char c) - 48"
  by (simp add: digits_value_def)

lemma digits_value_nat_to_decimal: "digits_value (nat_to_decimal n) = int n"
proof (induction n rule: nat_to_decimal.induct)
  case (1 n)
  show ?case
  proof (cases "n < 10")
    case True
    then show ?thesis by (subst nat_to_decimal.simps) (simp add: digits_value_def of_char_of)
  next
    case False
    then have "digits_value (nat_to_decimal (n div 10)) = int (n div 10)" using 1 by simp
    with False show ?thesis
      by (subst nat_to_decimal.simps) (simp add: of_char_of, simp add: of_nat_mod of_nat_div)
  qed
qed

lemma is_digit_not_sign: "is_digit c \<Longrightarrow> c \<noteq> CHR ''-'' \<and> c \<noteq> CHR ''+''"
  by (auto simp: is_digit_def less_eq_char_def)

lemma atoi_nat_to_decimal:
  assumes "n < 2 ^ 63"
  shows "atoi (nat_to_decimal n) = Some (int n)"
proof -
  obtain c r where cr: "nat_to_decimal n = c # r"
    using nat_to_decimal_ne [of n] by (cases "nat_to_decimal n") (simp_all del: nat_to_decimal.simps)
  have dig: "list_all is_digit (c # r)" using nat_to_decimal_digits [of n] cr by simp
  then have "c \<noteq> CHR ''-'' \<and> c \<noteq> CHR ''+''" by (simp add: is_digit_not_sign)
  then show ?thesis
    using assms dig digits_value_nat_to_decimal [of n] cr by (simp add: atoi_def)
qed

lemma atoi_snoc_minus: "atoi (x @ [CHR ''-'']) = None"
proof (cases x)
  case Nil
  then show ?thesis by (simp add: atoi_def)
next
  case (Cons c r)
  have nd: "\<not> is_digit CHR ''-''" by (simp add: is_digit_def less_eq_char_def)
  then show ?thesis using Cons by (auto simp: atoi_def)
qed


lemma atoi_Nil [simp]: "atoi [] = None"
  by (simp add: atoi_def)

lemma not_digit_in_decimal:
  "\<not> is_digit c \<Longrightarrow> c \<notin> set (nat_to_decimal n)"
  using nat_to_decimal_digits [of n] by (auto simp: list_all_iff)

lemma parse_one_range_open_ended:
  assumes "atoi s = Some st" and "0 \<le> st"
  shows "parse_one_range len (s @ ''-'') = Inl ()"
proof (cases "CHR ''-'' \<in> set s")
  case True
  then obtain a r where s: "s = a @ CHR ''-'' # r" and a: "CHR ''-'' \<notin> set a"
    by (blast dest: split_list_first)
  have "split_n CHR ''-'' 2 (s @ ''-'') = [a, r @ ''-'']"
    using a by (simp add: s numeral_2_eq_2)
  then show ?thesis by (simp add: parse_one_range_def atoi_snoc_minus split: option.split)
next
  case False
  have ne: "s \<noteq> []" using assms(1) by auto
  have "split_n CHR ''-'' 2 (s @ ''-'') = [s, []]"
    using False by (simp add: numeral_2_eq_2 split_n_sep [where r = "[]", simplified])
  then show ?thesis using assms ne by (simp add: parse_one_range_def)
qed

text \<open>
  C20 An open-ended range \<^verbatim>\<open>bytes=N-\<close> is always refused with 400: the
  check \<^verbatim>\<open>startOffset > stopOffset\<close> (line 403) runs while the absent end
  is still \<open>-1\<close>, so the branch for it at line 415 is dead code.
\<close>

theorem get_object_open_ended_range:
  assumes "header_get (rq_headers rq) ''Range'' = ''bytes='' @ s @ ''-''"
    and "CHR '','' \<notin> set s" and "atoi s = Some st" and "0 \<le> st"
  shows "get_object bd rq ob r = Some (write_header 400 (copy_headers (so_headers ob) r))"
proof -
  have "split_n CHR '','' 2 (s @ ''-'') = [s @ ''-'']"
    using assms(2) by (simp add: numeral_2_eq_2)
  then have "parse_range_header (rq_headers rq) (length (so_contents ob)) = Inl ()"
    using assms parse_one_range_open_ended [OF assms(3,4)]
    by (simp add: parse_range_header_def has_prefix_def)
  then show ?thesis by (simp add: get_object_def)
qed

lemma parse_one_range_past_end:
  assumes "len < a" and "a \<le> b" and "b < 2 ^ 63"
  shows "parse_one_range len (nat_to_decimal a @ ''-'' @ nat_to_decimal b) =
           Inr (word_of_int (int a), word_of_int (int len - 1))"
proof -
  have nd: "\<not> is_digit CHR ''-''" by (simp add: is_digit_def less_eq_char_def)
  have "split_n CHR ''-'' 2 (nat_to_decimal a @ ''-'' @ nat_to_decimal b) = [nat_to_decimal a, nat_to_decimal b]"
    using not_digit_in_decimal [OF nd, of a] by (simp add: numeral_2_eq_2 split_n_sep)
  then show ?thesis
    using assms atoi_nat_to_decimal [of a] atoi_nat_to_decimal [of b]
    by (simp add: parse_one_range_def)
qed

text \<open>
  C19 A range that starts past the end of the object makes
  \<^verbatim>\<open>doGET\<close> panic: the end is clipped to the last byte (line 419) but the
  start is not checked, so the slice at line 976 has its low bound above its
  high bound.
\<close>

theorem get_object_range_past_end:
  assumes "header_get (rq_headers rq) ''Range'' = ''bytes='' @ nat_to_decimal a @ ''-'' @ nat_to_decimal b"
    and "length (so_contents ob) < a" and "a \<le> b" and "b < 2 ^ 63"
  shows "get_object bd rq ob r = None"
proof -
  let ?len = "length (so_contents ob)"
  have nd: "\<not> is_digit CHR '',''" by (simp add: is_digit_def less_eq_char_def)
  have "CHR '','' \<notin> set (nat_to_decimal a @ ''-'' @ nat_to_decimal b)"
    using not_digit_in_decimal [OF nd] by simp
  then have sp: "split_n CHR '','' 2 (nat_to_decimal a @ ''-'' @ nat_to_decimal b) =
                 [nat_to_decimal a @ ''-'' @ nat_to_decimal b]"
    by (simp add: numeral_2_eq_2)
  have pr: "parse_range_header (rq_headers rq) ?len = Inr [(word_of_int (int a), word_of_int (int ?len - 1))]"
    using assms(1) sp parse_one_range_past_end [OF assms(2-4)]
    by (simp add: parse_range_header_def has_prefix_def)
  have hi: "word_of_int (int ?len - 1) + 1 = (word_of_int (int ?len) :: 64 word)"
    by (metis diff_add_cancel of_int_1 wi_hom_add)
  have a64: "a < 2 ^ 64" using assms(3,4) by simp
  have l64: "?len < 2 ^ 64" using assms(2) a64 by simp
  have "\<not> (word_of_int (int a) :: 64 word) \<le> word_of_int (int ?len)"
    using assms(2) a64 l64 by (simp add: word_le_nat_alt unat_of_nat)
  then have "go_slice (so_contents ob) (word_of_int (int a)) (word_of_int (int ?len - 1) + 1) = None"
    by (simp add: go_slice_def hi)
  then show ?thesis using pr by (simp add: get_object_def Let_def)
qed


lemma omap_get_set_same:
  "omap_get t k \<noteq> None \<Longrightarrow> omap_get (omap_set k v t) k = Some v"
  by (induction t) (auto simp: omap_get_def omap_set_def)

lemma omap_get_set_other:
  "k' \<noteq> k \<Longrightarrow> omap_get (omap_set k v t) k' = omap_get t k'"
  by (induction t) (auto simp: omap_get_def omap_set_def)

lemma omap_get_insert:
  "omap_get t k = None \<Longrightarrow> omap_get (omap_insert k v t) k' = (if k' = k then Some v else omap_get t k')"
  by (induction t) (auto simp: omap_get_def split: if_split_asm)

lemma create_or_locate_swift_object_get:
  "create_or_locate_swift_object c n = ((ob, wc), c1) \<Longrightarrow> omap_get (sc_objects c1) n \<noteq> None"
  by (auto simp: create_or_locate_swift_object_def omap_get_insert split: option.splits)

lemma resp_add_fields [simp]:
  "rs_body (resp_add n v r) = rs_body r" "rs_status (resp_add n v r) = rs_status r"
  by (simp_all add: resp_add_def)

lemma copy_headers_fields [simp]:
  "rs_body (copy_headers hs r) = rs_body r" "rs_status (copy_headers hs r) = rs_status r"
proof -
  have "rs_body (foldl (\<lambda>r v. resp_add n v r) r vs) = rs_body r \<and>
        rs_status (foldl (\<lambda>r v. resp_add n v r) r vs) = rs_status r" for n vs r
    by (induction vs arbitrary: r) simp_all
  then have "rs_body (copy_headers hs r) = rs_body r \<and> rs_status (copy_headers hs r) = rs_status r"
    unfolding copy_headers_def by (induction hs arbitrary: r) simp_all
  then show "rs_body (copy_headers hs r) = rs_body r" "rs_status (copy_headers hs r) = rs_status r" by simp_all
qed

lemma v1_path_not_special:
  "''/v1/'' @ x \<noteq> ''/info''" "''/v1/'' @ x \<noteq> ''/auth/v1.0''"
  by auto

text \<open>
  C17 Round trip of the object store: after an authorised PUT of an object
  into an existing container, a GET of the same path without a range returns
  200 and exactly the body that was PUT.
\<close>

theorem put_then_get_object:
  assumes pm: "rq_method p = PUT" and qm: "rq_method q = GET"
    and pp: "rq_path p = ''/v1/'' @ an @ ''/'' @ cn @ ''/'' @ on" and qp: "rq_path q = rq_path p"
    and sa: "CHR ''/'' \<notin> set an" and sc: "CHR ''/'' \<notin> set cn"
    and ne: "an \<noteq> []" "cn \<noteq> []" "on \<noteq> []"
    and pt: "header_get (rq_headers p) ''X-Auth-Token'' = g_auth_token g"
    and qt: "header_get (rq_headers q) ''X-Auth-Token'' = g_auth_token g"
    and nr: "header_get (rq_headers q) ''Range'' = []"
    and ga: "g_accounts g an = Some a" and gc: "omap_get (sa_containers a) cn = Some c"
  shows "\<exists>r. serve_http bd (snd (serve_http bd g p)) q = (Some r, snd (serve_http bd g p)) \<and>
             final_status r = 200 \<and> rs_body r = rq_body p"
proof -
  obtain ob wc c1 where col: "create_or_locate_swift_object c on = ((ob, wc), c1)"
    by (metis prod.exhaust)
  have on1: "omap_get (sc_objects c1) on \<noteq> None" by (rule create_or_locate_swift_object_get [OF col])
  let ?ob' = "ob\<lparr>so_headers := merge_headers (if wc then [] else so_headers ob) (rq_headers p), so_contents := rq_body p\<rparr>"
  let ?c' = "c1\<lparr>sc_objects := omap_set on ?ob' (sc_objects c1)\<rparr>"
  let ?a' = "a\<lparr>sa_containers := omap_set cn ?c' (sa_containers a)\<rparr>"
  let ?g' = "g\<lparr>g_accounts := (g_accounts g)(an \<mapsto> ?a')\<rparr>"
  have pth: "parse_path (rq_path p) = (False, an, cn, on)"
    unfolding pp by (rule parse_path_object [OF sa sc])
  have put: "serve_http bd g p = (Some (write_header 201 empty_response), ?g')"
    using pm pt ne pth ga gc col pp v1_path_not_special
    by (simp add: serve_http_def do_put_def locate_swift_account_def locate_swift_container_def has_prefix_def)
  have a'c: "omap_get (sa_containers ?a') cn = Some ?c'"
    using gc by (simp add: omap_get_set_same)
  have c'o: "omap_get (sc_objects ?c') on = Some ?ob'"
    using on1 by (simp add: omap_get_set_same)
  have "do_get bd ?g' q = Some (write_body (rq_body p) (write_header 200
          (resp_add ''Content-Type'' ''application/octet-stream'' (copy_headers (so_headers ?ob') empty_response))))"
    using qp pth ne a'c c'o nr
    by (simp add: do_get_def locate_swift_account_def locate_swift_container_def locate_swift_object_def
                  get_object_def parse_range_header_def)
  then show ?thesis
    using put qm qt pp qp v1_path_not_special
    by (simp add: serve_http_def has_prefix_def write_body_def write_header_def final_status_def empty_response_def)
qed


lemma hex_value_digit: "d < 16 \<Longrightarrow> hex_value (hex_digit d) = d"
  by (auto simp: hex_value_def hex_digit_def of_char_of)

lemma hex_decode_snoc [simp]: "hex_decode (s @ [c]) = hex_decode s * 16 + hex_value c"
  by (simp add: hex_decode_def)

lemma hex_digits_Suc:
  "map (\<lambda>i. hex_digit (x div 16 ^ (Suc k - 1 - i) mod 16)) [0..<Suc k] =
   map (\<lambda>i. hex_digit (x div 16 div 16 ^ (k - 1 - i) mod 16)) [0..<k] @ [hex_digit (x mod 16)]"
proof -
  have "x div 16 ^ (Suc k - 1 - i) = x div 16 div 16 ^ (k - 1 - i)" if "i < k" for i
  proof -
    have "Suc k - 1 - i = Suc (k - 1 - i)" using that by simp
    then show ?thesis by (simp add: div_mult2_eq)
  qed
  then show ?thesis by simp
qed

lemma hex_decode_digits:
  "hex_decode (map (\<lambda>i. hex_digit (x div 16 ^ (k - 1 - i) mod 16)) [0..<k]) = x mod 16 ^ k"
proof (induction k arbitrary: x)
  case 0
  then show ?case by (simp add: hex_decode_def)
next
  case (Suc k)
  have "hex_decode (map (\<lambda>i. hex_digit (x div 16 ^ (Suc k - 1 - i) mod 16)) [0..<Suc k]) =
        (x div 16) mod 16 ^ k * 16 + x mod 16"
    using Suc.IH [of "x div 16"] by (simp only: hex_digits_Suc hex_decode_snoc hex_value_digit mod_less_divisor zero_less_numeral)
  also have "\<dots> = x mod 16 ^ Suc k" by (simp add: mod_mult2_eq mult.commute)
  finally show ?case .
qed

lemma hex_decode_hex8: "hex_decode (hex8 w) = unat w"
proof -
  have "hex_decode (hex8 w) = unat w mod 16 ^ 8"
    using hex_decode_digits [of "unat w" 8] by (simp add: hex8_def)
  moreover have "unat w < 16 ^ 8"
    using unsigned_less [of w, where ?'a = nat] by simp
  ultimately show ?thesis by simp
qed

lemma hex8_inj: "hex8 a = hex8 b \<longleftrightarrow> a = b"
  by (metis hex_decode_hex8 word_unat_eq_iff)

text \<open>
  C21 \<^verbatim>\<open>forceReAuth\<close> revokes the current token: a request other than
  \<^verbatim>\<open>GET /info\<close> and \<^verbatim>\<open>GET /auth/v1.0\<close> that carries the previous token is
  answered 401 and changes nothing.
\<close>

theorem force_re_auth_rejects_old_token:
  assumes "token_consistent g"
    and "header_get (rq_headers rq) ''X-Auth-Token'' = g_auth_token g"
    and "rq_method rq \<noteq> GET \<or> (rq_path rq \<noteq> ''/info'' \<and> rq_path rq \<noteq> ''/auth/v1.0'')"
  shows "serve_http bd (force_re_auth g) rq = (Some (write_header 401 empty_response), force_re_auth g)"
proof -
  have "g_auth_nonce g + 1 \<noteq> g_auth_nonce g" by simp
  then have "g_auth_token (force_re_auth g) \<noteq> g_auth_token g"
    using assms(1) by (simp add: force_re_auth_def token_consistent_def hex8_inj Let_def)
  then show ?thesis using assms(2,3) by (auto simp: serve_http_def)
qed

lemma force_re_auth_funpow:
  "token_consistent g \<Longrightarrow>
   g_auth_nonce ((force_re_auth ^^ k) g) = g_auth_nonce g + of_nat k \<and> token_consistent ((force_re_auth ^^ k) g) \<and>
   g_accounts ((force_re_auth ^^ k) g) = g_accounts g"
  by (induction k) (simp_all add: force_re_auth_def token_consistent_def Let_def add.assoc)

text \<open>
  C22 The token nonce is a \<^verbatim>\<open>uint32\<close> that wraps: after \<open>k\<close> calls of
  \<^verbatim>\<open>forceReAuth\<close> the token is the original one exactly when \<open>2^32\<close> divides
  \<open>k\<close>, so a revoked token becomes valid again after \<open>2^32\<close> calls.
\<close>

theorem force_re_auth_token_period:
  assumes "token_consistent g"
  shows "g_auth_token ((force_re_auth ^^ k) g) = g_auth_token g \<longleftrightarrow> 2 ^ 32 dvd k"
proof -
  note f = force_re_auth_funpow [OF assms, of k]
  have "g_auth_token ((force_re_auth ^^ k) g) = g_auth_token g \<longleftrightarrow>
        g_auth_nonce g + of_nat k = g_auth_nonce g"
    using f assms by (simp add: token_consistent_def hex8_inj)
  also have "\<dots> \<longleftrightarrow> (of_nat k :: 32 word) = 0" by simp
  also have "\<dots> \<longleftrightarrow> 2 ^ 32 dvd k" by (simp add: word_of_nat_eq_0_iff)
  finally show ?thesis .
qed


lemma map_of_replace:
  "map_of (map (\<lambda>p. if fst p = n then (n, vs) else p) hs) m =
     (if m = n then (if map_of hs n = None then None else Some vs) else map_of hs m)"
  by (induction hs) auto

lemma map_of_hdr_put: "map_of (hdr_put n vs hs) = (map_of hs)(n \<mapsto> vs)"
proof
  fix m
  show "map_of (hdr_put n vs hs) m = ((map_of hs)(n \<mapsto> vs)) m"
  proof (cases "map_of hs n = None")
    case True
    then have "hdr_put n vs hs = hs @ [(n, vs)]" by (simp add: hdr_put_def map_of_eq_None_iff)
    then show ?thesis using True by (cases "m = n") (auto simp: map_add_def split: option.split)
  next
    case False
    then have "hdr_put n vs hs = map (\<lambda>p. if fst p = n then (n, vs) else p) hs"
      by (auto simp: hdr_put_def map_of_eq_None_iff)
    then show ?thesis using False by (auto simp: map_of_replace)
  qed
qed

lemma map_of_hdr_delete: "map_of (hdr_delete n hs) = (map_of hs)(n := None)"
  by (induction hs) (auto simp: hdr_delete_def fun_eq_iff)

lemma map_of_header_update:
  "map_of (header_update hs (n, vals)) =
     (if n \<in> set header_name_ignore_set \<or> vals = [] then map_of hs
      else (let vs = filter (\<lambda>v. v \<noteq> []) vals in
            if vs = [] then (map_of hs)(n := None) else (map_of hs)(n \<mapsto> vs)))"
  by (simp add: header_update_def Let_def map_of_hdr_put map_of_hdr_delete)

text \<open>
  C28 The header loop of POST and PUT computes, for request headers with
  distinct names (a Go map), a result that does not depend on the order of
  Go's map iteration: an ignored or value-less header keeps the stored value,
  otherwise the non-empty values replace it, and all-empty values delete it.
\<close>

theorem merge_headers_spec:
  assumes "distinct (map fst req)"
  shows "map_of (merge_headers hs req) = header_merge_spec hs req"
  using assms
proof (induction req arbitrary: hs)
  case Nil
  then show ?case by (simp add: merge_headers_def header_merge_spec_def fun_eq_iff)
next
  case (Cons x req)
  obtain n vals where x: "x = (n, vals)" by fastforce
  have IH: "map_of (merge_headers (header_update hs x) req) = header_merge_spec (header_update hs x) req"
    using Cons by simp
  have nin: "map_of req n = None" using Cons.prems x by (simp add: map_of_eq_None_iff)
  show ?case
  proof
    fix m
    show "map_of (merge_headers hs (x # req)) m = header_merge_spec hs (x # req) m"
      using IH nin x
      by (cases "m = n") (auto simp: merge_headers_def header_merge_spec_def map_of_header_update Let_def
                               split: option.split)
  qed
qed


lemma omap_set_keys [simp]: "map fst (omap_set k v t) = map fst t"
  by (induction t) (auto simp: omap_set_def)

lemma omap_wf_set [simp]: "omap_wf (omap_set k v t) = omap_wf t"
  by (simp add: omap_wf_def)

lemma list_all_omap_set: "list_all P t \<Longrightarrow> P (k, v) \<Longrightarrow> list_all P (omap_set k v t)"
  by (induction t) (auto simp: omap_set_def)

lemma set_omap_insert: "set (omap_insert k v t) = insert (k, v) (set t)"
  by (induction t) (auto split: if_split_asm)

lemma list_all_omap_insert [simp]: "list_all P (omap_insert k v t) \<longleftrightarrow> P (k, v) \<and> list_all P t"
  by (simp add: list_all_iff set_omap_insert)

lemma list_all_omap_delete: "list_all P t \<Longrightarrow> list_all P (omap_delete k t)"
  by (simp add: list_all_iff omap_delete_def)

lemma omap_wf_delete: "omap_wf t \<Longrightarrow> omap_wf (omap_delete k t)"
  by (simp add: omap_wf_def omap_delete_def sorted_wrt_filter sorted_wrt_map)

lemma omap_wf_insert:
  "omap_wf t \<Longrightarrow> omap_get t k = None \<Longrightarrow> omap_wf (omap_insert k v t)"
proof (induction t)
  case Nil
  then show ?case by (simp add: omap_wf_def)
next
  case (Cons p t)
  obtain k' v' where p: "p = (k', v')" by fastforce
  have t: "omap_wf t" "omap_get t k = None" and kk: "k \<noteq> k'"
    using Cons.prems p by (auto simp: omap_wf_def omap_get_def split: if_splits)
  have all: "\<forall>x \<in> set t. k' < fst x" using Cons.prems(1) p by (simp add: omap_wf_def)
  show ?case
  proof (cases "k < k'")
    case True
    then show ?thesis using Cons.prems(1) p all by (auto simp: omap_wf_def)
  next
    case False
    then have "k' < k" using kk by (simp add: less_le not_less)
    then have "\<forall>x \<in> set (omap_insert k v t). k' < fst x"
      using all by (simp add: set_omap_insert)
    then show ?thesis using Cons.IH [OF t] False p by (simp add: omap_wf_def)
  qed
qed

lemma ran_upd_subset: "ran (m(k \<mapsto> v)) \<subseteq> insert v (ran m)"
  by (auto simp: ran_def)

lemma swift_wf_upd:
  "swift_wf g \<Longrightarrow> k \<noteq> [] \<Longrightarrow> acct_wf a \<Longrightarrow> swift_wf (g\<lparr>g_accounts := (g_accounts g)(k \<mapsto> a)\<rparr>)"
  unfolding swift_wf_def using ran_upd_subset [of "g_accounts g" k a] by auto

lemma swift_wf_get: "swift_wf g \<Longrightarrow> g_accounts g k = Some a \<Longrightarrow> acct_wf a"
  by (auto simp: swift_wf_def intro: ranI)

lemma acct_wf_set:
  "acct_wf a \<Longrightarrow> k \<noteq> [] \<Longrightarrow> cont_wf c \<Longrightarrow> acct_wf (a\<lparr>sa_containers := omap_set k c (sa_containers a)\<rparr>)"
  by (simp add: acct_wf_def list_all_omap_set)

lemma acct_wf_get: "acct_wf a \<Longrightarrow> omap_get (sa_containers a) k = Some c \<Longrightarrow> k \<noteq> [] \<and> cont_wf c"
proof -
  assume a: "acct_wf a" and g: "omap_get (sa_containers a) k = Some c"
  then have "(k, c) \<in> set (sa_containers a)" by (simp add: omap_get_def map_of_SomeD)
  then show ?thesis using a by (auto simp: acct_wf_def list_all_iff)
qed

lemma cont_wf_set: "cont_wf c \<Longrightarrow> k \<noteq> [] \<Longrightarrow> cont_wf (c\<lparr>sc_objects := omap_set k ob (sc_objects c)\<rparr>)"
  by (simp add: cont_wf_def list_all_omap_set)

lemma cont_wf_headers [simp]: "cont_wf (c\<lparr>sc_headers := h\<rparr>) = cont_wf c"
  by (simp add: cont_wf_def)

lemma acct_wf_headers [simp]: "acct_wf (a\<lparr>sa_headers := h\<rparr>) = acct_wf a"
  by (simp add: acct_wf_def)

lemma create_or_locate_swift_container_wf:
  assumes "acct_wf a" "n \<noteq> []" "create_or_locate_swift_container a n = ((c, wc), a1)"
  shows "acct_wf a1 \<and> cont_wf c"
proof (cases "omap_get (sa_containers a) n")
  case None
  have e: "cont_wf empty_container" by (simp add: cont_wf_def empty_container_def omap_wf_def)
  have "c = empty_container" "a1 = a\<lparr>sa_containers := omap_insert n empty_container (sa_containers a)\<rparr>"
    using None assms(3) by (simp_all add: create_or_locate_swift_container_def)
  then show ?thesis using assms(1,2) None e by (simp add: acct_wf_def omap_wf_insert)
next
  case (Some c0)
  then show ?thesis using assms acct_wf_get [OF assms(1) Some]
    by (simp add: create_or_locate_swift_container_def)
qed

lemma create_or_locate_swift_object_wf:
  assumes "cont_wf c" "n \<noteq> []" "create_or_locate_swift_object c n = ((ob, wc), c1)"
  shows "cont_wf c1"
  using assms by (auto simp: create_or_locate_swift_object_def cont_wf_def omap_wf_insert split: option.splits)


lemma create_or_locate_swift_account_wf:
  assumes "swift_wf g" "n \<noteq> []" "create_or_locate_swift_account g n = ((a, wc), g1)"
  shows "swift_wf g1 \<and> acct_wf a \<and> g_accounts g1 = (g_accounts g1)(n \<mapsto> a) \<and> g_config g1 = g_config g"
proof (cases "g_accounts g n")
  case None
  have e: "acct_wf empty_account" by (simp add: acct_wf_def empty_account_def omap_wf_def)
  have "a = empty_account" "g1 = g\<lparr>g_accounts := (g_accounts g)(n \<mapsto> empty_account)\<rparr>"
    using None assms(3) by (simp_all add: create_or_locate_swift_account_def)
  then show ?thesis using assms(1,2) e swift_wf_upd by auto
next
  case (Some a0)
  then show ?thesis using assms swift_wf_get [OF assms(1) Some]
    by (auto simp: create_or_locate_swift_account_def)
qed

lemma do_put_wf:
  assumes wf: "swift_wf g"
  shows "swift_wf (snd (do_put g rq))"
proof -
  obtain info an cn on where pp: "parse_path (rq_path rq) = (info, an, cn, on)" by (metis prod_cases4)
  consider (forbid) "info \<or> an = []" | (acct) "\<not> info" "an \<noteq> []" "cn = []"
    | (nested) "\<not> info" "an \<noteq> []" "cn \<noteq> []" by blast
  then show ?thesis
  proof cases
    case forbid
    then show ?thesis using wf pp by (auto simp: do_put_def)
  next
    case acct
    obtain a wc g1 where col: "create_or_locate_swift_account g an = ((a, wc), g1)" by (metis prod.exhaust)
    note w = create_or_locate_swift_account_wf [OF wf acct(2) col]
    show ?thesis using acct pp col w swift_wf_upd by (simp add: do_put_def)
  next
    case nested
    show ?thesis
    proof (cases "g_accounts g an")
      case None
      then show ?thesis using nested pp wf by (simp add: do_put_def locate_swift_account_def)
    next
      case (Some a)
      have aw: "acct_wf a" using swift_wf_get [OF wf Some] .
      show ?thesis
      proof (cases "on = []")
        case True
        obtain c wc a1 where col: "create_or_locate_swift_container a cn = ((c, wc), a1)" by (metis prod.exhaust)
        note w = create_or_locate_swift_container_wf [OF aw nested(3) col]
        show ?thesis
          using nested pp Some True col w wf
          by (simp add: do_put_def locate_swift_account_def swift_wf_upd acct_wf_set)
      next
        case False
        show ?thesis
        proof (cases "omap_get (sa_containers a) cn")
          case None
          then show ?thesis using nested pp Some False wf
            by (simp add: do_put_def locate_swift_account_def locate_swift_container_def)
        next
          case (Some c)
          note Some2 = this
          have cw: "cont_wf c" using acct_wf_get [OF aw Some2] by simp
          obtain ob wc c1 where col: "create_or_locate_swift_object c on = ((ob, wc), c1)" by (metis prod.exhaust)
          have c1w: "cont_wf c1" by (rule create_or_locate_swift_object_wf [OF cw False col])
          show ?thesis
            using nested pp \<open>g_accounts g an = Some a\<close> Some2 False col wf aw c1w
            by (simp add: do_put_def locate_swift_account_def locate_swift_container_def swift_wf_upd
                          acct_wf_set cont_wf_set)
        qed
      qed
    qed
  qed
qed


lemma swift_wf_del: "swift_wf g \<Longrightarrow> swift_wf (g\<lparr>g_accounts := (g_accounts g)(k := None)\<rparr>)"
  by (auto simp: swift_wf_def ran_def)

lemma acct_wf_delete: "acct_wf a \<Longrightarrow> acct_wf (a\<lparr>sa_containers := omap_delete k (sa_containers a)\<rparr>)"
  by (simp add: acct_wf_def omap_wf_delete list_all_omap_delete)

lemma cont_wf_delete: "cont_wf c \<Longrightarrow> cont_wf (c\<lparr>sc_objects := omap_delete k (sc_objects c)\<rparr>)"
  by (simp add: cont_wf_def omap_wf_delete list_all_omap_delete)

lemma do_delete_wf:
  assumes wf: "swift_wf g"
  shows "swift_wf (snd (do_delete g rq))"
proof -
  obtain info an cn on where pp: "parse_path (rq_path rq) = (info, an, cn, on)" by (metis prod_cases4)
  consider (forbid) "info \<or> an = []" | (acct) "\<not> info" "an \<noteq> []" "cn = []"
    | (nested) "\<not> info" "an \<noteq> []" "cn \<noteq> []" by blast
  then show ?thesis
  proof cases
    case forbid
    then show ?thesis using wf pp by (auto simp: do_delete_def)
  next
    case acct
    then show ?thesis using wf pp swift_wf_del
      by (auto simp: do_delete_def delete_swift_account_def split: option.split sum.split errno.split)
  next
    case nested
    show ?thesis
    proof (cases "g_accounts g an")
      case None
      then show ?thesis using nested pp wf by (simp add: do_delete_def locate_swift_account_def)
    next
      case (Some a)
      have aw: "acct_wf a" using swift_wf_get [OF wf Some] .
      show ?thesis
      proof (cases "on = []")
        case True
        then show ?thesis using nested pp Some wf aw
          by (auto simp: do_delete_def locate_swift_account_def delete_swift_container_def
                         swift_wf_upd acct_wf_delete split: option.split errno.split sum.split)
      next
        case False
        show ?thesis
        proof (cases "omap_get (sa_containers a) cn")
          case None
          then show ?thesis using nested pp Some False wf
            by (simp add: do_delete_def locate_swift_account_def locate_swift_container_def)
        next
          case (Some c)
          note Some2 = this
          have cw: "cont_wf c" using acct_wf_get [OF aw Some2] by simp
          show ?thesis
            using nested pp \<open>g_accounts g an = Some a\<close> Some2 False wf aw cw
            by (auto simp: do_delete_def locate_swift_account_def locate_swift_container_def
                           delete_swift_object_def swift_wf_upd acct_wf_set cont_wf_delete
                     split: option.split)
        qed
      qed
    qed
  qed
qed

lemma do_post_wf:
  assumes wf: "swift_wf g"
  shows "swift_wf (snd (do_post g rq))"
proof -
  obtain info an cn on where pp: "parse_path (rq_path rq) = (info, an, cn, on)" by (metis prod_cases4)
  show ?thesis
  proof (cases "info \<or> an = []")
    case True
    then show ?thesis using wf pp by (auto simp: do_post_def)
  next
    case nf: False
    show ?thesis
    proof (cases "g_accounts g an")
      case None
      then show ?thesis using nf pp wf by (simp add: do_post_def locate_swift_account_def)
    next
      case (Some a)
      have aw: "acct_wf a" using swift_wf_get [OF wf Some] .
      show ?thesis
      proof (cases "cn = []")
        case True
        then show ?thesis using nf pp Some wf aw by (simp add: do_post_def locate_swift_account_def swift_wf_upd)
      next
        case cne: False
        show ?thesis
        proof (cases "omap_get (sa_containers a) cn")
          case None
          then show ?thesis using nf cne pp Some wf
            by (simp add: do_post_def locate_swift_account_def locate_swift_container_def)
        next
          case (Some c)
          note Some2 = this
          have cw: "cont_wf c" using acct_wf_get [OF aw Some2] by simp
          show ?thesis
            using nf cne pp \<open>g_accounts g an = Some a\<close> Some2 wf aw cw
            by (auto simp: do_post_def locate_swift_account_def locate_swift_container_def
                           locate_swift_object_def swift_wf_upd acct_wf_set cont_wf_set Let_def
                     split: option.split)
        qed
      qed
    qed
  qed
qed

text \<open>
  C18 Every request keeps the store well formed: no account, container or
  object has an empty name, and every container and object tree stays sorted
  by name with distinct names.
\<close>

theorem serve_http_wf:
  assumes "swift_wf g"
  shows "swift_wf (snd (serve_http bd g rq))"
  using assms do_put_wf [OF assms, of rq] do_post_wf [OF assms, of rq] do_delete_wf [OF assms, of rq]
  by (simp add: serve_http_def split: http_method.split prod.split)


theorem put_then_get_object_witness:
  "\<exists>r. serve_http ''b'' (snd (serve_http ''b'' ex_swift ex_put)) ex_get = (Some r, snd (serve_http ''b'' ex_swift ex_put)) \<and>
       final_status r = 200 \<and> rs_body r = ''hello''"
proof -
  have h: "rq_method ex_put = PUT" "rq_method ex_get = GET"
    "rq_path ex_put = ''/v1/'' @ ''acct'' @ ''/'' @ ''cont'' @ ''/'' @ ''obj''" "rq_path ex_get = rq_path ex_put"
    "CHR ''/'' \<notin> set ''acct''" "CHR ''/'' \<notin> set ''cont''" "''acct'' \<noteq> []" "''cont'' \<noteq> []" "''obj'' \<noteq> []"
    "header_get (rq_headers ex_put) ''X-Auth-Token'' = g_auth_token ex_swift"
    "header_get (rq_headers ex_get) ''X-Auth-Token'' = g_auth_token ex_swift"
    "header_get (rq_headers ex_get) ''Range'' = []"
    "g_accounts ex_swift ''acct'' = Some \<lparr>sa_headers = [], sa_containers = [(''cont'', empty_container)]\<rparr>"
    "omap_get (sa_containers \<lparr>sa_headers = [], sa_containers = [(''cont'', empty_container)]\<rparr>) ''cont'' = Some empty_container"
    by (simp_all add: ex_put_def ex_get_def ex_swift_def header_get_def initialize_globals_def omap_get_def)
  show ?thesis using put_then_get_object [OF h, of "''b''"] by (simp add: ex_put_def)
qed

theorem get_object_open_ended_range_witness:
  "get_object ''b'' (ex_get\<lparr>rq_headers := [(''Range'', [''bytes=2-''])]\<rparr>) \<lparr>so_headers = [], so_contents = ''hello''\<rparr> empty_response =
     Some (write_header 400 empty_response)"
proof -
  have h: "header_get (rq_headers (ex_get\<lparr>rq_headers := [(''Range'', [''bytes=2-''])]\<rparr>)) ''Range'' = ''bytes='' @ ''2'' @ ''-''"
    "CHR '','' \<notin> set ''2''" "atoi ''2'' = Some 2" "(0::int) \<le> 2"
    by (simp_all add: header_get_def atoi_def is_digit_def less_eq_char_def digits_value_def)
  show ?thesis using get_object_open_ended_range [OF h] by (simp add: copy_headers_def)
qed

theorem get_object_range_past_end_witness:
  "get_object ''b'' (ex_get\<lparr>rq_headers := [(''Range'', [''bytes='' @ nat_to_decimal 7 @ ''-'' @ nat_to_decimal 9])]\<rparr>)
     \<lparr>so_headers = [], so_contents = ''hello''\<rparr> empty_response = None"
proof -
  have h: "header_get (rq_headers (ex_get\<lparr>rq_headers := [(''Range'', [''bytes='' @ nat_to_decimal 7 @ ''-'' @ nat_to_decimal 9])]\<rparr>)) ''Range'' =
           ''bytes='' @ nat_to_decimal 7 @ ''-'' @ nat_to_decimal 9"
    "length (so_contents \<lparr>so_headers = [], so_contents = ''hello''\<rparr>) < 7" "(7::nat) \<le> 9" "(9::nat) < 2 ^ 63"
    by (simp_all add: header_get_def)
  show ?thesis using get_object_range_past_end [OF h] .
qed

theorem force_re_auth_rejects_old_token_witness:
  "serve_http ''b'' (force_re_auth ex_swift) ex_get = (Some (write_header 401 empty_response), force_re_auth ex_swift)"
proof -
  have h: "token_consistent ex_swift" "header_get (rq_headers ex_get) ''X-Auth-Token'' = g_auth_token ex_swift"
    "rq_method ex_get \<noteq> GET \<or> (rq_path ex_get \<noteq> ''/info'' \<and> rq_path ex_get \<noteq> ''/auth/v1.0'')"
    by (simp_all add: token_consistent_def ex_swift_def initialize_globals_def ex_get_def ex_put_def header_get_def)
  show ?thesis using force_re_auth_rejects_old_token [OF h] .
qed

theorem force_re_auth_token_period_witness:
  "g_auth_token ((force_re_auth ^^ (2 ^ 32)) ex_swift) = g_auth_token ex_swift \<and>
   g_auth_token ((force_re_auth ^^ 1) ex_swift) \<noteq> g_auth_token ex_swift"
proof -
  have h: "token_consistent ex_swift"
    by (simp add: token_consistent_def ex_swift_def initialize_globals_def)
  show ?thesis using force_re_auth_token_period [OF h, of "2 ^ 32"] force_re_auth_token_period [OF h, of 1] by simp
qed

theorem merge_headers_spec_witness:
  "map_of (merge_headers [(''X-B'', [''old''])] [(''X-A'', [''1'', []]), (''X-B'', [[]])]) ''X-B'' = None \<and>
   map_of (merge_headers [(''X-B'', [''old''])] [(''X-A'', [''1'', []]), (''X-B'', [[]])]) ''X-A'' = Some [''1'']"
  using merge_headers_spec [of "[(''X-A'', [''1'', []]), (''X-B'', [[]])]" "[(''X-B'', [''old''])]"]
  by (simp add: header_merge_spec_def header_name_ignore_set_def)

theorem serve_http_wf_witness: "swift_wf (snd (serve_http ''b'' ex_swift ex_put))"
proof -
  have "swift_wf ex_swift"
    by (simp add: swift_wf_def ex_swift_def initialize_globals_def acct_wf_def cont_wf_def empty_container_def omap_wf_def)
  then show ?thesis by (rule serve_http_wf)
qed

end
