(* ===== verification/Swift_Lifecycle.thy ===== *)
theory Swift_Lifecycle
  imports Swift_Emulator
begin

text \<open>
  Starting and stopping the Swift emulator, \<^verbatim>\<open>src/iswift/iswiftpkg/impl.go\<close>
  lines 88--229, and the \<^verbatim>\<open>ramswift\<close> entry point,
  \<^verbatim>\<open>src/ramswift/ramswift/main.go\<close>.

  \<^verbatim>\<open>initializeGlobals\<close> reads seven options of section \<^verbatim>\<open>ISWIFT\<close> through
  the \<^verbatim>\<open>conf\<close> package, which is not under \<^verbatim>\<open>src/\<close>: its three fetchers
  are parameters (\<open>conf_reader\<close>) returning, as the Go functions do, a value
  and an error. Each statement \<^verbatim>\<open>globals.config.X, err = Fetch(...)\<close>
  stores the value whether or not the fetch failed, and a failure returns at
  once, so a failed initialisation leaves the configuration partly written.

  The emulator's listener is modelled by the state \<^verbatim>\<open>startEmulator\<close> and
  \<^verbatim>\<open>stopEmulator\<close> share (\<open>emulator\<close>): the current server, the
  \<^verbatim>\<open>emulatorWG\<close> counter and the listener goroutines still serving. What
  the network does is a parameter: whether \<^verbatim>\<open>ListenAndServe\<close> keeps
  serving, the outcomes of the \<^verbatim>\<open>GET /info\<close> probes, and the error of
  \<^verbatim>\<open>Close\<close>. The sleep between probes is not modelled.

  Lemmas: initialisation succeeds exactly when every fetch does and returns
  the first fetch error otherwise; a failed one keeps the accounts and the
  token; the probe loop succeeds exactly when one of the first eleven probes
  does; start and stop keep the store, token and wait-group invariants; a
  start followed by a stop leaves no listener, two starts without a stop
  make the next stop block, and a stop without a start dereferences nil.
\<close>

subsection \<open>Reading the configuration\<close>

type_synonym conf_error = string

record conf_reader =
  cf_string :: "string \<Rightarrow> string \<Rightarrow> string \<times> conf_error option"
  cf_uint16 :: "string \<Rightarrow> string \<Rightarrow> 16 word \<times> conf_error option"
  cf_uint64 :: "string \<Rightarrow> string \<Rightarrow> 64 word \<times> conf_error option"

text \<open>One statement \<^verbatim>\<open>globals.config.X, err = Fetch(...); if nil != err
  { return }\<close>: store the fetched value with \<open>upd\<close>, then return the error or
  continue with \<open>k\<close>.\<close>

definition conf_step ::
  "'a \<times> conf_error option \<Rightarrow> ('a \<Rightarrow> swift_config \<Rightarrow> swift_config) \<Rightarrow>
   (swift_globals \<Rightarrow> conf_error option \<times> swift_globals) \<Rightarrow> swift_globals \<Rightarrow> conf_error option \<times> swift_globals" where
  "conf_step r upd k g =
     (let g1 = g\<lparr>g_config := upd (fst r) (g_config g)\<rparr>
      in case snd r of Some err \<Rightarrow> (Some err, g1) | None \<Rightarrow> k g1)"

text \<open>\<^verbatim>\<open>initializeGlobals(confMap)\<close>, lines 129--166: the seven fetches in
  the order of the code, then the nonce, the token and an empty account map
  (\<open>initialize_globals\<close>).\<close>

definition initialize_globals_conf :: "conf_reader \<Rightarrow> swift_globals \<Rightarrow> conf_error option \<times> swift_globals" where
  "initialize_globals_conf f =
     conf_step (cf_string f ''ISWIFT'' ''SwiftProxyIPAddr'') (\<lambda>v c. c\<lparr>cfg_swift_proxy_ip_addr := v\<rparr>)
     (conf_step (cf_uint16 f ''ISWIFT'' ''SwiftProxyTCPPort'') (\<lambda>v c. c\<lparr>cfg_swift_proxy_tcp_port := v\<rparr>)
     (conf_step (cf_uint64 f ''ISWIFT'' ''MaxAccountNameLength'') (\<lambda>v c. c\<lparr>cfg_max_account_name_length := v\<rparr>)
     (conf_step (cf_uint64 f ''ISWIFT'' ''MaxContainerNameLength'') (\<lambda>v c. c\<lparr>cfg_max_container_name_length := v\<rparr>)
     (conf_step (cf_uint64 f ''ISWIFT'' ''MaxObjectNameLength'') (\<lambda>v c. c\<lparr>cfg_max_object_name_length := v\<rparr>)
     (conf_step (cf_uint64 f ''ISWIFT'' ''AccountListingLimit'') (\<lambda>v c. c\<lparr>cfg_account_listing_limit := v\<rparr>)
     (conf_step (cf_uint64 f ''ISWIFT'' ''ContainerListingLimit'') (\<lambda>v c. c\<lparr>cfg_container_listing_limit := v\<rparr>)
     (\<lambda>g. (None, initialize_globals (g_config g)))))))))"

text \<open>\<^verbatim>\<open>uninitializeGlobals\<close>, lines 168--179: the configuration is zeroed
  and the account map replaced by an empty one; the nonce and the token are
  left as they are.\<close>

definition uninitialize_globals :: "swift_globals \<Rightarrow> swift_globals" where
  "uninitialize_globals g =
     g\<lparr>g_config := (g_config g)\<lparr>cfg_swift_proxy_ip_addr := [], cfg_swift_proxy_tcp_port := 0,
                                cfg_max_account_name_length := 0, cfg_max_container_name_length := 0,
                                cfg_max_object_name_length := 0, cfg_account_listing_limit := 0,
                                cfg_container_listing_limit := 0\<rparr>,
       g_accounts := Map.empty\<rparr>"

text \<open>The errors of the seven fetches, in the order of the code, and the
  configuration made of their values.\<close>

definition conf_errors :: "conf_reader \<Rightarrow> conf_error option list" where
  "conf_errors f =
     [snd (cf_string f ''ISWIFT'' ''SwiftProxyIPAddr''), snd (cf_uint16 f ''ISWIFT'' ''SwiftProxyTCPPort''),
      snd (cf_uint64 f ''ISWIFT'' ''MaxAccountNameLength''), snd (cf_uint64 f ''ISWIFT'' ''MaxContainerNameLength''),
      snd (cf_uint64 f ''ISWIFT'' ''MaxObjectNameLength''), snd (cf_uint64 f ''ISWIFT'' ''AccountListingLimit''),
      snd (cf_uint64 f ''ISWIFT'' ''ContainerListingLimit'')]"

definition conf_values :: "conf_reader \<Rightarrow> swift_config" where
  "conf_values f =
     \<lparr>cfg_swift_proxy_ip_addr = fst (cf_string f ''ISWIFT'' ''SwiftProxyIPAddr''),
      cfg_swift_proxy_tcp_port = fst (cf_uint16 f ''ISWIFT'' ''SwiftProxyTCPPort''),
      cfg_max_account_name_length = fst (cf_uint64 f ''ISWIFT'' ''MaxAccountNameLength''),
      cfg_max_container_name_length = fst (cf_uint64 f ''ISWIFT'' ''MaxContainerNameLength''),
      cfg_max_object_name_length = fst (cf_uint64 f ''ISWIFT'' ''MaxObjectNameLength''),
      cfg_account_listing_limit = fst (cf_uint64 f ''ISWIFT'' ''AccountListingLimit''),
      cfg_container_listing_limit = fst (cf_uint64 f ''ISWIFT'' ''ContainerListingLimit'')\<rparr>"

subsection \<open>The listener\<close>

text \<open>An HTTP server run by a goroutine, as both \<^verbatim>\<open>startEmulator\<close> here
  and \<^verbatim>\<open>startHTTPServer\<close> of imgr do it: the current server
  (\<^verbatim>\<open>emulatorHTTPServer\<close>, numbered by creation, with its address;
  \<open>None\<close> is nil), the number of servers created, the counter of the wait
  group (\<^verbatim>\<open>emulatorWG\<close>), and the servers whose goroutine is still in
  \<^verbatim>\<open>ListenAndServe\<close> (lines 193--196). Such a goroutine returns when its
  server is closed.\<close>

record listener =
  ls_server :: "(nat \<times> string) option"
  ls_next :: nat
  ls_wg :: nat
  ls_running :: "nat list"

text \<open>How a lifecycle call ends when it does not succeed: an error value, a
  run-time panic, a \<^verbatim>\<open>log.Fatalf\<close> exit, or a \<^verbatim>\<open>Wait\<close> that never
  returns.\<close>

datatype lc_error = LcErr string | LcPanic string | LcFatal string | LcBlocked

definition listener_init :: listener where
  "listener_init = \<lparr>ls_server = None, ls_next = 0, ls_wg = 0, ls_running = []\<rparr>"

definition start_GET_info_max_retries :: nat where
  "start_GET_info_max_retries = 10"

text \<open>The \<^verbatim>\<open>for\<close> loop of lines 200--212: \<open>ps\<close> are the outcomes of the
  successive \<^verbatim>\<open>http.Get\<close> probes of \<^verbatim>\<open>/info\<close> (\<open>True\<close> when one
  answers), a probe past the end of the list fails, and \<open>n\<close> is
  \<^verbatim>\<open>startGETInfoNumRetries\<close>. It gives up when the counter exceeds
  \<^verbatim>\<open>startGETInfoMaxRetries\<close>, so it terminates whatever the probes do.\<close>

function probe_loop :: "bool list \<Rightarrow> nat \<Rightarrow> bool" where
  "probe_loop ps n =
     (let ok = (case ps of [] \<Rightarrow> False | p # _ \<Rightarrow> p) in
      if ok then True
      else if Suc n > start_GET_info_max_retries then False
      else probe_loop (tl ps) (Suc n))"
  by pat_completeness auto
termination
  by (relation "measure (\<lambda>(ps, n). Suc start_GET_info_max_retries - n)") auto

declare probe_loop.simps [simp del]

text \<open>\<^verbatim>\<open>stopEmulator\<close>, lines 218--229: \<open>close_err\<close> is the error of
  \<^verbatim>\<open>Close\<close>, which dereferences nil when no server was ever set. A
  successful close makes the listener goroutine of the current server (if
  it is still serving) return and call \<^verbatim>\<open>Done\<close>; \<^verbatim>\<open>Wait\<close> then returns
  only if no other goroutine holds the wait group, and blocks forever
  otherwise.\<close>

definition stop_emulator :: "string option \<Rightarrow> listener \<Rightarrow> lc_error option \<times> listener" where
  "stop_emulator close_err e =
     (case ls_server e of
        None \<Rightarrow> (Some (LcPanic ''nil pointer dereference''), e)
      | Some (n, _) \<Rightarrow>
          (case close_err of
             Some err \<Rightarrow> (Some (LcErr err), e)
           | None \<Rightarrow>
               (let e1 = (if n \<in> set (ls_running e)
                          then e\<lparr>ls_wg := ls_wg e - 1, ls_running := removeAll n (ls_running e)\<rparr>
                          else e)
                in if ls_wg e1 = 0 then (None, e1) else (Some LcBlocked, e1))))"

text \<open>\<^verbatim>\<open>startEmulator\<close>, lines 181--216: a new server (numbered by
  \<open>ls_next\<close>) with the address of line 187 replaces the old one,
  \<^verbatim>\<open>Add(1)\<close>, and the listener goroutine starts; \<open>listens\<close> says whether
  its \<^verbatim>\<open>ListenAndServe\<close> keeps serving (otherwise it returns at once and
  calls \<^verbatim>\<open>Done\<close>). When the probes give up, the emulator is stopped,
  ignoring the error (\<open>cleanup_err\<close> is that of \<^verbatim>\<open>Close\<close>), and the start
  fails.\<close>

definition start_emulator ::
  "swift_config \<Rightarrow> bool \<Rightarrow> bool list \<Rightarrow> string option \<Rightarrow> listener \<Rightarrow> lc_error option \<times> listener" where
  "start_emulator cfg listens ps cleanup_err e =
     (let n = ls_next e;
          e1 = e\<lparr>ls_server := Some (n, emulator_addr cfg), ls_next := Suc n,
                 ls_wg := (if listens then Suc (ls_wg e) else ls_wg e),
                 ls_running := (if listens then n # ls_running e else ls_running e)\<rparr>
      in if probe_loop ps 0 then (None, e1)
         else (Some (LcErr ''startEmulator() failed to establish that emulator is up''),
               snd (stop_emulator cleanup_err e1)))"

definition listener_inv :: "listener \<Rightarrow> bool" where
  "listener_inv e \<longleftrightarrow> ls_wg e = length (ls_running e) \<and> distinct (ls_running e) \<and>
     (\<forall>k \<in> set (ls_running e). k < ls_next e) \<and>
     (case ls_server e of None \<Rightarrow> ls_running e = [] | Some (n, _) \<Rightarrow> n < ls_next e)"

subsection \<open>Starting and stopping\<close>

type_synonym iswift_state = "swift_globals \<times> listener"

text \<open>\<^verbatim>\<open>start(confMap)\<close>, lines 88--100.\<close>

definition iswift_start ::
  "conf_reader \<Rightarrow> bool \<Rightarrow> bool list \<Rightarrow> string option \<Rightarrow> iswift_state \<Rightarrow> lc_error option \<times> iswift_state" where
  "iswift_start f listens ps cleanup_err st =
     (case initialize_globals_conf f (fst st) of
        (Some err, g1) \<Rightarrow> (Some (LcErr err), (g1, snd st))
      | (None, g1) \<Rightarrow>
          (case start_emulator (g_config g1) listens ps cleanup_err (snd st) of (r, e1) \<Rightarrow> (r, (g1, e1))))"

text \<open>\<^verbatim>\<open>stop()\<close>, lines 102--112: the globals are uninitialised only when
  \<^verbatim>\<open>stopEmulator\<close> succeeds.\<close>

definition iswift_stop :: "string option \<Rightarrow> iswift_state \<Rightarrow> lc_error option \<times> iswift_state" where
  "iswift_stop close_err st =
     (case stop_emulator close_err (snd st) of
        (Some err, e1) \<Rightarrow> (Some err, (fst st, e1))
      | (None, e1) \<Rightarrow> (None, (uninitialize_globals (fst st), e1)))"

text \<open>\<^verbatim>\<open>getCurrentAuthToken\<close>, lines 121--127.\<close>

definition get_current_auth_token :: "iswift_state \<Rightarrow> string" where
  "get_current_auth_token st = g_auth_token (fst st)"

subsection \<open>The ramswift entry point\<close>

text \<open>\<^verbatim>\<open>main\<close> of \<^verbatim>\<open>ramswift\<close>, lines 15--25: without a configuration
  file argument the process exits through \<^verbatim>\<open>log.Fatalf\<close>; otherwise it
  runs \<^verbatim>\<open>ramswift.Daemon\<close> (not under \<^verbatim>\<open>src/\<close>) on the file and the
  remaining arguments and waits for it to signal completion.\<close>

datatype main_outcome = MainFatal string | MainDaemon string "string list"

definition ramswift_main :: "string list \<Rightarrow> main_outcome" where
  "ramswift_main args =
     (if length args < 2 then MainFatal ''no .conf file specified'' else MainDaemon (args ! 1) (drop 2 args))"

subsection \<open>An example configuration\<close>

text \<open>Every fetch succeeds; the emulator listens on the IPv6 loopback
  address.\<close>

definition ex_conf :: conf_reader where
  "ex_conf = \<lparr>cf_string = (\<lambda>_ _. (''::1'', None)), cf_uint16 = (\<lambda>_ _. (9999, None)),
              cf_uint64 = (\<lambda>_ _. (256, None))\<rparr>"

subsection \<open>Lemmas\<close>

lemma conf_step_simps [simp]:
  "conf_step (v, Some err) upd k g = (Some err, g\<lparr>g_config := upd v (g_config g)\<rparr>)"
  "conf_step (v, None) upd k g = k (g\<lparr>g_config := upd v (g_config g)\<rparr>)"
  by (simp_all add: conf_step_def)

lemma swift_config_update_all:
  "(c :: swift_config)\<lparr>cfg_swift_proxy_ip_addr := a, cfg_swift_proxy_tcp_port := p,
      cfg_max_account_name_length := m1, cfg_max_container_name_length := m2,
      cfg_max_object_name_length := m3, cfg_account_listing_limit := l1,
      cfg_container_listing_limit := l2\<rparr> =
   \<lparr>cfg_swift_proxy_ip_addr = a, cfg_swift_proxy_tcp_port = p,
      cfg_max_account_name_length = m1, cfg_max_container_name_length = m2,
      cfg_max_object_name_length = m3, cfg_account_listing_limit = l1,
      cfg_container_listing_limit = l2\<rparr>"
  by (cases c) simp

text \<open>Initialisation succeeds exactly when every fetch does, and then
  installs the configuration of the fetched values with a fresh token and no
  accounts.\<close>

lemma initialize_globals_conf_ok:
  "initialize_globals_conf f g = (None, g') \<longleftrightarrow>
   list_all (\<lambda>e. e = None) (conf_errors f) \<and> g' = initialize_globals (conf_values f)"
  by (auto simp add: initialize_globals_conf_def conf_errors_def conf_values_def conf_step_def Let_def swift_config_update_all
      split: option.split prod.split)

text \<open>A failed initialisation returns the error of the first fetch that
  failed.\<close>

lemma initialize_globals_conf_error:
  "fst (initialize_globals_conf f g) = (case find (\<lambda>e. e \<noteq> None) (conf_errors f) of None \<Rightarrow> None | Some e \<Rightarrow> e)"
  by (simp add: initialize_globals_conf_def conf_errors_def conf_step_def Let_def split: option.split)

text \<open>A failed initialisation changes only the configuration: the nonce,
  the token and the accounts of the previous run are kept.\<close>

lemma conf_step_frame:
  assumes e: "fst (conf_step r upd k g) \<noteq> None"
    and k: "\<And>g. fst (k g) \<noteq> None \<Longrightarrow>
     g_accounts (snd (k g)) = g_accounts g \<and> g_auth_nonce (snd (k g)) = g_auth_nonce g \<and>
     g_auth_token (snd (k g)) = g_auth_token g"
  shows "g_accounts (snd (conf_step r upd k g)) = g_accounts g \<and>
     g_auth_nonce (snd (conf_step r upd k g)) = g_auth_nonce g \<and>
     g_auth_token (snd (conf_step r upd k g)) = g_auth_token g"
  using e k [of "g\<lparr>g_config := upd (fst r) (g_config g)\<rparr>"]
  by (cases "snd r") (simp_all add: conf_step_def Let_def)

lemma initialize_globals_conf_frame:
  assumes "fst (initialize_globals_conf f g) \<noteq> None"
  shows "g_accounts (snd (initialize_globals_conf f g)) = g_accounts g \<and>
     g_auth_nonce (snd (initialize_globals_conf f g)) = g_auth_nonce g \<and>
     g_auth_token (snd (initialize_globals_conf f g)) = g_auth_token g"
  using assms unfolding initialize_globals_conf_def
  apply (rule conf_step_frame)
  apply (rule conf_step_frame, assumption)
  apply (rule conf_step_frame, assumption)
  apply (rule conf_step_frame, assumption)
  apply (rule conf_step_frame, assumption)
  apply (rule conf_step_frame, assumption)
  apply (rule conf_step_frame, assumption)
  apply simp
  done

text \<open>The probe loop answers whether one of the probes it still has the
  budget for succeeds: from the start, one of the first eleven.\<close>

lemma probe_loop_iff:
  "n \<le> start_GET_info_max_retries \<Longrightarrow>
   probe_loop ps n \<longleftrightarrow> True \<in> set (take (Suc start_GET_info_max_retries - n) ps)"
proof (induction ps n rule: probe_loop.induct)
  case (1 ps n)
  have u: "probe_loop ps n =
     (let ok = (case ps of [] \<Rightarrow> False | p # _ \<Rightarrow> p) in
      if ok then True else if Suc n > start_GET_info_max_retries then False else probe_loop (tl ps) (Suc n))"
    by (rule probe_loop.simps)
  have "Suc start_GET_info_max_retries - n = Suc (start_GET_info_max_retries - n)"
    using "1.prems" by simp
  then show ?case using "1" u
    by (cases ps; cases "Suc n \<le> start_GET_info_max_retries") (auto simp: Let_def)
qed

lemma probe_loop_start: "probe_loop ps 0 \<longleftrightarrow> True \<in> set (take 11 ps)"
  using probe_loop_iff [of 0 ps] by (simp add: start_GET_info_max_retries_def)

text \<open>The listener invariant: the wait group counts exactly the listener
  goroutines still serving, each of a server already created.\<close>

lemma listener_inv_init: "listener_inv listener_init"
  by (simp add: listener_inv_def listener_init_def)

lemma stop_emulator_inv: "listener_inv e \<Longrightarrow> listener_inv (snd (stop_emulator c e))"
proof (cases "ls_server e")
  case None
  then show "listener_inv e \<Longrightarrow> ?thesis" by (simp add: stop_emulator_def)
next
  case (Some s)
  then show "listener_inv e \<Longrightarrow> ?thesis"
  proof (cases s; cases c)
    fix n a assume s: "s = (n, a)" "c = None" and i: "listener_inv e"
    let ?e1 = "if n \<in> set (ls_running e)
               then e\<lparr>ls_wg := ls_wg e - 1, ls_running := removeAll n (ls_running e)\<rparr> else e"
    have "listener_inv ?e1" using i Some s
      by (auto simp: listener_inv_def distinct_removeAll length_removeAll_distinct)
    then show ?thesis using Some s by (simp add: stop_emulator_def Let_def)
  qed (simp_all add: stop_emulator_def)
qed

lemma start_emulator_inv: "listener_inv e \<Longrightarrow> listener_inv (snd (start_emulator cfg l ps c e))"
proof -
  assume i: "listener_inv e"
  define e1 where "e1 = e\<lparr>ls_server := Some (ls_next e, emulator_addr cfg), ls_next := Suc (ls_next e),
                 ls_wg := (if l then Suc (ls_wg e) else ls_wg e),
                 ls_running := (if l then ls_next e # ls_running e else ls_running e)\<rparr>"
  have "listener_inv e1" using i by (auto simp: e1_def listener_inv_def split: option.splits)
  then show ?thesis using stop_emulator_inv [of e1]
    by (simp add: start_emulator_def Let_def e1_def [symmetric])
qed

text \<open>Stopping an emulator that was never started dereferences nil.\<close>

lemma stop_emulator_unstarted: "stop_emulator c listener_init = (Some (LcPanic ''nil pointer dereference''), listener_init)"
  by (simp add: stop_emulator_def listener_init_def)

text \<open>From an emulator with no listener, a successful start followed by a
  successful close stops cleanly: the wait group is back to 0 and no
  listener is left.\<close>

lemma start_emulator_Some:
  assumes "start_emulator cfg l ps c e = (None, e1)"
  shows "probe_loop ps 0 \<and>
    e1 = e\<lparr>ls_server := Some (ls_next e, emulator_addr cfg), ls_next := Suc (ls_next e),
           ls_wg := (if l then Suc (ls_wg e) else ls_wg e),
           ls_running := (if l then ls_next e # ls_running e else ls_running e)\<rparr>"
  using assms by (simp add: start_emulator_def Let_def split: if_splits)

lemma start_then_stop:
  assumes "listener_inv e" "ls_running e = []"
    and "start_emulator cfg l ps c e = (None, e1)"
  shows "stop_emulator None e1 = (None, snd (stop_emulator None e1)) \<and>
         ls_wg (snd (stop_emulator None e1)) = 0 \<and> ls_running (snd (stop_emulator None e1)) = []"
proof -
  have "ls_wg e = 0" using assms(1,2) by (simp add: listener_inv_def)
  then show ?thesis using start_emulator_Some [OF assms(3)] assms(2)
    by (cases l) (simp_all add: stop_emulator_def)
qed

text \<open>Two successful starts without a stop leave the first listener
  running with nobody to close it: the next stop blocks in
  \<^verbatim>\<open>Wait\<close>.\<close>

lemma start_twice_blocks:
  assumes "start_emulator cfg True ps c e = (None, e1)" "start_emulator cfg' True ps' c' e1 = (None, e2)"
  shows "fst (stop_emulator None e2) = Some LcBlocked"
  using start_emulator_Some [OF assms(1)] start_emulator_Some [OF assms(2)]
  by (simp add: stop_emulator_def)

text \<open>\<^verbatim>\<open>start\<close> succeeds exactly when every fetch succeeds and one of the
  first eleven probes answers; the globals are then freshly initialised.\<close>

lemma iswift_start_ok:
  "iswift_start f l ps c st = (None, st') \<longleftrightarrow>
   list_all (\<lambda>e. e = None) (conf_errors f) \<and> True \<in> set (take 11 ps) \<and>
   st' = (initialize_globals (conf_values f), snd (start_emulator (conf_values f) l ps c (snd st)))"
proof (cases "initialize_globals_conf f (fst st)")
  case (Pair r g1)
  show ?thesis
  proof (cases r)
    case None
    then have "list_all (\<lambda>e. e = None) (conf_errors f) \<and> g1 = initialize_globals (conf_values f)"
      using initialize_globals_conf_ok [of f "fst st" g1] Pair by simp
    then show ?thesis using Pair None
      by (auto simp: iswift_start_def start_emulator_def probe_loop_start Let_def initialize_globals_def)
  next
    case (Some err)
    then have "\<not> list_all (\<lambda>e. e = None) (conf_errors f)"
      using initialize_globals_conf_ok [of f "fst st" "initialize_globals (conf_values f)"] Pair by auto
    then show ?thesis using Pair Some by (simp add: iswift_start_def)
  qed
qed

lemma iswift_start_globals: "fst (snd (iswift_start f l ps c st)) = snd (initialize_globals_conf f (fst st))"
  by (simp add: iswift_start_def split: prod.split option.split)

lemma iswift_start_emulator:
  "snd (snd (iswift_start f l ps c st)) = snd st \<or>
   snd (snd (iswift_start f l ps c st)) = snd (start_emulator (g_config (snd (initialize_globals_conf f (fst st)))) l ps c (snd st))"
  by (simp add: iswift_start_def split: prod.split option.split)

text \<open>After a successful start the current token is the one of nonce 0,
  whatever re-authentications an earlier run made: \<^verbatim>\<open>stop\<close> keeps the
  token and \<^verbatim>\<open>start\<close> resets it to the same string every time.\<close>

lemma start_token:
  "iswift_start f l ps c st = (None, st') \<Longrightarrow> get_current_auth_token st' = fixed_auth_token_prefix @ hex8 0"
  by (simp add: iswift_start_ok get_current_auth_token_def initialize_globals_def)

text \<open>Starting and stopping keep the invariants: the account map well
  formed, the token the one of the nonce, and the emulator invariant.\<close>

lemma initialize_globals_inv: "swift_wf (initialize_globals c) \<and> token_consistent (initialize_globals c)"
  by (simp add: initialize_globals_def swift_wf_def token_consistent_def)

lemma initialize_globals_conf_inv:
  assumes "swift_wf g" "token_consistent g"
  shows "swift_wf (snd (initialize_globals_conf f g)) \<and> token_consistent (snd (initialize_globals_conf f g))"
proof (cases "fst (initialize_globals_conf f g)")
  case None
  then have "snd (initialize_globals_conf f g) = initialize_globals (conf_values f)"
    using initialize_globals_conf_ok [of f g "snd (initialize_globals_conf f g)"]
    by (cases "initialize_globals_conf f g") simp
  then show ?thesis using initialize_globals_inv by simp
next
  case (Some err)
  then show ?thesis using initialize_globals_conf_frame [of f g] assms
    by (simp add: swift_wf_def token_consistent_def)
qed

definition lifecycle_inv :: "iswift_state \<Rightarrow> bool" where
  "lifecycle_inv st \<longleftrightarrow> swift_wf (fst st) \<and> token_consistent (fst st) \<and> listener_inv (snd st)"

lemma iswift_start_inv:
  assumes "lifecycle_inv st"
  shows "lifecycle_inv (snd (iswift_start f l ps c st))"
proof -
  have i: "swift_wf (fst st)" "token_consistent (fst st)" "listener_inv (snd st)"
    using assms by (simp_all add: lifecycle_inv_def)
  have "listener_inv (snd (snd (iswift_start f l ps c st)))"
    using iswift_start_emulator [of f l ps c st]
  proof
    assume "snd (snd (iswift_start f l ps c st)) = snd st"
    then show ?thesis using i(3) by simp
  next
    assume "snd (snd (iswift_start f l ps c st)) =
            snd (start_emulator (g_config (snd (initialize_globals_conf f (fst st)))) l ps c (snd st))"
    then show ?thesis using start_emulator_inv [OF i(3)] by simp
  qed
  then show ?thesis using initialize_globals_conf_inv [OF i(1,2), of f]
    by (simp add: lifecycle_inv_def iswift_start_globals)
qed

lemma uninitialize_globals_inv:
  "token_consistent g \<Longrightarrow> swift_wf (uninitialize_globals g) \<and> token_consistent (uninitialize_globals g)"
  by (simp add: uninitialize_globals_def swift_wf_def token_consistent_def)

lemma iswift_stop_inv:
  assumes "lifecycle_inv st"
  shows "lifecycle_inv (snd (iswift_stop c st))"
proof (cases "stop_emulator c (snd st)")
  case (Pair r e1)
  have "listener_inv e1" using stop_emulator_inv [of "snd st" c] assms Pair by (simp add: lifecycle_inv_def)
  moreover have "swift_wf (uninitialize_globals (fst st)) \<and> token_consistent (uninitialize_globals (fst st))"
    using assms uninitialize_globals_inv by (simp add: lifecycle_inv_def)
  moreover have "swift_wf (fst st) \<and> token_consistent (fst st)"
    using assms by (simp add: lifecycle_inv_def)
  ultimately show ?thesis using Pair
    by (cases r) (simp_all only: iswift_stop_def lifecycle_inv_def prod.case option.case fst_conv snd_conv)
qed

text \<open>\<^verbatim>\<open>main\<close> runs the daemon exactly when there is a second argument,
  on that argument and the ones after it.\<close>

lemma ramswift_main_daemon:
  "ramswift_main args = MainDaemon c rest \<longleftrightarrow> (\<exists>a0. args = a0 # c # rest)"
proof (cases args)
  case (Cons a0 t)
  then show ?thesis by (cases t) (auto simp: ramswift_main_def)
qed (simp add: ramswift_main_def)

text \<open>A run: start with the first probe failing and the second answering,
  then stop. The listen address is bracketed as \<^verbatim>\<open>net.JoinHostPort\<close>
  does for an IPv6 address, the stop leaves no listener and no account, and
  the store of the previous run is gone.\<close>

lemma ex_lifecycle_run:
  "(case iswift_start ex_conf True [False, True] None (ex_swift, listener_init) of
      (None, st1) \<Rightarrow>
        ls_server (snd st1) = Some (0, ''[::1]:9999'') \<and> get_current_auth_token st1 = fixed_auth_token_prefix @ hex8 0 \<and>
        (case iswift_stop None st1 of
           (None, st2) \<Rightarrow> ls_wg (snd st2) = 0 \<and> ls_running (snd st2) = [] \<and> g_accounts (fst st2) ''acct'' = None
         | _ \<Rightarrow> False)
    | _ \<Rightarrow> False)"
proof -
  have p: "probe_loop [False, True] 0" by (simp add: probe_loop_start)
  have d: "nat_to_decimal 9999 = ''9999''"
    by (subst nat_to_decimal.simps, simp add: char_of_def bit_0)+
  have a: "emulator_addr (conf_values ex_conf) = ''[::1]:9999''"
    using d by (simp add: emulator_addr_def join_host_port_def conf_values_def ex_conf_def)
  have ok: "list_all (\<lambda>e. e = None) (conf_errors ex_conf)" by (simp add: conf_errors_def ex_conf_def)
  have st: "iswift_start ex_conf True [False, True] None (ex_swift, listener_init) =
            (None, (initialize_globals (conf_values ex_conf),
                    snd (start_emulator (conf_values ex_conf) True [False, True] None listener_init)))"
    using ok iswift_start_ok by (simp add: probe_loop_start [symmetric] p)
  show ?thesis unfolding st using p a
    by (simp add: start_emulator_def Let_def listener_init_def iswift_stop_def stop_emulator_def
        get_current_auth_token_def initialize_globals_def uninitialize_globals_def)
qed

end
