(* ===== verification/Client.thy ===== *)
theory Client
  imports Wire
begin

text \<open>
  The client side of RetryRPC as \<^verbatim>\<open>src/retryrpc/client.go\<close> has it: the
  single function \<^verbatim>\<open>Client.send\<close> (lines 35--108). It allocates the next
  request ID under the client lock, marshals a \<^verbatim>\<open>jsonRequest\<close>, records the
  request as outstanding, writes an 8-byte big-endian length followed by the
  JSON text, and then reads one reply with a \<^verbatim>\<open>getIO\<close> of its own.

  JSON marshalling and unmarshalling and the client's \<^verbatim>\<open>getIO\<close> are not in
  \<^verbatim>\<open>src/\<close>; they are parameters of the model (\<open>cenv\<close>). The writes on the
  connection only print their errors, so both are modelled as complete.
  The request ID counter is a \<^verbatim>\<open>uint64\<close>, a \<open>64 word\<close>.
\<close>

record client_request =
  creq_len :: int
  creq_jreq :: bytes

record rpc_client =
  cl_my_unique_id :: string
  cl_current_request_id :: requestID
  cl_outstanding :: "requestID \<rightharpoonup> client_request"
  cl_out :: bytes

text \<open>The environment of a call: JSON marshalling of the request, the reply
  read back (\<open>None\<close> when \<^verbatim>\<open>getIO\<close> fails), and the two decodings of it
  (\<open>False\<close> when \<^verbatim>\<open>json.Unmarshal\<close> fails).\<close>

record cenv =
  ce_marshal :: "json_request \<Rightarrow> bytes"
  ce_get_io :: "bytes option"
  ce_unmarshal_reply :: "bytes \<Rightarrow> bool"
  ce_unmarshal_result :: "bytes \<Rightarrow> bool"

datatype send_error = GetIOError | UnmarshalError

text \<open>What \<^verbatim>\<open>send\<close> returns: an error, or success with the \<^verbatim>\<open>reply\<close>
  result parameter, which no statement of the function assigns.\<close>

datatype send_result = SendErr send_error | SendOk "string option"

text \<open>The 8 bytes \<^verbatim>\<open>binary.Write(conn, binary.BigEndian, req.Len)\<close> writes
  for an \<^verbatim>\<open>int64\<close> that is not negative.\<close>

definition client_frame :: "bytes \<Rightarrow> bytes" where
  "client_frame j = be_encode 8 (length j) @ j"

text \<open>
  Lines 36--62: the request carries the method, the parameter, the client's
  identifier and the new ID; \<^verbatim>\<open>HighestReplySeen\<close> is never assigned and
  keeps Go's zero value. The counter is incremented (wrapping) under the lock
  and the request is stored under its ID.
\<close>

definition client_prepare :: "cenv \<Rightarrow> string \<Rightarrow> string \<Rightarrow> rpc_client \<Rightarrow> json_request \<times> rpc_client" where
  "client_prepare e meth params cl =
     (let crid = cl_current_request_id cl + 1;
          jreq = \<lparr>jreq_method = meth, jreq_params = params, jreq_my_unique_id = cl_my_unique_id cl,
                  jreq_request_id = crid, jreq_highest_reply_seen = 0\<rparr>;
          j = ce_marshal e jreq
      in (jreq, cl\<lparr>cl_current_request_id := crid,
                   cl_outstanding := (cl_outstanding cl)(crid \<mapsto> \<lparr>creq_len = int (length j), creq_jreq = j\<rparr>),
                   cl_out := cl_out cl @ client_frame j\<rparr>))"

text \<open>The whole of \<^verbatim>\<open>send\<close>: after the writes, lines 79--107 read one reply
  and decode it twice; success returns the unassigned \<^verbatim>\<open>reply\<close>.\<close>

definition client_send :: "cenv \<Rightarrow> string \<Rightarrow> string \<Rightarrow> rpc_client \<Rightarrow> send_result \<times> rpc_client" where
  "client_send e meth params cl =
     (let cl1 = snd (client_prepare e meth params cl)
      in (case ce_get_io e of
            None \<Rightarrow> (SendErr GetIOError, cl1)
          | Some buf \<Rightarrow>
              if \<not> ce_unmarshal_reply e buf then (SendErr UnmarshalError, cl1)
              else if \<not> ce_unmarshal_result e buf then (SendErr UnmarshalError, cl1)
              else (SendOk None, cl1)))"

text \<open>A run of \<^verbatim>\<open>send\<close> calls on one client, one per (method, parameter)
  pair, and the request IDs they put on the wire.\<close>

fun client_send_all :: "cenv \<Rightarrow> (string \<times> string) list \<Rightarrow> rpc_client \<Rightarrow> requestID list \<times> rpc_client" where
  "client_send_all e [] cl = ([], cl)"
| "client_send_all e ((m, p) # rs) cl =
     (let (jreq, cl1) = client_prepare e m p cl; (ids, cl2) = client_send_all e rs cl1
      in (jreq_request_id jreq # ids, cl2))"

text \<open>A client with no request sent yet, and an environment whose marshalling
  gives \<^verbatim>\<open>{}\<close> and whose reply read fails.\<close>

definition ex_client :: rpc_client where
  "ex_client = \<lparr>cl_my_unique_id = ''client 1'', cl_current_request_id = 0, cl_outstanding = Map.empty, cl_out = []\<rparr>"

definition ex_cenv :: cenv where
  "ex_cenv = \<lparr>ce_marshal = (\<lambda>_. ''{}''), ce_get_io = None, ce_unmarshal_reply = (\<lambda>_. True), ce_unmarshal_result = (\<lambda>_. True)\<rparr>"

subsection \<open>Client lemmas\<close>

lemma client_frame_header:
  assumes "j \<noteq> []"
  shows "take header_size (client_frame j @ rest) = be_encode 8 (length j) @ [hd j]"
  using assms by (cases j) (simp_all add: client_frame_def header_size_def)

text \<open>C23 Server framing rejects client framing: \<^verbatim>\<open>Client.send\<close> writes an 8-byte
  length and then the JSON text, with no type byte, so the server's \<^verbatim>\<open>getIO\<close>
  reads the JSON's opening brace as the message type and fails the frame
  as malformed, whatever follows on the connection.\<close>

theorem server_rejects_client_frame:
  assumes "j \<noteq> []" and "hd j = CHR ''{''"
  shows "read_frame ceiling (client_frame j @ rest) = Inl MalformedFrame"
proof -
  have "of_char (CHR ''{'') = (123::nat)" by simp
  then have "msg_type_of_code (of_char (hd j)) = None" using assms(2) by (simp add: msg_type_of_code_def)
  then show ?thesis
    using client_frame_header [OF assms(1), of rest]
    apply (simp add: read_frame_def decode_header_def header_size_def nth_append)
    done
qed


text \<open>C26 Every call of \<^verbatim>\<open>Client.send\<close>, successful or not, adds its request ID to
  the outstanding map and removes none: the map only grows.\<close>

theorem client_send_outstanding:
  "dom (cl_outstanding (snd (client_send e m p cl))) = insert (cl_current_request_id cl + 1) (dom (cl_outstanding cl)) \<and>
   cl_current_request_id (snd (client_send e m p cl)) = cl_current_request_id cl + 1"
  by (simp add: client_send_def client_prepare_def Let_def split: option.split)

theorem server_rejects_client_frame_witness:
  "''{}'' \<noteq> [] \<and> hd ''{}'' = CHR ''{'' \<and> read_frame 4096 (client_frame ''{}'' @ []) = Inl MalformedFrame"
  using server_rejects_client_frame [of "''{}''" 4096 "[]"] by simp

lemma client_send_all_ids:
  "fst (client_send_all e rs cl) = map (\<lambda>i. cl_current_request_id cl + 1 + of_nat i) [0..<length rs]"
proof (induction rs arbitrary: cl)
  case Nil
  then show ?case by simp
next
  case (Cons r rs)
  obtain m p where r: "r = (m, p)" by fastforce
  have ids: "fst (client_send_all e (r # rs) cl) =
      (cl_current_request_id cl + 1) # fst (client_send_all e rs (snd (client_prepare e m p cl)))"
    using r by (simp add: client_prepare_def Let_def split: prod.split)
  have "map (\<lambda>i. cl_current_request_id cl + 1 + of_nat i) [0..<length (r # rs)] =
        (cl_current_request_id cl + 1) # map (\<lambda>i. cl_current_request_id cl + 1 + 1 + of_nat i) [0..<length rs]"
    by (simp only: length_Cons map_upt_Suc) (simp add: add.assoc)
  then show ?case
    using Cons.IH [of "snd (client_prepare e m p cl)"] ids
    by (simp add: client_prepare_def Let_def)
qed

lemma distinct_word_offsets:
  "distinct (map (\<lambda>i. (c::64 word) + of_nat i) [0..<k]) \<longleftrightarrow> k \<le> 2 ^ 64"
proof
  assume d: "distinct (map (\<lambda>i. c + of_nat i) [0..<k])"
  show "k \<le> 2 ^ 64"
  proof (rule ccontr)
    assume "\<not> k \<le> 2 ^ 64"
    then have "0 \<in> set [0..<k]" "2 ^ 64 \<in> set [0..<k]" by auto
    moreover have "c + of_nat 0 = c + of_nat (2 ^ 64)" by simp
    moreover have "(0::nat) \<noteq> 2 ^ 64" by simp
    ultimately show False using d unfolding distinct_map inj_on_def by blast
  qed
next
  assume k: "k \<le> 2 ^ 64"
  have "inj_on (\<lambda>i. c + of_nat i) (set [0..<k])"
  proof (rule inj_onI)
    fix i j assume i: "i \<in> set [0..<k]" and j: "j \<in> set [0..<k]" and eq: "c + of_nat i = c + of_nat j"
    then have "(of_nat i :: 64 word) = of_nat j" by simp
    moreover have "i < 2 ^ 64" "j < 2 ^ 64" using i j k by auto
    ultimately show "i = j" by (simp add: word_of_nat_eq_iff take_bit_eq_mod)
  qed
  then show "distinct (map (\<lambda>i. c + of_nat i) [0..<k])" by (simp add: distinct_map)
qed

text \<open>C27 Request IDs are unique as long as the counter does not wrap: the IDs of a
  run of sends from one client are distinct exactly when there are at most
  \<open>2^64\<close> of them.\<close>

theorem client_send_all_distinct:
  "distinct (fst (client_send_all e rs cl)) \<longleftrightarrow> length rs \<le> 2 ^ 64"
  by (simp only: client_send_all_ids distinct_word_offsets)

end
