(* ===== verification/Client_Ack.thy ===== *)
theory Client_Ack
  imports RPC_Prelude
begin

text \<open>
  The client's consecutive-ACK bookkeeping (spec C8): the IDs whose reply
  has arrived but is not yet known to be consecutive, kept by the client in
  a \<^verbatim>\<open>sortedmap\<close> B-tree, and the watermark \<^verbatim>\<open>highestConsecutive\<close>.
  The client code is not under \<^verbatim>\<open>src/\<close>: \<open>update_highest_consecutive_num\<close>
  and \<open>set_highest_consecutive\<close> are modelled from the spec, the tree as a
  sorted list without duplicates (a \<^verbatim>\<open>Put\<close> of a present key leaves it).
  The test \<^verbatim>\<open>testBtree\<close> of \<^verbatim>\<open>src/retryrpc/retryrpc_test.go\<close> drives them
  and is modelled as the list of its assertions.
\<close>

record ack_state =
  ack_pending :: "requestID list"
  ack_highest :: requestID

definition ack_init :: ack_state where
  "ack_init = \<lparr>ack_pending = [], ack_highest = 0\<rparr>"

text \<open>\<^verbatim>\<open>updateHighestConsecutiveNum(id)\<close>: insert the ID into the tree.\<close>

definition update_highest_consecutive_num :: "requestID \<Rightarrow> ack_state \<Rightarrow> ack_state" where
  "update_highest_consecutive_num i s =
     s\<lparr>ack_pending := (if i \<in> set (ack_pending s) then ack_pending s else insort i (ack_pending s))\<rparr>"

text \<open>The walk of \<^verbatim>\<open>setHighestConsecutive\<close> over the smallest keys: while
  the next one is the watermark plus one (\<^verbatim>\<open>uint64\<close> arithmetic), it
  becomes the watermark and leaves the tree.\<close>

fun consume_run :: "requestID \<Rightarrow> requestID list \<Rightarrow> requestID \<times> requestID list" where
  "consume_run h [] = (h, [])"
| "consume_run h (x # xs) = (if x = h + 1 then consume_run x xs else (h, x # xs))"

definition set_highest_consecutive :: "ack_state \<Rightarrow> ack_state" where
  "set_highest_consecutive s =
     (case consume_run (ack_highest s) (ack_pending s) of (h, p) \<Rightarrow> s\<lparr>ack_highest := h, ack_pending := p\<rparr>)"

text \<open>A reply for \<open>i\<close> arrives: record it, then advance the watermark.\<close>

definition ack_receive :: "requestID \<Rightarrow> ack_state \<Rightarrow> ack_state" where
  "ack_receive i s = set_highest_consecutive (update_highest_consecutive_num i s)"

text \<open>The tree is sorted without duplicates; IDs start at 1.\<close>

definition ack_wf :: "ack_state \<Rightarrow> bool" where
  "ack_wf s \<longleftrightarrow> sorted (ack_pending s) \<and> distinct (ack_pending s) \<and> 0 \<notin> set (ack_pending s)"

text \<open>Between two replies: every ID in the tree is above the watermark,
  and the next one is not there (\<^verbatim>\<open>setHighestConsecutive\<close> has run).\<close>

definition ack_settled :: "ack_state \<Rightarrow> bool" where
  "ack_settled s \<longleftrightarrow> ack_wf s \<and> (\<forall>x \<in> set (ack_pending s). ack_highest s < x) \<and>
     ack_highest s + 1 \<notin> set (ack_pending s)"

text \<open>The abstraction: the set of IDs whose reply has been received.\<close>

definition ack_received :: "ack_state \<Rightarrow> requestID set" where
  "ack_received s = {k. 1 \<le> k \<and> k \<le> ack_highest s} \<union> set (ack_pending s)"

subsection \<open>The test \<^verbatim>\<open>testBtree\<close>\<close>

text \<open>Lines 130--163: three batches of out-of-order IDs, each followed by
  \<^verbatim>\<open>setHighestConsecutive\<close>, and the seven assertions in the order of the
  test: each says whether the model meets it.\<close>

definition test_btree :: "bool list" where
  "test_btree =
     (let s1 = set_highest_consecutive (fold update_highest_consecutive_num [10, 5, 11] ack_init);
          s2 = fold update_highest_consecutive_num [4, 3, 2, 1] s1;
          s3 = set_highest_consecutive s2;
          s4 = fold update_highest_consecutive_num [6, 7, 8, 9] s3;
          s5 = set_highest_consecutive s4
      in [ack_highest s1 = 0, length (ack_pending s2) = 3, length (ack_pending s3) = 3, ack_highest s3 = 5,
          length (ack_pending s4) = 1, length (ack_pending s5) = 1, ack_highest s5 = 11])"

subsection \<open>Lemmas\<close>

lemma ack_wf_init: "ack_wf ack_init"
  by (simp add: ack_wf_def ack_init_def)

lemma update_highest_consecutive_num_wf:
  "ack_wf s \<Longrightarrow> i \<noteq> 0 \<Longrightarrow> ack_wf (update_highest_consecutive_num i s)"
  by (auto simp: ack_wf_def update_highest_consecutive_num_def sorted_insort distinct_insort set_insort_key)

lemma consume_run_suffix: "consume_run h xs = (h', ys) \<Longrightarrow> \<exists>zs. xs = zs @ ys"
  by (induction h xs rule: consume_run.induct) (auto split: if_splits)

lemma set_highest_consecutive_wf: "ack_wf s \<Longrightarrow> ack_wf (set_highest_consecutive s)"
proof -
  assume w: "ack_wf s"
  obtain h p where c: "consume_run (ack_highest s) (ack_pending s) = (h, p)" by fastforce
  obtain zs where "ack_pending s = zs @ p" using consume_run_suffix [OF c] by blast
  then show ?thesis using w c by (simp add: ack_wf_def set_highest_consecutive_def sorted_append)
qed

text \<open>The walk over a sorted tree above the watermark consumes exactly the
  run that continues it: the received IDs stay the same, the watermark does
  not go down, the rest of the tree stays above it and does not continue
  it.\<close>

lemma consume_run_correct:
  assumes "sorted xs" "distinct xs" "0 \<notin> set xs" "\<forall>x \<in> set xs. h < x"
    and "consume_run h xs = (h', ys)"
  shows "{k. 1 \<le> k \<and> k \<le> h'} \<union> set ys = {k. 1 \<le> k \<and> k \<le> h} \<union> set xs \<and>
         h \<le> h' \<and> (\<forall>y \<in> set ys. h' < y) \<and> h' + 1 \<notin> set ys"
  using assms
proof (induction xs arbitrary: h)
  case Nil
  then show ?case by simp
next
  case (Cons x xs)
  have nm: "h \<noteq> - 1" using Cons.prems(4) word_less_not_max by auto
  show ?case
  proof (cases "x = h + 1")
    case True
    have gt: "\<forall>y \<in> set xs. x < y" using Cons.prems(1,2) by (auto simp: less_le)
    have ih: "{k. 1 \<le> k \<and> k \<le> h'} \<union> set ys = {k. 1 \<le> k \<and> k \<le> x} \<union> set xs \<and>
              x \<le> h' \<and> (\<forall>y \<in> set ys. h' < y) \<and> h' + 1 \<notin> set ys"
      using Cons.IH [of x] Cons.prems True gt by simp
    have "{k. 1 \<le> k \<and> k \<le> x} = insert x {k. 1 \<le> k \<and> k \<le> h}"
      using True nm Cons.prems(3) by (auto simp: word_one_le_iff word_less_plus_one_iff [symmetric] less_le)
    moreover have "h \<le> x" using Cons.prems(4) by auto
    ultimately show ?thesis using ih by auto
  next
    case False
    have "h < x" using Cons.prems(4) by simp
    then have "h + 1 \<le> x" using word_plus_one_le_iff [OF nm] by simp
    then have "h + 1 < x" using False by (simp add: less_le)
    then have "h + 1 \<notin> set (x # xs)" using Cons.prems(1) by (auto dest: order.strict_trans2)
    then show ?thesis using Cons.prems False by auto
  qed
qed

lemma update_highest_consecutive_num_received:
  "ack_received (update_highest_consecutive_num i s) = insert i (ack_received s)"
  by (auto simp: ack_received_def update_highest_consecutive_num_def set_insort_key)

lemma set_highest_consecutive_correct:
  assumes "ack_wf s" "\<forall>x \<in> set (ack_pending s). ack_highest s < x"
  shows "ack_settled (set_highest_consecutive s) \<and> ack_received (set_highest_consecutive s) = ack_received s \<and>
         ack_highest s \<le> ack_highest (set_highest_consecutive s)"
proof -
  obtain h p where c: "consume_run (ack_highest s) (ack_pending s) = (h, p)" by fastforce
  have "ack_wf (set_highest_consecutive s)" using set_highest_consecutive_wf [OF assms(1)] .
  then show ?thesis using consume_run_correct [OF _ _ _ assms(2) c] assms(1) c
    by (simp add: ack_settled_def ack_received_def set_highest_consecutive_def ack_wf_def)
qed

text \<open>A reply that was not received before, for a valid ID, keeps the
  bookkeeping settled, adds its ID to the received set, and does not lower
  the watermark.\<close>

lemma ack_receive_correct:
  assumes "ack_settled s" "i \<notin> ack_received s" "i \<noteq> 0"
  shows "ack_settled (ack_receive i s) \<and> ack_received (ack_receive i s) = insert i (ack_received s) \<and>
         ack_highest s \<le> ack_highest (ack_receive i s)"
proof -
  let ?s1 = "update_highest_consecutive_num i s"
  have w: "ack_wf ?s1" using assms(1,3) update_highest_consecutive_num_wf by (simp add: ack_settled_def)
  have "ack_highest s < i" using assms(2,3) by (auto simp: ack_received_def word_one_le_iff not_le)
  then have "\<forall>x \<in> set (ack_pending ?s1). ack_highest ?s1 < x"
    using assms(1) by (auto simp: ack_settled_def update_highest_consecutive_num_def set_insort_key)
  then show ?thesis using set_highest_consecutive_correct [OF w] update_highest_consecutive_num_received [of i s]
    by (simp add: ack_receive_def update_highest_consecutive_num_def)
qed

text \<open>In a settled state the watermark is the highest-consecutive ID of the
  spec: every ID from 1 to it has been received, the next one has not.\<close>

lemma ack_settled_watermark:
  assumes "ack_settled s"
  shows "{k. 1 \<le> k \<and> k \<le> ack_highest s} \<subseteq> ack_received s \<and> ack_highest s + 1 \<notin> ack_received s"
proof -
  have "ack_highest s + 1 \<notin> {k. 1 \<le> k \<and> k \<le> ack_highest s}"
  proof (cases "ack_highest s = - 1")
    case False
    then show ?thesis using word_plus_one_le_iff [OF False, of "ack_highest s"] by auto
  qed simp
  then show ?thesis using assms by (auto simp: ack_received_def ack_settled_def)
qed

lemma ack_settled_init: "ack_settled ack_init \<and> ack_received ack_init = {}"
  by (simp add: ack_settled_def ack_wf_def ack_received_def ack_init_def word_one_le_iff)

lemma fold_ack_receive:
  "ack_settled s \<Longrightarrow> distinct ids \<Longrightarrow> 0 \<notin> set ids \<Longrightarrow> set ids \<inter> ack_received s = {} \<Longrightarrow>
   ack_settled (fold ack_receive ids s) \<and> ack_received (fold ack_receive ids s) = ack_received s \<union> set ids"
proof (induction ids arbitrary: s)
  case (Cons i ids)
  have "ack_settled (ack_receive i s) \<and> ack_received (ack_receive i s) = insert i (ack_received s)"
    using ack_receive_correct [of s i] Cons.prems by auto
  then show ?case using Cons.IH [of "ack_receive i s"] Cons.prems by auto
qed simp

text \<open>Receiving the replies for 1 to \<open>w\<close>, in any order, leaves the
  watermark at \<open>w\<close> and nothing pending (spec C8, property 3).\<close>

theorem ack_receive_permutation:
  assumes "distinct ids" "set ids = {k. 1 \<le> k \<and> k \<le> w}"
  shows "fold ack_receive ids ack_init = \<lparr>ack_pending = [], ack_highest = w\<rparr>"
proof -
  let ?t = "fold ack_receive ids ack_init"
  have z: "0 \<notin> set ids" using assms(2) by (simp add: word_one_le_iff)
  have st: "ack_settled ?t" and rc: "ack_received ?t = {k. 1 \<le> k \<and> k \<le> w}"
    using fold_ack_receive [OF _ assms(1) z] ack_settled_init assms(2) by auto
  note wm = ack_settled_watermark [OF st]
  have hw: "ack_highest ?t = w"
  proof (rule ccontr)
    assume ne: "ack_highest ?t \<noteq> w"
    show False
    proof (cases "ack_highest ?t < w")
      case True
      then have nm: "ack_highest ?t \<noteq> - 1" by (rule word_less_not_max)
      then have "ack_highest ?t + 1 \<le> w" using True word_plus_one_le_iff by blast
      moreover have "ack_highest ?t + 1 \<noteq> 0" using nm by (simp add: word_plus_one_eq_0_iff)
      ultimately show False using wm rc by (simp add: word_one_le_iff)
    next
      case False
      then have "w < ack_highest ?t" using ne by simp
      then have "ack_highest ?t \<in> ack_received ?t" using wm by (auto simp: word_one_le_iff)
      then have "ack_highest ?t \<le> w" using rc by simp
      then show False using \<open>w < ack_highest ?t\<close> by simp
    qed
  qed
  have "ack_pending ?t = []"
  proof (rule ccontr)
    assume "ack_pending ?t \<noteq> []"
    then obtain x where x: "x \<in> set (ack_pending ?t)" by (cases "ack_pending ?t") auto
    then have "x \<in> {k. 1 \<le> k \<and> k \<le> w}" using rc by (auto simp: ack_received_def)
    moreover have "w < x" using x st hw by (auto simp: ack_settled_def)
    ultimately show False by (auto dest: leD)
  qed
  then show ?thesis using hw by simp
qed

text \<open>Gap tolerance (spec C8, property 4): after 5, 10, 11 the watermark is
  0; after 4, 3, 2, 1 it is 5 with 10 and 11 pending; after 6 to 9 it is 11
  with nothing pending.\<close>

lemma ack_gap_tolerance:
  "fold ack_receive [5, 10, 11] ack_init = \<lparr>ack_pending = [5, 10, 11], ack_highest = 0\<rparr> \<and>
   fold ack_receive [4, 3, 2, 1, 5, 10, 11] ack_init = \<lparr>ack_pending = [10, 11], ack_highest = 5\<rparr> \<and>
   fold ack_receive [5, 10, 11, 4, 3, 2, 1, 6, 7, 8, 9] ack_init = \<lparr>ack_pending = [], ack_highest = 11\<rparr>"
  by code_simp

text \<open>The spec's bookkeeping meets the three watermark assertions of
  \<^verbatim>\<open>testBtree\<close> and none of its four assertions on the size of the tree.\<close>

lemma test_btree_result: "test_btree = [True, False, False, True, False, False, True]"
  by code_simp

end
