(* ===== verification/Imgr_HTTP.thy ===== *)
theory Imgr_HTTP
  imports Swift_Emulator
begin

text \<open>
  The administrative HTTP server of the inode manager,
  \<^verbatim>\<open>src/imgr/imgrpkg/http-server.go\<close>: \<^verbatim>\<open>ServeHTTP\<close> (lines 60--92) reads
  the body, trims trailing slashes from the path and dispatches on the
  method to \<^verbatim>\<open>serveHTTPDelete\<close>, \<^verbatim>\<open>serveHTTPGet\<close> and \<^verbatim>\<open>serveHTTPPut\<close>,
  which route by path to the handlers of \<^verbatim>\<open>/config\<close>, \<^verbatim>\<open>/stats\<close> and
  \<^verbatim>\<open>/volume\<close>.

  The response writer is the one of \<open>Swift_Emulator\<close> (first status wins,
  headers frozen once the status is sent, a write without a status sends
  200). The volume table and its operations \<^verbatim>\<open>putVolume\<close>,
  \<^verbatim>\<open>deleteVolume\<close>, \<^verbatim>\<open>getVolumeAsJSON\<close> and \<^verbatim>\<open>getVolumeListAsJSON\<close> are
  not under \<^verbatim>\<open>src/\<close>: they are modelled from the spec's
  \<open>201/204/404/409\<close> semantics, as a map from volume names to storage
  URLs, with the JSON renderings and the text of \<^verbatim>\<open>json.Marshal(config)\<close>
  and \<^verbatim>\<open>bucketstats.SprintStats\<close> as parameters (\<open>imgr_env\<close>).
\<close>

subsection \<open>Go string helpers\<close>

text \<open>\<^verbatim>\<open>strings.TrimRight(s, "/")\<close>: drop every trailing slash.\<close>

definition trim_right_slash :: "string \<Rightarrow> string" where
  "trim_right_slash s = rev (dropWhile (\<lambda>c. c = CHR ''/'') (rev s))"

text \<open>\<^verbatim>\<open>strings.Split(s, sep)\<close> for a one-character separator: every field,
  empty ones included; the split of the empty string is \<open>[""]\<close>.\<close>

function go_split :: "char \<Rightarrow> string \<Rightarrow> string list" where
  "go_split c s =
     (if c \<in> set s then takeWhile (\<lambda>x. x \<noteq> c) s # go_split c (tl (dropWhile (\<lambda>x. x \<noteq> c) s))
      else [s])"
  by auto
termination
proof (relation "measure (\<lambda>(c, s). length s)")
  fix c :: char and s :: string
  assume "c \<in> set s"
  then have "dropWhile (\<lambda>x. x \<noteq> c) s \<noteq> []" by (simp add: dropWhile_eq_Nil_conv)
  then show "((c, tl (dropWhile (\<lambda>x. x \<noteq> c) s)), c, s) \<in> measure (\<lambda>(c, s). length s)"
    using length_dropWhile_le [of "\<lambda>x. x \<noteq> c" s] by (cases "dropWhile (\<lambda>x. x \<noteq> c) s") auto
qed simp

declare go_split.simps [simp del]

subsection \<open>The volume table\<close>

text \<open>\<^verbatim>\<open>globals.volumeMap\<close>, reduced to what the HTTP surface observes: the
  storage URL of each volume.\<close>

record imgr_globals =
  ig_volumes :: "string \<rightharpoonup> string"

datatype volume_error = VolumeExists | VolumeMissing

text \<open>\<^verbatim>\<open>putVolume(name, storageURL)\<close>: creates the volume, or fails when
  the name is taken (answered 409).\<close>

definition put_volume :: "string \<Rightarrow> string \<Rightarrow> imgr_globals \<Rightarrow> volume_error + imgr_globals" where
  "put_volume name url g =
     (case ig_volumes g name of
        Some _ \<Rightarrow> Inl VolumeExists
      | None \<Rightarrow> Inr (g\<lparr>ig_volumes := (ig_volumes g)(name \<mapsto> url)\<rparr>))"

text \<open>\<^verbatim>\<open>deleteVolume(name)\<close>: removes the volume, or fails when there is none
  (answered 404).\<close>

definition delete_volume :: "string \<Rightarrow> imgr_globals \<Rightarrow> volume_error + imgr_globals" where
  "delete_volume name g =
     (case ig_volumes g name of
        None \<Rightarrow> Inl VolumeMissing
      | Some _ \<Rightarrow> Inr (g\<lparr>ig_volumes := (ig_volumes g)(name := None)\<rparr>))"

text \<open>The parts of the process the handlers only read: the marshalled
  configuration, the statistics text, and the JSON renderings of the volume
  list and of one volume.\<close>

record imgr_env =
  ie_config_json :: bytes
  ie_stats :: string
  ie_volume_list_json :: "(string \<rightharpoonup> string) \<Rightarrow> bytes"
  ie_volume_json :: "string \<Rightarrow> string \<Rightarrow> bytes"

text \<open>\<^verbatim>\<open>getVolumeAsJSON(name)\<close>: the volume's JSON, or an error when there is
  no such volume.\<close>

definition get_volume_as_json :: "imgr_env \<Rightarrow> string \<Rightarrow> imgr_globals \<Rightarrow> volume_error + bytes" where
  "get_volume_as_json e name g =
     (case ig_volumes g name of
        None \<Rightarrow> Inl VolumeMissing
      | Some url \<Rightarrow> Inr (ie_volume_json e name url))"

subsection \<open>Requests and handlers\<close>

text \<open>A request: the method, the URL path, and the body, \<open>None\<close> when
  \<^verbatim>\<open>ioutil.ReadAll\<close> or \<^verbatim>\<open>Body.Close\<close> fails.\<close>

record imgr_request =
  ir_method :: http_method
  ir_path :: string
  ir_body :: "bytes option"

text \<open>The common tail of the handlers that answer JSON or text: set
  \<^verbatim>\<open>Content-Length\<close> (\<^verbatim>\<open>fmt.Sprintf("%d", len(b))\<close>) and
  \<^verbatim>\<open>Content-Type\<close>, send 200, write the body (e.g. lines 148--155).\<close>

definition reply_ok :: "string \<Rightarrow> bytes \<Rightarrow> http_response \<Rightarrow> http_response" where
  "reply_ok ctype b r =
     write_body b (write_header 200 (resp_set ''Content-Type'' ctype
       (resp_set ''Content-Length'' (nat_to_decimal (length b)) r)))"

text \<open>Lines 103--122.\<close>

definition serve_http_delete_of_volume ::
  "string \<Rightarrow> imgr_globals \<Rightarrow> http_response \<Rightarrow> imgr_globals \<times> http_response" where
  "serve_http_delete_of_volume path g r =
     (let ps = go_split CHR ''/'' path in
      if length ps = 3 then
        (case delete_volume (ps ! 2) g of
           Inr g' \<Rightarrow> (g', write_header 204 r)
         | Inl _ \<Rightarrow> (g, write_header 404 r))
      else (g, write_header 400 r))"

text \<open>Lines 94--101.\<close>

definition serve_http_delete ::
  "string \<Rightarrow> imgr_globals \<Rightarrow> http_response \<Rightarrow> imgr_globals \<times> http_response" where
  "serve_http_delete path g r =
     (if has_prefix path ''/volume'' then serve_http_delete_of_volume path g r
      else (g, write_header 404 r))"

text \<open>Lines 137--156 and 158--174.\<close>

definition serve_http_get_of_config :: "imgr_env \<Rightarrow> http_response \<Rightarrow> http_response" where
  "serve_http_get_of_config e r = reply_ok ''application/json'' (ie_config_json e) r"

definition serve_http_get_of_stats :: "imgr_env \<Rightarrow> http_response \<Rightarrow> http_response" where
  "serve_http_get_of_stats e r = reply_ok ''text/plain'' (ie_stats e) r"

text \<open>Lines 176--214.\<close>

definition serve_http_get_of_volume ::
  "imgr_env \<Rightarrow> string \<Rightarrow> imgr_globals \<Rightarrow> http_response \<Rightarrow> http_response" where
  "serve_http_get_of_volume e path g r =
     (let ps = go_split CHR ''/'' path in
      if length ps = 2 then reply_ok ''application/json'' (ie_volume_list_json e (ig_volumes g)) r
      else if length ps = 3 then
        (case get_volume_as_json e (ps ! 2) g of
           Inr j \<Rightarrow> reply_ok ''application/json'' j r
         | Inl _ \<Rightarrow> write_header 404 r)
      else write_header 400 r)"

text \<open>Lines 124--135.\<close>

definition serve_http_get ::
  "imgr_env \<Rightarrow> string \<Rightarrow> imgr_globals \<Rightarrow> http_response \<Rightarrow> http_response" where
  "serve_http_get e path g r =
     (if path = ''/config'' then serve_http_get_of_config e r
      else if path = ''/stats'' then serve_http_get_of_stats e r
      else if has_prefix path ''/volume'' then serve_http_get_of_volume e path g r
      else write_header 404 r)"

text \<open>Lines 225--247: the body is the storage URL.\<close>

definition serve_http_put_of_volume ::
  "string \<Rightarrow> bytes \<Rightarrow> imgr_globals \<Rightarrow> http_response \<Rightarrow> imgr_globals \<times> http_response" where
  "serve_http_put_of_volume path body g r =
     (let ps = go_split CHR ''/'' path in
      if length ps = 3 then
        (case put_volume (ps ! 2) body g of
           Inr g' \<Rightarrow> (g', write_header 201 r)
         | Inl _ \<Rightarrow> (g, write_header 409 r))
      else (g, write_header 400 r))"

text \<open>Lines 216--223.\<close>

definition serve_http_put ::
  "string \<Rightarrow> bytes \<Rightarrow> imgr_globals \<Rightarrow> http_response \<Rightarrow> imgr_globals \<times> http_response" where
  "serve_http_put path body g r =
     (if has_prefix path ''/volume'' then serve_http_put_of_volume path body g r
      else (g, write_header 404 r))"

text \<open>\<^verbatim>\<open>ServeHTTP\<close>, lines 60--92, on a fresh response writer.\<close>

definition imgr_serve_http ::
  "imgr_env \<Rightarrow> imgr_request \<Rightarrow> imgr_globals \<Rightarrow> imgr_globals \<times> http_response" where
  "imgr_serve_http e rq g =
     (let path = trim_right_slash (ir_path rq) in
      case ir_body rq of
        None \<Rightarrow> (g, write_header 400 empty_response)
      | Some body \<Rightarrow>
          (case ir_method rq of
             DELETE \<Rightarrow> serve_http_delete path g empty_response
           | GET \<Rightarrow> (g, serve_http_get e path g empty_response)
           | PUT \<Rightarrow> serve_http_put path body g empty_response
           | _ \<Rightarrow> (g, write_header 405 empty_response)))"

text \<open>An environment with fixed renderings, used by the examples below.\<close>

definition ex_imgr_env :: imgr_env where
  "ex_imgr_env = \<lparr>ie_config_json = ''{}'', ie_stats = [], ie_volume_list_json = (\<lambda>_. ''[]''),
                  ie_volume_json = (\<lambda>n u. ''{Name:'' @ n @ ''}'')\<rparr>"

subsection \<open>Lemmas\<close>

lemma go_split_no_sep [simp]: "c \<notin> set s \<Longrightarrow> go_split c s = [s]"
  by (simp add: go_split.simps)

lemma go_split_sep [simp]: "c \<notin> set a \<Longrightarrow> go_split c (a @ c # b) = a # go_split c b"
  by (subst go_split.simps) (simp add: takeWhile_append dropWhile_append)

lemma trim_right_slash_snoc [simp]: "trim_right_slash (s @ ''/'') = trim_right_slash s"
  by (simp add: trim_right_slash_def)

lemma trim_right_slash_id: "s = [] \<or> last s \<noteq> CHR ''/'' \<Longrightarrow> trim_right_slash s = s"
  by (cases s rule: rev_cases) (simp_all add: trim_right_slash_def)

lemma go_split_three:
  assumes "c \<notin> set a" "c \<notin> set b"
  shows "go_split c (c # a @ c # b) = [[], a, b]"
  using go_split_sep [of c "[]" "a @ c # b"] go_split_sep [OF assms(1), of b] assms(2) by simp

lemma volume_path_split:
  assumes "CHR ''/'' \<notin> set q" "CHR ''/'' \<notin> set n"
  shows "go_split CHR ''/'' (''/volume'' @ q @ ''/'' @ n) = [[], ''volume'' @ q, n]"
proof -
  have v: "CHR ''/'' \<notin> set (''volume'' @ q)" using assms(1) by simp
  have e: "''/volume'' @ q @ ''/'' @ n = CHR ''/'' # (''volume'' @ q) @ CHR ''/'' # n" by simp
  show ?thesis unfolding e by (rule go_split_three [OF v assms(2)])
qed

lemma volume_path_trim:
  assumes "CHR ''/'' \<notin> set n" "n \<noteq> []"
  shows "trim_right_slash (p @ n) = p @ n"
proof (rule trim_right_slash_id)
  have "last n \<in> set n" using assms(2) by (rule last_in_set)
  then have "last n \<noteq> CHR ''/''" using assms(1) by metis
  then show "p @ n = [] \<or> last (p @ n) \<noteq> CHR ''/''" using assms(2) by simp
qed

lemma has_prefix_volume [simp]: "has_prefix (''/volume'' @ q) ''/volume''"
  by (simp add: has_prefix_def)

lemma write_header_status [simp]: "rs_status (write_header st empty_response) = Some st"
  by (simp add: write_header_def empty_response_def)

lemma rs_status_empty [simp]: "rs_status empty_response = None"
  by (simp add: empty_response_def)

lemma rs_status_reply_ok [simp]: "rs_status r = None \<Longrightarrow> rs_status (reply_ok t b r) = Some 200"
  by (simp add: reply_ok_def write_body_def write_header_def resp_set_def)

lemma content_length_reply_ok:
  "header_get (rs_headers (reply_ok t b empty_response)) ''Content-Length'' = nat_to_decimal (length (rs_body (reply_ok t b empty_response)))"
  by (simp add: reply_ok_def write_body_def write_header_def resp_set_def empty_response_def hdr_put_def header_get_def)

text \<open>C36 Trailing slashes do not matter: \<^verbatim>\<open>ServeHTTP\<close> answers a request whose
  path ends in an extra slash exactly as it answers the path without it,
  state and response alike.\<close>

theorem imgr_serve_http_trailing_slash:
  "imgr_serve_http e (rq\<lparr>ir_path := ir_path rq @ ''/''\<rparr>) g = imgr_serve_http e rq g"
  by (cases "ir_body rq") (simp_all add: imgr_serve_http_def Let_def)

text \<open>C29 Round trip of the volume table: a PUT of \<^verbatim>\<open>/volume/<name>\<close> for a new
  name answers 201 and records the body as the volume's storage URL, and a
  GET of the same path then answers 200 with that volume's JSON.\<close>

theorem imgr_put_then_get_volume:
  assumes "CHR ''/'' \<notin> set n" "n \<noteq> []" "ig_volumes g n = None"
  shows "let (g1, r1) = imgr_serve_http e \<lparr>ir_method = PUT, ir_path = ''/volume/'' @ n, ir_body = Some u\<rparr> g;
             r2 = snd (imgr_serve_http e \<lparr>ir_method = GET, ir_path = ''/volume/'' @ n, ir_body = Some []\<rparr> g1)
         in rs_status r1 = Some 201 \<and> ig_volumes g1 = (ig_volumes g)(n \<mapsto> u) \<and>
            rs_status r2 = Some 200 \<and> rs_body r2 = ie_volume_json e n u"
proof -
  have sp: "go_split CHR ''/'' (''/volume/'' @ n) = [[], ''volume'', n]"
    using volume_path_split [of "[]" n] assms(1) by simp
  have tr: "trim_right_slash (''/volume/'' @ n) = ''/volume/'' @ n"
    using volume_path_trim [OF assms(1,2), of "''/volume/''"] by simp
  have hp: "has_prefix (''/volume/'' @ n) ''/volume''"
    using has_prefix_volume [of "''/'' @ n"] by simp
  show ?thesis
    using sp tr hp assms(3)
    by (simp add: imgr_serve_http_def serve_http_put_def serve_http_put_of_volume_def put_volume_def
        serve_http_get_def serve_http_get_of_volume_def get_volume_as_json_def Let_def
        reply_ok_def write_body_def write_header_def resp_set_def empty_response_def)
qed

lemma write_header_not_200 [simp]: "st \<noteq> 200 \<Longrightarrow> final_status (write_header st empty_response) \<noteq> 200"
  by (simp add: final_status_def write_header_def empty_response_def)

lemma final_status_reply_ok [simp]: "final_status (reply_ok t b empty_response) = 200"
  by (simp add: final_status_def empty_response_def)

lemma status_delete:
  "rs_status (snd (serve_http_delete p g empty_response)) \<in> Some ` {204, 400, 404}"
  by (simp add: serve_http_delete_def serve_http_delete_of_volume_def Let_def split: sum.split)

lemma status_put:
  "rs_status (snd (serve_http_put p b g empty_response)) \<in> Some ` {201, 400, 404, 409}"
  by (simp add: serve_http_put_def serve_http_put_of_volume_def Let_def split: sum.split)

lemma status_get:
  "rs_status (serve_http_get e p g empty_response) \<in> Some ` {200, 400, 404}"
  by (simp add: serve_http_get_def serve_http_get_of_volume_def serve_http_get_of_config_def
      serve_http_get_of_stats_def Let_def split: sum.split)

lemma state_delete:
  "fst (serve_http_delete p g empty_response) = g \<or> rs_status (snd (serve_http_delete p g empty_response)) = Some 204"
  by (simp add: serve_http_delete_def serve_http_delete_of_volume_def Let_def split: sum.split)

lemma state_put:
  "fst (serve_http_put p b g empty_response) = g \<or> rs_status (snd (serve_http_put p b g empty_response)) = Some 201"
  by (simp add: serve_http_put_def serve_http_put_of_volume_def Let_def split: sum.split)

lemma shape_get:
  "final_status (serve_http_get e p g empty_response) = 200 \<Longrightarrow>
   \<exists>t b. serve_http_get e p g empty_response = reply_ok t b empty_response"
  by (simp add: serve_http_get_def serve_http_get_of_volume_def serve_http_get_of_config_def
      serve_http_get_of_stats_def Let_def split: sum.split_asm if_split_asm) blast+

lemma status_not_200_200:
  "rs_status r \<in> Some ` S \<Longrightarrow> 200 \<notin> S \<Longrightarrow> final_status r \<noteq> 200"
  by (auto simp: final_status_def)

text \<open>C34 Every request gets one of the statuses 200, 201, 204, 400, 404, 405 and
  409, and always an explicit one.\<close>

theorem imgr_status_set:
  "rs_status (snd (imgr_serve_http e rq g)) \<in> Some ` {200, 201, 204, 400, 404, 405, 409}"
proof (cases "ir_body rq")
  case None
  then show ?thesis by (simp add: imgr_serve_http_def)
next
  case (Some b)
  show ?thesis
  proof (cases "ir_method rq")
    case DELETE
    then show ?thesis using Some status_delete [of "trim_right_slash (ir_path rq)" g] by (auto simp: imgr_serve_http_def)
  next
    case PUT
    then show ?thesis using Some status_put [of "trim_right_slash (ir_path rq)" b g] by (auto simp: imgr_serve_http_def)
  next
    case GET
    then show ?thesis using Some status_get [of e "trim_right_slash (ir_path rq)" g] by (auto simp: imgr_serve_http_def)
  qed (simp_all add: imgr_serve_http_def Some)
qed

text \<open>C31 Only a successful PUT (201) or DELETE (204) changes the volume table:
  every other request, including every GET and every request whose body
  cannot be read, leaves it as it was.\<close>

theorem imgr_state_change:
  "fst (imgr_serve_http e rq g) = g \<or>
   (ir_method rq = PUT \<and> rs_status (snd (imgr_serve_http e rq g)) = Some 201) \<or>
   (ir_method rq = DELETE \<and> rs_status (snd (imgr_serve_http e rq g)) = Some 204)"
proof (cases "ir_body rq")
  case None
  then show ?thesis by (simp add: imgr_serve_http_def)
next
  case (Some b)
  show ?thesis
  proof (cases "ir_method rq")
    case DELETE
    then show ?thesis using Some state_delete [of "trim_right_slash (ir_path rq)" g] by (simp add: imgr_serve_http_def)
  next
    case PUT
    then show ?thesis using Some state_put [of "trim_right_slash (ir_path rq)" b g] by (simp add: imgr_serve_http_def)
  qed (simp_all add: imgr_serve_http_def Some)
qed

lemma imgr_serve_http_shape:
  assumes "final_status (snd (imgr_serve_http e rq g)) = 200"
  shows "\<exists>t b. snd (imgr_serve_http e rq g) = reply_ok t b empty_response"
proof (cases "ir_body rq")
  case None
  then show ?thesis using assms by (simp add: imgr_serve_http_def)
next
  case (Some b)
  show ?thesis
  proof (cases "ir_method rq")
    case DELETE
    then show ?thesis using assms Some status_not_200_200 [OF status_delete [of "trim_right_slash (ir_path rq)" g]]
      by (simp add: imgr_serve_http_def)
  next
    case PUT
    then show ?thesis using assms Some status_not_200_200 [OF status_put [of "trim_right_slash (ir_path rq)" b g]]
      by (simp add: imgr_serve_http_def)
  next
    case GET
    then show ?thesis using assms Some shape_get [of e "trim_right_slash (ir_path rq)" g]
      by (simp add: imgr_serve_http_def)
  qed (use assms Some in \<open>simp_all add: imgr_serve_http_def\<close>)
qed

text \<open>C35 Every 200 response carries a \<^verbatim>\<open>Content-Length\<close> header equal to the
  decimal length of its body.\<close>

theorem imgr_content_length:
  "final_status (snd (imgr_serve_http e rq g)) = 200 \<Longrightarrow>
   header_get (rs_headers (snd (imgr_serve_http e rq g))) ''Content-Length'' =
     nat_to_decimal (length (rs_body (snd (imgr_serve_http e rq g))))"
  using imgr_serve_http_shape [of e rq g] content_length_reply_ok by auto

lemma volume_request_path:
  assumes "CHR ''/'' \<notin> set q" "CHR ''/'' \<notin> set n" "n \<noteq> []"
  shows "trim_right_slash (''/volume'' @ q @ ''/'' @ n) = ''/volume'' @ q @ ''/'' @ n \<and>
         go_split CHR ''/'' (''/volume'' @ q @ ''/'' @ n) = [[], ''volume'' @ q, n] \<and>
         has_prefix (''/volume'' @ q @ ''/'' @ n) ''/volume''"
  using volume_path_trim [OF assms(2,3), of "''/volume'' @ q @ ''/''"] volume_path_split [OF assms(1,2)]
    has_prefix_volume [of "q @ ''/'' @ n"]
  by simp

text \<open>C30 The volume routes match \<^verbatim>\<open>/volume\<close> as a string prefix, not as a path
  segment: a PUT of \<^verbatim>\<open>/volume<q>/<name>\<close> for any slash-free \<open>q\<close>, e.g.
  \<^verbatim>\<open>/volumes/<name>\<close>, creates the volume \<open>name\<close> and answers 201.\<close>

theorem imgr_volume_prefix_route:
  assumes "CHR ''/'' \<notin> set q" "CHR ''/'' \<notin> set n" "n \<noteq> []" "ig_volumes g n = None"
  shows "imgr_serve_http e \<lparr>ir_method = PUT, ir_path = ''/volume'' @ q @ ''/'' @ n, ir_body = Some u\<rparr> g =
           (g\<lparr>ig_volumes := (ig_volumes g)(n \<mapsto> u)\<rparr>, write_header 201 empty_response)"
  using volume_request_path [OF assms(1-3)] assms(4)
  by (simp add: imgr_serve_http_def serve_http_put_def serve_http_put_of_volume_def put_volume_def Let_def)

text \<open>C33 A PUT of an existing volume answers 409 and leaves the volume table,
  including the stored URL, unchanged.\<close>

theorem imgr_put_existing_conflict:
  assumes "CHR ''/'' \<notin> set n" "n \<noteq> []" "ig_volumes g n = Some v"
  shows "imgr_serve_http e \<lparr>ir_method = PUT, ir_path = ''/volume/'' @ n, ir_body = Some u\<rparr> g =
           (g, write_header 409 empty_response)"
  using volume_request_path [OF _ assms(1,2), of "[]"] assms(3)
  by (simp add: imgr_serve_http_def serve_http_put_def serve_http_put_of_volume_def put_volume_def Let_def)

text \<open>C32 A DELETE of an existing volume answers 204 and removes it, after which a
  GET of the same path answers 404.\<close>

theorem imgr_delete_then_get:
  assumes "CHR ''/'' \<notin> set n" "n \<noteq> []" "ig_volumes g n = Some v"
  shows "let (g1, r1) = imgr_serve_http e \<lparr>ir_method = DELETE, ir_path = ''/volume/'' @ n, ir_body = Some []\<rparr> g;
             r2 = snd (imgr_serve_http e \<lparr>ir_method = GET, ir_path = ''/volume/'' @ n, ir_body = Some []\<rparr> g1)
         in rs_status r1 = Some 204 \<and> ig_volumes g1 = (ig_volumes g)(n := None) \<and> rs_status r2 = Some 404"
  using volume_request_path [OF _ assms(1,2), of "[]"] assms(3)
  by (simp add: imgr_serve_http_def serve_http_delete_def serve_http_delete_of_volume_def delete_volume_def
      serve_http_get_def serve_http_get_of_volume_def get_volume_as_json_def Let_def)

theorem imgr_volume_prefix_route_witness:
  "imgr_serve_http ex_imgr_env \<lparr>ir_method = PUT, ir_path = ''/volumes/vol1'', ir_body = Some ''http://swift/v1/AUTH_test''\<rparr>
     \<lparr>ig_volumes = Map.empty\<rparr> =
   (\<lparr>ig_volumes = [''vol1'' \<mapsto> ''http://swift/v1/AUTH_test'']\<rparr>, write_header 201 empty_response)"
  using imgr_volume_prefix_route [of "''s''" "''vol1''" "\<lparr>ig_volumes = Map.empty\<rparr>" ex_imgr_env "''http://swift/v1/AUTH_test''"]
  by simp

theorem imgr_put_existing_conflict_witness:
  "imgr_serve_http ex_imgr_env \<lparr>ir_method = PUT, ir_path = ''/volume/vol1'', ir_body = Some ''u2''\<rparr>
     \<lparr>ig_volumes = [''vol1'' \<mapsto> ''u1'']\<rparr> =
   (\<lparr>ig_volumes = [''vol1'' \<mapsto> ''u1'']\<rparr>, write_header 409 empty_response)"
  using imgr_put_existing_conflict [of "''vol1''" "\<lparr>ig_volumes = [''vol1'' \<mapsto> ''u1'']\<rparr>" "''u1''" ex_imgr_env "''u2''"]
  by simp

theorem imgr_content_length_witness:
  "final_status (snd (imgr_serve_http ex_imgr_env \<lparr>ir_method = GET, ir_path = ''/config'', ir_body = Some []\<rparr> \<lparr>ig_volumes = Map.empty\<rparr>)) = 200 \<and>
   header_get (rs_headers (snd (imgr_serve_http ex_imgr_env \<lparr>ir_method = GET, ir_path = ''/config'', ir_body = Some []\<rparr> \<lparr>ig_volumes = Map.empty\<rparr>))) ''Content-Length'' = nat_to_decimal 2"
proof -
  have st: "final_status (snd (imgr_serve_http ex_imgr_env \<lparr>ir_method = GET, ir_path = ''/config'', ir_body = Some []\<rparr> \<lparr>ig_volumes = Map.empty\<rparr>)) = 200"
    by (simp add: imgr_serve_http_def serve_http_get_def serve_http_get_of_config_def trim_right_slash_def)
  have body: "rs_body (snd (imgr_serve_http ex_imgr_env \<lparr>ir_method = GET, ir_path = ''/config'', ir_body = Some []\<rparr> \<lparr>ig_volumes = Map.empty\<rparr>)) = ''{}''"
    by (simp add: imgr_serve_http_def serve_http_get_def serve_http_get_of_config_def trim_right_slash_def
        reply_ok_def write_body_def write_header_def resp_set_def empty_response_def ex_imgr_env_def)
  show ?thesis
    using imgr_content_length [OF st] body st by (simp add: numeral_2_eq_2)
qed

theorem imgr_put_then_get_volume_witness:
  "CHR ''/'' \<notin> set ''vol1'' \<and> ''vol1'' \<noteq> [] \<and> ig_volumes \<lparr>ig_volumes = Map.empty\<rparr> ''vol1'' = None \<and>
   (let (g1, r1) = imgr_serve_http ex_imgr_env \<lparr>ir_method = PUT, ir_path = ''/volume/vol1'', ir_body = Some ''url''\<rparr> \<lparr>ig_volumes = Map.empty\<rparr>;
        r2 = snd (imgr_serve_http ex_imgr_env \<lparr>ir_method = GET, ir_path = ''/volume/vol1'', ir_body = Some []\<rparr> g1)
    in rs_status r1 = Some 201 \<and> ig_volumes g1 = (ig_volumes \<lparr>ig_volumes = Map.empty\<rparr>)(''vol1'' \<mapsto> ''url'') \<and>
       rs_status r2 = Some 200 \<and> rs_body r2 = ie_volume_json ex_imgr_env ''vol1'' ''url'')"
  using imgr_put_then_get_volume [of "''vol1''" "\<lparr>ig_volumes = Map.empty\<rparr>" ex_imgr_env "''url''"]
  by simp

theorem imgr_delete_then_get_witness:
  "CHR ''/'' \<notin> set ''vol1'' \<and> ''vol1'' \<noteq> [] \<and> ig_volumes \<lparr>ig_volumes = [''vol1'' \<mapsto> ''url'']\<rparr> ''vol1'' = Some ''url'' \<and>
   (let (g1, r1) = imgr_serve_http ex_imgr_env \<lparr>ir_method = DELETE, ir_path = ''/volume/vol1'', ir_body = Some []\<rparr> \<lparr>ig_volumes = [''vol1'' \<mapsto> ''url'']\<rparr>;
        r2 = snd (imgr_serve_http ex_imgr_env \<lparr>ir_method = GET, ir_path = ''/volume/vol1'', ir_body = Some []\<rparr> g1)
    in rs_status r1 = Some 204 \<and> ig_volumes g1 = (ig_volumes \<lparr>ig_volumes = [''vol1'' \<mapsto> ''url'']\<rparr>)(''vol1'' := None) \<and>
       rs_status r2 = Some 404)"
  using imgr_delete_then_get [of "''vol1''" "\<lparr>ig_volumes = [''vol1'' \<mapsto> ''url'']\<rparr>" "''url''" ex_imgr_env]
  by simp

end
