(* ===== verification/Imgr_Lifecycle.thy ===== *)
theory Imgr_Lifecycle
  imports Imgr_HTTP Swift_Lifecycle
begin

text \<open>
  Starting and stopping the administrative HTTP server of the inode manager,
  \<^verbatim>\<open>startHTTPServer\<close> and \<^verbatim>\<open>stopHTTPServer\<close> of
  \<^verbatim>\<open>src/imgr/imgrpkg/http-server.go\<close> (lines 20--57), on the listener
  state of \<open>Swift_Lifecycle\<close>: the server is run by a goroutine in the same
  way as the Swift emulator's. The imgr configuration (\<^verbatim>\<open>PrivateIPAddr\<close>,
  \<^verbatim>\<open>HTTPServerPort\<close>) is not under \<^verbatim>\<open>src/\<close>: the address and the port
  are parameters, the port as the non-negative \<^verbatim>\<open>int\<close> it is converted to.
  What the network does is a parameter too: whether \<^verbatim>\<open>ListenAndServe\<close>
  keeps serving, and the error of \<^verbatim>\<open>Shutdown\<close>.
\<close>

text \<open>\<^verbatim>\<open>startHTTPServer\<close>: the address of line 25, a new server, \<^verbatim>\<open>Add(1)\<close>,
  and the goroutine. A \<^verbatim>\<open>ListenAndServe\<close> that returns anything but
  \<^verbatim>\<open>ErrServerClosed\<close> (it could not listen) ends the process with
  \<^verbatim>\<open>log.Fatalf\<close> before \<^verbatim>\<open>Done\<close>; otherwise the call returns nil.\<close>

definition start_http_server :: "string \<Rightarrow> nat \<Rightarrow> bool \<Rightarrow> listener \<Rightarrow> lc_error option \<times> listener" where
  "start_http_server ip port listens l =
     (let n = ls_next l;
          l1 = l\<lparr>ls_server := Some (n, join_host_port ip (nat_to_decimal port)), ls_next := Suc n,
                 ls_wg := Suc (ls_wg l), ls_running := n # ls_running l\<rparr>
      in if listens then (None, l1)
         else (Some (LcFatal ''httpServer.ListenAndServe() exited unexpectedly''), l1))"

text \<open>\<^verbatim>\<open>stopHTTPServer\<close>: \<open>shutdown_err\<close> is the error of
  \<^verbatim>\<open>Shutdown\<close>, which dereferences nil when no server was set; after a
  successful shutdown the goroutine of the current server returns
  \<^verbatim>\<open>ErrServerClosed\<close> and calls \<^verbatim>\<open>Done\<close>, and \<^verbatim>\<open>Wait\<close> returns once
  no other goroutine holds the wait group.\<close>

definition stop_http_server :: "string option \<Rightarrow> listener \<Rightarrow> lc_error option \<times> listener" where
  "stop_http_server shutdown_err l =
     (case ls_server l of
        None \<Rightarrow> (Some (LcPanic ''nil pointer dereference''), l)
      | Some (n, _) \<Rightarrow>
          (case shutdown_err of
             Some err \<Rightarrow> (Some (LcErr err), l)
           | None \<Rightarrow>
               (let l1 = (if n \<in> set (ls_running l)
                          then l\<lparr>ls_wg := ls_wg l - 1, ls_running := removeAll n (ls_running l)\<rparr>
                          else l)
                in if ls_wg l1 = 0 then (None, l1) else (Some LcBlocked, l1))))"

subsection \<open>Lemmas\<close>

text \<open>\<^verbatim>\<open>stopHTTPServer\<close> behaves as \<^verbatim>\<open>stopEmulator\<close>: \<^verbatim>\<open>Shutdown\<close>
  followed by \<^verbatim>\<open>Wait\<close> when it succeeded is \<^verbatim>\<open>Close\<close> with an early
  return on error followed by \<^verbatim>\<open>Wait\<close>. The lemmas on
  \<open>stop_emulator\<close> therefore hold of it.\<close>

lemma stop_http_server_eq: "stop_http_server = stop_emulator"
  by (simp add: fun_eq_iff stop_http_server_def stop_emulator_def)

lemma start_http_server_Some:
  assumes "start_http_server ip port b l = (None, l1)"
  shows "b \<and> l1 = l\<lparr>ls_server := Some (ls_next l, join_host_port ip (nat_to_decimal port)),
                       ls_next := Suc (ls_next l), ls_wg := Suc (ls_wg l), ls_running := ls_next l # ls_running l\<rparr>"
  using assms by (simp add: start_http_server_def Let_def split: if_splits)

lemma start_http_server_inv: "listener_inv l \<Longrightarrow> listener_inv (snd (start_http_server ip port b l))"
  by (auto simp: start_http_server_def listener_inv_def Let_def split: option.splits)

lemma stop_http_server_inv: "listener_inv l \<Longrightarrow> listener_inv (snd (stop_http_server e l))"
  unfolding stop_http_server_eq by (rule stop_emulator_inv)

text \<open>A start that listens followed by a successful shutdown from a
  listener with no server running stops cleanly.\<close>

lemma http_start_then_stop:
  assumes "listener_inv l" "ls_running l = []"
    and "start_http_server ip port b l = (None, l1)"
  shows "stop_http_server None l1 = (None, snd (stop_http_server None l1)) \<and>
         ls_wg (snd (stop_http_server None l1)) = 0 \<and> ls_running (snd (stop_http_server None l1)) = []"
proof -
  have "ls_wg l = 0" using assms(1,2) by (simp add: listener_inv_def)
  then show ?thesis using start_http_server_Some [OF assms(3)] assms(2)
    by (simp add: stop_http_server_def)
qed

text \<open>Two starts without a stop: the next stop blocks in \<^verbatim>\<open>Wait\<close>.\<close>

lemma http_start_twice_blocks:
  assumes "start_http_server ip port b l = (None, l1)" "start_http_server ip' port' b' l1 = (None, l2)"
  shows "fst (stop_http_server None l2) = Some LcBlocked"
  using start_http_server_Some [OF assms(1)] start_http_server_Some [OF assms(2)]
  by (simp add: stop_http_server_def)

end
