(* ===== verification/Spec2Isabelle.thy ===== *)
theory Spec2Isabelle
  imports RPC_Prelude Wire Session Trim Service Server_Steps Server_Shutdown Swift_Emulator Swift_Lifecycle Client Client_Ack Imgr_HTTP Imgr_Lifecycle
begin

text \<open>
  A verification library for three parts of ProxyFS that the repository ships
  under \<^verbatim>\<open>src/\<close>: the RetryRPC transport (\<^verbatim>\<open>src/retryrpc\<close>), an
  at-most-once RPC layer in which the server keeps, per client identifier, a
  cache of completed replies so that a retransmitted request is answered from
  the cache instead of re-running its handler, and trims that cache when the
  client acknowledges replies or when they age out; and the in-memory Swift
  emulator (\<^verbatim>\<open>src/iswift/iswiftpkg/impl.go\<close>) that ProxyFS tests run against;
  and the administrative HTTP server of the inode manager.

  The RetryRPC parts interact as the code composes them: \<^verbatim>\<open>Client.send\<close>
  frames a JSON request; the server's \<^verbatim>\<open>serviceClient\<close> loop reads frames
  with \<^verbatim>\<open>getIO\<close> and starts one \<^verbatim>\<open>processRequest\<close> per RPC frame, which
  consults and updates the client's session (\<^verbatim>\<open>clientInfo\<close>) and writes the
  reply with \<^verbatim>\<open>returnResults\<close>; \<^verbatim>\<open>trimCompleted\<close> trims the sessions.

  \<^item> \<open>RPC_Prelude\<close>: the model's scalar types (\<open>requestID\<close> is a
    \<open>64 word\<close>, as Go's \<^verbatim>\<open>uint64\<close>), the sum-type bind \<open>sbind\<close> through
    which fallible steps are chained, and shared word, list and map lemmas.
  \<^item> \<open>Wire\<close>: the frame codec. The reader \<^verbatim>\<open>getIO\<close> and the header
    layout are not in \<^verbatim>\<open>src/\<close> and are modelled from the spec; the writer
    \<^verbatim>\<open>returnResults\<close> (server.go 367--394) and the reply marshalling are
    from the code. Lemmas: a completely written reply reads back as the same
    frame (C12); a reply cut short by a failed write is a short read (C13).
  \<^item> \<open>Session\<close>: \<^verbatim>\<open>clientInfo\<close> as a record; the LRU list of
    \<^verbatim>\<open>container/list\<close> as a list of (handle, entry) pairs with a handle
    counter standing for element identity; the two locked sections of
    \<^verbatim>\<open>processRequest\<close> (server.go 107--134 and 147--168); the session
    invariant \<open>wf_client_info\<close>, preserved by recording a completion (C6);
    a retransmission after completion gets the stored reply (C5).
  \<^item> \<open>Trim\<close>: \<^verbatim>\<open>trimAClientBasedACK\<close> (457--476) as a
    \<^theory_text>\<open>partial_function (option)\<close> over \<open>64 word\<close> counters, \<open>None\<close>
    meaning that the loop does not return; it returns exactly when the ack
    watermark is not \<open>2^64 - 1\<close> (C9). \<^verbatim>\<open>trimTLLBased\<close> (483--509) walks
    the LRU list structurally. Both refine one abstract operation
    \<open>drop_completed\<close> (C7, C8) and establish their trim bounds (C10, C11).
  \<^item> \<open>Service\<close>: the server state (sessions behind an explicit pointer heap,
    connection contexts, the server lock as a flag, wait groups as counters
    whose negative \<^verbatim>\<open>Done\<close> panics, and a ghost log of handler calls);
    \<^verbatim>\<open>callRPCAndFormatReply\<close>, \<^verbatim>\<open>processRequest\<close>,
    \<^verbatim>\<open>getClientIDAndWait\<close>, \<^verbatim>\<open>serviceClient\<close> over a list of read events,
    and \<^verbatim>\<open>trimCompleted\<close>. Lemmas: at-most-once execution is preserved by
    request processing and by the ACK trim (C1, C2); cached and uncached
    requests behave as the code says (C3, C4); the TTL trim breaks
    at-most-once on a concrete run (C14); a non-RPC frame leaks the server
    lock (C15); a malformed payload leaks the connection's wait group and
    blocks the reconnect (C16).
  \<^item> \<open>Server_Steps\<close>: the server as concurrent goroutines. Every
    operation of \<open>Service\<close> that runs concurrently (accepting a
    connection, a handshake, a rebind, one service-loop iteration, one
    dispatch worker, the ACK trim, closing a connection) is a rule of the
    \<^theory_text>\<open>inductive\<close> step relation \<open>srv_step\<close>, which maps to \<^verbatim>\<open>run\<close>
    (server.go 36--89); \<open>srv_reach\<close> is the set of states reachable from
    the start of \<^verbatim>\<open>run\<close>. By rule induction, every reachable state keeps
    at-most-once execution (C37), a rebind never overlaps a worker of the old
    connection (C38, spec 8.7), a pending worker never dereferences nil
    (C39), and a pending worker whose handler returns can always complete
    (C40). The worker rule assumes the client's discipline (it retransmits
    only unacknowledged requests) and a clock that does not go back; the TTL
    trim is left out of the relation because it breaks at-most-once (C14).
  \<^item> \<open>Server_Shutdown\<close>: \<^verbatim>\<open>closeClientConn\<close> (server.go 398--406) as
    the set of connections it closes. Lemmas: in every reachable state each
    listed connection has a context, so after the call every closed
    connection is woken: a handshake in progress fails, and a service loop
    can always take its exit step.
  \<^item> \<open>Swift_Emulator\<close>: the store as sorted association lists standing for
    \<^verbatim>\<open>sortedmap.LLRBTree\<close>, \<^verbatim>\<open>http.Header\<close> as association lists, a
    response record with Go's first-\<^verbatim>\<open>WriteHeader\<close>-wins rule, and every
    handler of \<^verbatim>\<open>ServeHTTP\<close>. Lemmas: PUT then GET round trip (C17); the
    store invariant (C18); the two range-header bugs (C19, C20); token
    revocation and the period of the \<^verbatim>\<open>uint32\<close> nonce (C21, C22); the
    header merge independent of map iteration order (C28).
  \<^item> \<open>Swift_Lifecycle\<close>: \<^verbatim>\<open>start\<close>, \<^verbatim>\<open>stop\<close>,
    \<^verbatim>\<open>initializeGlobals\<close>, \<^verbatim>\<open>uninitializeGlobals\<close>,
    \<^verbatim>\<open>startEmulator\<close> (its bounded \<^verbatim>\<open>GET /info\<close> retry loop, a
    terminating \<open>function\<close>) and \<^verbatim>\<open>stopEmulator\<close> with the wait group
    of the listener goroutines (impl.go 88--229), with the \<^verbatim>\<open>conf\<close>
    fetchers and the network's answers as parameters, and \<^verbatim>\<open>main\<close> of
    \<^verbatim>\<open>src/ramswift/ramswift/main.go\<close>. Lemmas: initialisation succeeds
    exactly when every fetch does, and otherwise returns the first fetch
    error and keeps accounts and token; the retry loop succeeds exactly
    when one of the first eleven probes does; start and stop keep the store,
    token and wait-group invariants; start then stop leaves no listener, two
    starts without a stop make the next stop block in \<^verbatim>\<open>Wait\<close>.
  \<^item> \<open>Client\<close>: \<^verbatim>\<open>Client.send\<close> (client.go 35--108) with JSON marshalling
    and the client's \<^verbatim>\<open>getIO\<close> as parameters. Lemmas: the server rejects its
    frames (C23); it never returns a reply (C25); it only grows the
    outstanding map (C26); its IDs are distinct up to \<open>2^64\<close> calls (C27).
  \<^item> \<open>Client_Ack\<close>: the client's highest-consecutive ACK bookkeeping of
    spec C8 (its code is not under \<^verbatim>\<open>src/\<close>), the pending IDs as a
    sorted list, and the test \<^verbatim>\<open>testBtree\<close> of
    \<^verbatim>\<open>src/retryrpc/retryrpc_test.go\<close> as its seven assertions. Lemmas: the
    bookkeeping refines the set of received IDs and its watermark is the
    spec's highest-consecutive ID; replies for 1 to \<open>w\<close> in any order
    leave the watermark at \<open>w\<close> and nothing pending; the spec's model
    meets the test's three watermark assertions and fails its four
    tree-size assertions.
  \<^item> \<open>Imgr_HTTP\<close>: the administrative HTTP server of the inode manager
    (\<^verbatim>\<open>src/imgr/imgrpkg/http-server.go\<close>): \<^verbatim>\<open>ServeHTTP\<close> and every
    routing function and handler, on the response writer of
    \<open>Swift_Emulator\<close>; the volume table behind it is not in \<^verbatim>\<open>src/\<close> and
    is modelled from the spec as a map. Lemmas: PUT then GET round trip
    (C29); \<^verbatim>\<open>/volume\<close> is matched as a string prefix (C30); only a
    successful PUT or DELETE changes the table (C31); DELETE then GET (C32);
    PUT of an existing volume (C33); the statuses (C34); Content-Length of
    every 200 answer (C35); trailing slashes are ignored (C36).
  \<^item> \<open>Imgr_Lifecycle\<close>: \<^verbatim>\<open>startHTTPServer\<close> and
    \<^verbatim>\<open>stopHTTPServer\<close> of http-server.go (20--57) on the listener state of
    \<open>Swift_Lifecycle\<close>; the stop is shown equal to \<^verbatim>\<open>stopEmulator\<close>, so
    its invariant carries over; start then stop leaves no listener, and two
    starts make the next stop block.
  \<^item> This theory: client requests never let the ACK trim remove anything
    (C24), a property of \<open>Client\<close>, \<open>Session\<close> and \<open>Trim\<close> together;
    and, with the watermark the spec has the client send
    (\<open>Client_Ack\<close>), the ACK trim removes only replies the client has
    received (\<open>ack_trim_only_received\<close>).

  Bounds and fuel: no fuel is used. Loops over lists are structural; the one
  loop over machine integers (the ACK trim) is a partial function whose
  termination is characterised exactly. The \<^verbatim>\<open>startEmulator\<close> retry loop
  is a \<open>function\<close> terminating by the measure \<open>11 - retries\<close>, the
  bound \<^verbatim>\<open>startGETInfoMaxRetries = 10\<close> of the code. The \<^verbatim>\<open>serviceClient\<close> loop is
  modelled over a finite list of read events, the model of a connection
  that delivers those events and then fails.

  Not modelled: logging, TLS and sockets (a connection is a byte list),
  JSON marshalling and unmarshalling, reflection-based method dispatch
  (a method table parameter), interleavings finer than one operation (each
  operation of \<open>srv_step\<close> is atomic, as the locks it holds make it for
  the state the properties read), \<^verbatim>\<open>DumpKey\<close> and \<^verbatim>\<open>DumpValue\<close> of
  the emulator (\<^verbatim>\<open>fmt\<close> printing of tree keys and of pointers for
  \<^verbatim>\<open>sortedmap\<close>'s debug dumps, whose text depends on memory addresses),
  and the sockets themselves (a closed
  one is modelled by the read error it returns). What the network answers the HTTP listeners and
  the emulator's probes is a parameter of \<open>start_emulator\<close>,
  \<open>stop_emulator\<close>, \<open>start_http_server\<close> and \<open>stop_http_server\<close>,
  and the sleep between probes is left out. The imgr configuration,
  \<^verbatim>\<open>ramswift.Daemon\<close> and the \<^verbatim>\<open>conf\<close> package are not under
  \<^verbatim>\<open>src/\<close>.
\<close>

text \<open>C24 Requests sent by \<^verbatim>\<open>Client.send\<close> never let the server's ACK trim
  remove anything: they carry \<^verbatim>\<open>HighestReplySeen = 0\<close>, so a session whose
  watermarks are 0 keeps them at 0 through \<^verbatim>\<open>processRequest\<close>, and
  \<^verbatim>\<open>trimAClientBasedACK\<close> then returns the session unchanged with no
  removal; completed replies leave the cache only through the TTL pass.\<close>

theorem client_requests_never_ack_trim:
  assumes "ci_highest_reply_seen ci = 0" "ci_previous_highest_reply_seen ci = 0"
  shows "let ci1 = snd (process_request_begin (fst (client_prepare e m p cl)) ci);
             ci2 = snd (process_request_finish (jreq_request_id (fst (client_prepare e m p cl))) dur ior now ci1)
         in ci_highest_reply_seen ci2 = 0 \<and> ci_previous_highest_reply_seen ci2 = 0 \<and>
            trim_a_client_based_ack ci2 = Some (ci2, 0)"
proof -
  define ci1 where "ci1 = snd (process_request_begin (fst (client_prepare e m p cl)) ci)"
  define ci2 where "ci2 = snd (process_request_finish (jreq_request_id (fst (client_prepare e m p cl))) dur ior now ci1)"
  have "ci_highest_reply_seen ci1 = 0 \<and> ci_previous_highest_reply_seen ci1 = 0"
    using assms by (simp add: ci1_def process_request_begin_def client_prepare_def Let_def split: option.split)
  then have z: "ci_highest_reply_seen ci2 = 0 \<and> ci_previous_highest_reply_seen ci2 = 0"
    by (simp add: ci2_def process_request_finish_def Let_def)
  then show ?thesis
    using trim_a_client_based_ack_zero [of ci2] by (simp add: ci1_def ci2_def Let_def)
qed

theorem client_requests_never_ack_trim_witness:
  "ci_highest_reply_seen (new_client_info 0 ''client 1'') = 0 \<and> ci_previous_highest_reply_seen (new_client_info 0 ''client 1'') = 0 \<and>
   (let ci1 = snd (process_request_begin (fst (client_prepare ex_cenv ''RpcPing'' ''{}'' ex_client)) (new_client_info 0 ''client 1''));
        ci2 = snd (process_request_finish (jreq_request_id (fst (client_prepare ex_cenv ''RpcPing'' ''{}'' ex_client))) 5 ex_reply 10 ci1)
    in ci_highest_reply_seen ci2 = 0 \<and> ci_previous_highest_reply_seen ci2 = 0 \<and>
       trim_a_client_based_ack ci2 = Some (ci2, 0))"
  using client_requests_never_ack_trim [of "new_client_info 0 ''client 1''" ex_cenv "''RpcPing''" "''{}''" ex_client 5 ex_reply 10]
  by (simp add: new_client_info_def)

text \<open>What the ACK trim would do with the watermark the spec has the client
  send: when a session's \<^verbatim>\<open>highestReplySeen\<close> is the settled watermark of
  the client's bookkeeping, every completed reply that
  \<^verbatim>\<open>trimAClientBasedACK\<close> removes is one the client has received.\<close>

lemma ack_trim_only_received:
  assumes "wf_client_info ci" "ack_settled a" "ci_highest_reply_seen ci = ack_highest a" "ack_highest a \<noteq> - 1"
    and "trim_a_client_based_ack ci = Some (ci', n)"
    and "ci_completed_request ci r \<noteq> None" "ci_completed_request ci' r = None"
  shows "r \<in> ack_received a"
proof -
  let ?P = "\<lambda>r. ci_previous_highest_reply_seen ci < r \<and> r \<le> ci_highest_reply_seen ci"
  have "ci' = (drop_completed ?P ci)\<lparr>ci_previous_highest_reply_seen := ci_highest_reply_seen ci\<rparr>"
    using trim_a_client_based_ack_eq [OF assms(1)] assms(3-5) by simp
  then have "ci_completed_request ci' r = (if ?P r then None else ci_completed_request ci r)"
    by (simp add: drop_completed_def restrict_map_def)
  then have "ci_previous_highest_reply_seen ci < r \<and> r \<le> ack_highest a"
    using assms(3,6,7) by (auto split: if_splits)
  then have "r \<in> {k. 1 \<le> k \<and> k \<le> ack_highest a}" by (auto simp: word_one_le_iff)
  then show ?thesis using ack_settled_watermark [OF assms(2)] by blast
qed

end
